(* ===== verification/Netstack_Prelude.thy ===== *)
theory Netstack_Prelude
  imports
    "HOL-Library.Word"
    "HOL-Library.Char_ord"
    "HOL-Library.List_Lexorder"
    "HOL-Library.Sublist"
    "HOL-Library.Multiset"
begin

text \<open>
  Shared vocabulary of the development: machine integers, the operations of
  \<open>std::string\<close> the sources use (\<open>find\<close>, \<open>substr\<close>, \<open>c_str\<close>,
  \<open>tolower\<close>, \<open>std::to_string\<close>, \<open>strtol\<close>), \<open>std::map\<close> as an association list
  sorted by key, and the generic lemmas about them that the component theories use.

  A \<open>std::string\<close> is a \<open>string\<close> (a list of 8-bit characters); a position or a size is a
  \<open>nat\<close>; \<open>std::string::npos\<close> is \<open>None\<close>.
\<close>

declare Let_def [simp]

section \<open>Machine integers\<close>

type_synonym byte = "8 word"
type_synonym u16 = "16 word"
type_synonym u32 = "32 word"

text \<open>\<open>size_t\<close> counters that are added to and subtracted from, with the wrap-around at 64 bits.\<close>

definition SIZE_MAX :: nat where
  "SIZE_MAX = 2 ^ 64 - 1"

definition size_add :: "nat \<Rightarrow> nat \<Rightarrow> nat" where
  "size_add a b = (a + b) mod 2 ^ 64"

definition size_sub :: "nat \<Rightarrow> nat \<Rightarrow> nat" where
  "size_sub a b = (a + 2 ^ 64 - b) mod 2 ^ 64"

lemma size_add_small [simp]: "a + b < 2 ^ 64 \<Longrightarrow> size_add a b = a + b"
  by (simp add: size_add_def)

lemma size_sub_small [simp]:
  assumes "b \<le> a" and "a < 2 ^ 64"
  shows "size_sub a b = a - b"
proof -
  have "size_sub a b = ((a - b) + 2 ^ 64) mod 2 ^ 64"
    using assms(1) by (simp add: size_sub_def add.commute)
  also have "\<dots> = (a - b) mod 2 ^ 64"
    by (rule mod_add_self2)
  finally show ?thesis
    using assms(2) by simp
qed

text \<open>The value a two's complement \<open>int64_t\<close> holds after an operation with mathematical result \<open>x\<close>.\<close>

definition i64 :: "int \<Rightarrow> int" where
  "i64 x = (x + 2 ^ 63) mod 2 ^ 64 - 2 ^ 63"

definition INT64_MAX :: int where
  "INT64_MAX = 2 ^ 63 - 1"

definition INT64_MIN :: int where
  "INT64_MIN = - (2 ^ 63)"

definition in_i64 :: "int \<Rightarrow> bool" where
  "in_i64 x \<longleftrightarrow> INT64_MIN \<le> x \<and> x \<le> INT64_MAX"

lemma i64_id [simp]: "in_i64 x \<Longrightarrow> i64 x = x"
  by (simp add: i64_def in_i64_def INT64_MAX_def INT64_MIN_def)

lemma in_i64_i64 [simp]: "in_i64 (i64 x)"
proof -
  have "0 \<le> (x + 2 ^ 63) mod (2 ^ 64 :: int)" and "(x + 2 ^ 63) mod (2 ^ 64 :: int) < 2 ^ 64"
    by simp_all
  then show ?thesis
    unfolding in_i64_def i64_def INT64_MAX_def INT64_MIN_def by simp
qed

section \<open>Characters and bytes\<close>

definition char_to_byte :: "char \<Rightarrow> byte" where
  "char_to_byte c = of_char c"

definition byte_to_char :: "byte \<Rightarrow> char" where
  "byte_to_char b = char_of (unat b)"

lemma unat_char_to_byte [simp]: "unat (char_to_byte c) = of_char c"
proof -
  have "of_char c < (256 :: nat)"
    by (rule nat_of_char_less_256)
  then have "take_bit 8 (of_char c) = (of_char c :: nat)"
    by (simp add: take_bit_nat_eq_self)
  moreover have "char_to_byte c = word_of_nat (of_char c)"
    by (simp add: char_to_byte_def of_nat_of_char)
  ultimately show ?thesis
    by (simp add: unat_of_nat take_bit_eq_mod)
qed

lemma byte_to_char_to_byte [simp]: "byte_to_char (char_to_byte c) = c"
  by (simp add: byte_to_char_def)

lemma char_to_byte_to_char [simp]: "char_to_byte (byte_to_char b) = b"
proof -
  have "unat (char_to_byte (byte_to_char b)) = unat b mod 256"
    by (simp add: byte_to_char_def)
  also have "\<dots> = unat b"
    using unsigned_less [of b, where 'a = nat] by simp
  finally show ?thesis by (simp add: word_unat_eq_iff)
qed

section \<open>Strings\<close>

abbreviation NUL :: char where
  "NUL \<equiv> CHR 0x00"

text \<open>\<open>c_str()\<close> read back as a C string: everything before the first NUL.\<close>

definition c_str :: "string \<Rightarrow> string" where
  "c_str s = takeWhile (\<lambda>c. c \<noteq> NUL) s"

lemma c_str_id [simp]: "NUL \<notin> set s \<Longrightarrow> c_str s = s"
  by (auto simp: c_str_def takeWhile_eq_all_conv)

text \<open>\<open>std::string::find(pat)\<close>: the position of the first occurrence.\<close>

fun find_sub :: "'a list \<Rightarrow> 'a list \<Rightarrow> nat option" where
  "find_sub pat [] = (if pat = [] then Some 0 else None)"
| "find_sub pat (x # xs) =
     (if prefix pat (x # xs) then Some 0 else map_option Suc (find_sub pat xs))"

text \<open>\<open>std::string::find(pat, pos)\<close>: the same from \<open>pos\<close> on, \<open>None\<close> when \<open>pos\<close> is past the end.\<close>

definition find_from :: "'a list \<Rightarrow> 'a list \<Rightarrow> nat \<Rightarrow> nat option" where
  "find_from pat s pos =
     (if pos \<le> length s then map_option (\<lambda>i. pos + i) (find_sub pat (drop pos s)) else None)"

lemma find_sub_Some:
  "find_sub pat s = Some i \<Longrightarrow>
     i + length pat \<le> length s \<and> take (length pat) (drop i s) = pat"
proof (induction s arbitrary: i)
  case Nil
  then show ?case by (auto split: if_splits)
next
  case (Cons x xs)
  show ?case
  proof (cases "prefix pat (x # xs)")
    case True
    with Cons.prems have "i = 0" by simp
    with True show ?thesis
      using prefix_length_le [OF True] by (auto simp: prefix_def)
  next
    case False
    with Cons.prems obtain k where "find_sub pat xs = Some k" "i = Suc k"
      by auto
    with Cons.IH [of k] show ?thesis by simp
  qed
qed

lemma find_sub_decomp:
  "find_sub pat s = Some i \<Longrightarrow> s = take i s @ pat @ drop (i + length pat) s"
  using find_sub_Some [of pat s i]
  by (metis add.commute append_take_drop_id drop_drop)

lemma find_sub_bound: "find_sub pat s = Some i \<Longrightarrow> i + length pat \<le> length s"
  using find_sub_Some by blast

lemma find_sub_None_iff: "find_sub pat s = None \<longleftrightarrow> \<not> sublist pat s"
  by (induction s) (auto simp: sublist_Cons_right)

lemma find_sub_first: "find_sub pat s = Some i \<Longrightarrow> j < i \<Longrightarrow> \<not> prefix pat (drop j s)"
proof (induction s arbitrary: i j)
  case Nil
  then show ?case by (auto split: if_splits)
next
  case (Cons x xs)
  then show ?case by (cases j) (auto split: if_splits)
qed

lemma find_sub_single_None [simp]: "find_sub [c] s = None \<longleftrightarrow> c \<notin> set s"
  by (induction s) auto

lemma find_sub_single_take: "find_sub [c] s = Some i \<Longrightarrow> c \<notin> set (take i s)"
proof (induction s arbitrary: i)
  case Nil
  then show ?case by simp
next
  case (Cons x xs)
  then show ?case by (auto split: if_splits)
qed

lemma find_sub_single_append [simp]:
  "c \<notin> set xs \<Longrightarrow> find_sub [c] (xs @ c # ys) = Some (length xs)"
  by (induction xs) auto

lemma find_sub_prefix [simp]: "prefix pat s \<Longrightarrow> find_sub pat s = Some 0"
  by (cases s) auto

lemma find_from_0 [simp]: "find_from pat s 0 = find_sub pat s"
  by (cases "find_sub pat s") (auto simp: find_from_def)

lemma find_from_bound:
  "find_from pat s pos = Some i \<Longrightarrow> pos \<le> i \<and> i + length pat \<le> length s"
  by (auto simp: find_from_def split: if_splits dest!: find_sub_bound)

lemma find_sub_single_absent [simp]: "c \<notin> set s \<Longrightarrow> find_sub [c] s = None"
  by simp

lemma find_from_append:
  "find_from pat (d @ r) (length d) = map_option (\<lambda>i. length d + i) (find_sub pat r)"
  by (simp add: find_from_def)

lemma find_sub_single_cases:
  obtains "c \<notin> set r" and "find_sub [c] r = None"
  | xs ys where "r = xs @ c # ys" and "c \<notin> set xs" and "find_sub [c] r = Some (length xs)"
proof (cases "c \<in> set r")
  case True
  then obtain xs ys where "r = xs @ c # ys" and "c \<notin> set xs"
    using split_list_first by metis
  then show thesis using that(2) by simp
next
  case False
  then show thesis using that(1) by simp
qed

lemma find_sub_0_iff [simp]: "find_sub pat r = Some 0 \<longleftrightarrow> prefix pat r"
  by (cases r) auto

lemma find_from_here: "find_from pat (d @ r) (length d) = Some (length d) \<longleftrightarrow> prefix pat r"
  by (auto simp: find_from_append)

text \<open>The pieces of a string between the occurrences of a character, empty ones included.\<close>

fun segments :: "char \<Rightarrow> string \<Rightarrow> string list" where
  "segments c [] = [[]]"
| "segments c (x # xs) =
     (if x = c then [] # segments c xs
      else (x # hd (segments c xs)) # tl (segments c xs))"

lemma segments_nonempty [simp]: "segments c s \<noteq> []"
  by (induction s) auto

lemma segments_absent [simp]: "c \<notin> set s \<Longrightarrow> segments c s = [s]"
  by (induction s) auto

lemma segments_append [simp]: "c \<notin> set xs \<Longrightarrow> segments c (xs @ c # ys) = xs # segments c ys"
  by (induction xs) auto

lemma set_segments: "p \<in> set (segments c s) \<Longrightarrow> set p \<subseteq> set s"
proof (induction s arbitrary: p)
  case (Cons x xs)
  have h: "set (hd (segments c xs)) \<subseteq> set xs" using Cons.IH by simp
  have "set (tl (segments c xs)) \<subseteq> set (segments c xs)"
    by (cases "segments c xs") auto
  then have t: "set q \<subseteq> set xs" if "q \<in> set (tl (segments c xs))" for q
    using Cons.IH that by blast
  show ?case
  proof (cases "x = c")
    case True
    then have "p = [] \<or> p \<in> set (segments c xs)" using Cons.prems by auto
    then show ?thesis using Cons.IH [of p] by auto
  next
    case False
    then have "p = x # hd (segments c xs) \<or> p \<in> set (tl (segments c xs))" using Cons.prems by auto
    then show ?thesis
    proof
      assume "p = x # hd (segments c xs)"
      with h show ?thesis by (simp only: list.set) blast
    next
      assume "p \<in> set (tl (segments c xs))"
      then show ?thesis using t by auto
    qed
  qed
qed simp

text \<open>
  \<open>std::tolower\<close> on every character in the "C" locale: only the 26 capital letters change.
\<close>

definition is_upper :: "char \<Rightarrow> bool" where
  "is_upper c \<longleftrightarrow> CHR ''A'' \<le> c \<and> c \<le> CHR ''Z''"

definition is_lower :: "char \<Rightarrow> bool" where
  "is_lower c \<longleftrightarrow> CHR ''a'' \<le> c \<and> c \<le> CHR ''z''"

definition is_digit :: "char \<Rightarrow> bool" where
  "is_digit c \<longleftrightarrow> CHR ''0'' \<le> c \<and> c \<le> CHR ''9''"

definition is_alnum :: "char \<Rightarrow> bool" where
  "is_alnum c \<longleftrightarrow> is_upper c \<or> is_lower c \<or> is_digit c"

definition to_lower_char :: "char \<Rightarrow> char" where
  "to_lower_char c = (if is_upper c then char_of (of_char c + 32 :: nat) else c)"

lemma to_lower_char_idem [simp]: "to_lower_char (to_lower_char c) = to_lower_char c"
proof (cases "is_upper c")
  case True
  then have r: "65 \<le> (of_char c :: nat)" "(of_char c :: nat) \<le> 90"
    by (simp_all add: is_upper_def less_eq_char_def)
  then have "\<not> is_upper (char_of (of_char c + 32 :: nat))"
    by (simp add: is_upper_def less_eq_char_def)
  with True show ?thesis
    by (simp add: to_lower_char_def)
qed (simp add: to_lower_char_def)

section \<open>Decimal numbers\<close>

definition digit_char :: "nat \<Rightarrow> char" where
  "digit_char d = char_of (48 + d)"

definition digit_val :: "char \<Rightarrow> nat" where
  "digit_val c = of_char c - 48"

text \<open>\<open>std::to_string\<close> on a non-negative number.\<close>

fun to_string_nat :: "nat \<Rightarrow> string" where
  "to_string_nat n =
     (if n < 10 then [digit_char n] else to_string_nat (n div 10) @ [digit_char (n mod 10)])"

declare to_string_nat.simps [simp del]

definition dec_value :: "string \<Rightarrow> nat" where
  "dec_value s = foldl (\<lambda>a c. 10 * a + digit_val c) 0 s"

definition is_space :: "char \<Rightarrow> bool" where
  "is_space c \<longleftrightarrow> c \<in> {CHR '' '', CHR 0x09, CHR 0x0A, CHR 0x0B, CHR 0x0C, CHR 0x0D}"

text \<open>
  \<open>std::strtol(s, nullptr, 10)\<close> with a 64-bit \<open>long\<close>: white space, an optional sign, the longest
  run of digits; the value saturates at the bounds of the type and is 0 without digits.
\<close>

definition strtol10 :: "string \<Rightarrow> int" where
  "strtol10 s =
     (let s1 = dropWhile is_space s;
          neg = (case s1 of [] \<Rightarrow> False | c # _ \<Rightarrow> c = CHR ''-'');
          s2 = (case s1 of [] \<Rightarrow> [] | c # cs \<Rightarrow> if c = CHR ''-'' \<or> c = CHR ''+'' then cs else s1);
          v = int (dec_value (takeWhile is_digit s2))
      in if neg then max INT64_MIN (- v) else min INT64_MAX v)"

lemma digit_char_props [simp]:
  assumes "d < 10"
  shows "is_digit (digit_char d)" and "digit_val (digit_char d) = d"
    and "\<not> is_space (digit_char d)" and "digit_char d \<noteq> CHR ''-''" and "digit_char d \<noteq> CHR ''+''"
    and "digit_char d \<noteq> NUL"
proof -
  have v: "of_char (digit_char d) = (48 + d :: nat)"
    using assms by (simp add: digit_char_def)
  show "is_digit (digit_char d)" and "digit_val (digit_char d) = d"
    using assms v by (simp_all add: is_digit_def digit_val_def less_eq_char_def)
  show "\<not> is_space (digit_char d)"
    using v by (auto simp: is_space_def)
  show "digit_char d \<noteq> CHR ''-''" and "digit_char d \<noteq> CHR ''+''" and "digit_char d \<noteq> NUL"
    using v by auto
qed

lemma to_string_nat_nonempty [simp]: "to_string_nat n \<noteq> []"
  by (subst to_string_nat.simps) simp

lemma to_string_nat_digits: "c \<in> set (to_string_nat n) \<Longrightarrow> \<exists>d < 10. c = digit_char d"
proof (induction n rule: to_string_nat.induct)
  case (1 n)
  show ?case
  proof (cases "n < 10")
    case True
    with "1.prems" show ?thesis by (subst (asm) to_string_nat.simps) auto
  next
    case False
    with "1.prems" have "c \<in> set (to_string_nat (n div 10)) \<or> c = digit_char (n mod 10)"
      by (subst (asm) to_string_nat.simps) auto
    moreover have "n mod 10 < 10" by simp
    ultimately show ?thesis
      using "1.IH" [OF False] by blast
  qed
qed

lemma dec_value_snoc [simp]: "dec_value (s @ [c]) = 10 * dec_value s + digit_val c"
  by (simp add: dec_value_def)

lemma dec_value_to_string_nat [simp]: "dec_value (to_string_nat n) = n"
proof (induction n rule: to_string_nat.induct)
  case (1 n)
  show ?case
  proof (cases "n < 10")
    case True
    then show ?thesis
      by (subst to_string_nat.simps) (simp add: dec_value_def)
  next
    case False
    then have "dec_value (to_string_nat n) = 10 * (n div 10) + n mod 10"
      by (subst to_string_nat.simps) (simp add: "1.IH")
    then show ?thesis by simp
  qed
qed

lemma strtol10_to_string_nat [simp]:
  assumes "int n \<le> INT64_MAX"
  shows "strtol10 (to_string_nat n) = int n"
proof -
  obtain c cs where s: "to_string_nat n = c # cs"
    by (cases "to_string_nat n") auto
  then obtain d where "d < 10" and c: "c = digit_char d"
    using to_string_nat_digits [of c n] by auto
  then have "\<not> is_space c" and "c \<noteq> CHR ''-''" and "c \<noteq> CHR ''+''"
    by simp_all
  moreover have "takeWhile is_digit (to_string_nat n) = to_string_nat n"
    using to_string_nat_digits by (force simp: takeWhile_eq_all_conv)
  ultimately show ?thesis
    using assms s dec_value_to_string_nat [of n] by (simp add: strtol10_def Let_def)
qed

lemma NUL_notin_to_string_nat [simp]: "NUL \<notin> set (to_string_nat n)"
  using to_string_nat_digits [of NUL n] digit_char_props(6) by metis

lemma in_i64_strtol10 [simp]: "in_i64 (strtol10 s)"
  by (auto simp: strtol10_def Let_def in_i64_def INT64_MAX_def INT64_MIN_def max_def min_def)

section \<open>Ordered maps\<close>

text \<open>
  A \<open>std::map\<close> is an association list in strictly increasing key order, which is also the order
  a range-based \<open>for\<close> visits it in; \<open>m[k] = v\<close> is \<open>smap_put\<close> and \<open>find\<close> is \<open>map_of\<close>.
\<close>

type_synonym ('k, 'v) smap = "('k \<times> 'v) list"

fun smap_put :: "'k::linorder \<Rightarrow> 'v \<Rightarrow> ('k, 'v) smap \<Rightarrow> ('k, 'v) smap" where
  "smap_put k v [] = [(k, v)]"
| "smap_put k v ((a, b) # m) =
     (if k < a then (k, v) # (a, b) # m
      else if k = a then (k, v) # m
      else (a, b) # smap_put k v m)"

definition smap_ok :: "('k::linorder, 'v) smap \<Rightarrow> bool" where
  "smap_ok m \<longleftrightarrow> sorted_wrt (<) (map fst m)"

lemma smap_ok_Nil [simp]: "smap_ok []"
  by (simp add: smap_ok_def)

lemma smap_put_keys [simp]: "fst ` set (smap_put k v m) = insert k (fst ` set m)"
  by (induction k v m rule: smap_put.induct) auto

lemma smap_ok_put [simp]: "smap_ok m \<Longrightarrow> smap_ok (smap_put k v m)"
proof (induction k v m rule: smap_put.induct)
  case (2 k v a b m)
  have "smap_ok m" and below: "\<forall>x \<in> fst ` set m. a < x"
    using "2.prems" by (auto simp: smap_ok_def)
  then have "smap_ok ((a, b) # smap_put k v m)" if "a < k"
    using "2.IH" that by (auto simp: smap_ok_def)
  then show ?case
    using "2.prems" by (auto simp: smap_ok_def)
qed (simp add: smap_ok_def)

lemma map_of_smap_put [simp]: "map_of (smap_put k v m) = (map_of m)(k \<mapsto> v)"
  by (induction k v m rule: smap_put.induct) (auto simp: fun_eq_iff)

lemma smap_ok_distinct: "smap_ok m \<Longrightarrow> distinct (map fst m)"
  by (simp add: smap_ok_def strict_sorted_iff)

lemma smap_eqI:
  assumes "smap_ok m" and "smap_ok m'" and "map_of m = map_of m'"
  shows "m = m'"
proof (rule map_sorted_distinct_set_unique [of fst])
  show "set m = set m'"
    using assms by (simp add: map_of_inject_set smap_ok_distinct)
  then show "inj_on fst (set m \<union> set m')"
    using smap_ok_distinct [OF assms(1)] by (simp add: distinct_map)
qed (use assms in \<open>simp_all add: smap_ok_def strict_sorted_iff\<close>)

end
