(* ===== verification/LRU_Spec.thy ===== *)
theory LRU_Spec
  imports Netstack_Prelude
begin

text \<open>
  The abstract least-recently-used store that the response cache promises: entries from most to
  least recently used, a byte budget, and eviction of the least recently used entries that do
  not fit. The locale \<open>lru_store\<close> states what a cache object has to provide (its operations may
  fail to return, hence the \<open>option\<close>); its lemmas are what the disk handler and the JSON
  persistence rely on. Both LRU caches of the repository are interpreted as instances.
\<close>

section \<open>Values and their sizes\<close>

text \<open>
  A cached value is a \<open>std::unordered_map<string, string>\<close>, kept as its entries in iteration
  order; only the multiset of the entries matters for its size.
\<close>

type_synonym svmap = "(string \<times> string) list"
type_synonym entry = "string \<times> svmap"

definition MAX_SIZE :: nat where
  "MAX_SIZE = 1024 * 1024"

definition INVALID_SIZE :: nat where
  "INVALID_SIZE = SIZE_MAX"

definition map_bytes :: "svmap \<Rightarrow> nat" where
  "map_bytes m = sum_list (map (\<lambda>p. length (snd p)) m)"

definition valid_value :: "svmap \<Rightarrow> bool" where
  "valid_value m \<longleftrightarrow> 0 < map_bytes m \<and> map_bytes m \<le> MAX_SIZE"

definition total_bytes :: "entry list \<Rightarrow> nat" where
  "total_bytes es = sum_list (map (\<lambda>e. map_bytes (snd e)) es)"

lemma map_bytes_simps [simp]:
  "map_bytes [] = 0"
  "map_bytes (p # m) = length (snd p) + map_bytes m"
  by (simp_all add: map_bytes_def)

lemma total_bytes_simps [simp]:
  "total_bytes [] = 0"
  "total_bytes (e # es) = map_bytes (snd e) + total_bytes es"
  "total_bytes (xs @ ys) = total_bytes xs + total_bytes ys"
  by (simp_all add: total_bytes_def)

lemma total_bytes_filter_le: "total_bytes (filter P es) \<le> total_bytes es"
  by (induction es) auto

lemma map_bytes_perm: "mset m = mset m' \<Longrightarrow> map_bytes m = map_bytes m'"
  by (simp add: map_bytes_def flip: sum_mset_sum_list)

section \<open>The abstract operations\<close>

definition lookup_or_empty :: "entry list \<Rightarrow> string \<Rightarrow> svmap" where
  "lookup_or_empty es k = (case map_of es k of None \<Rightarrow> [] | Some v \<Rightarrow> v)"

definition without :: "string \<Rightarrow> entry list \<Rightarrow> entry list" where
  "without k es = filter (\<lambda>e. fst e \<noteq> k) es"

definition touch :: "string \<Rightarrow> entry list \<Rightarrow> entry list" where
  "touch k es = (case map_of es k of None \<Rightarrow> es | Some v \<Rightarrow> (k, v) # without k es)"

text \<open>The longest prefix (the most recently used entries) that fits a byte budget.\<close>

fun keep :: "nat \<Rightarrow> entry list \<Rightarrow> entry list" where
  "keep b [] = []"
| "keep b (e # es) =
     (if map_bytes (snd e) \<le> b then e # keep (b - map_bytes (snd e)) es else [])"

definition store :: "nat \<Rightarrow> string \<Rightarrow> svmap \<Rightarrow> entry list \<Rightarrow> entry list" where
  "store b k v es = (if valid_value v then keep b ((k, v) # without k es) else es)"

lemma keep_all [simp]: "total_bytes es \<le> b \<Longrightarrow> keep b es = es"
  by (induction es arbitrary: b) auto

lemma total_bytes_keep: "total_bytes (keep b es) \<le> b"
  by (induction b es rule: keep.induct) auto

lemma keep_snoc: "b < total_bytes (es @ [e]) \<Longrightarrow> keep b (es @ [e]) = keep b es"
  by (induction es arbitrary: b) auto

lemma prefix_keep: "prefix (keep b es) es"
  by (induction b es rule: keep.induct) auto

lemma keep_longest: "prefix ps es \<Longrightarrow> total_bytes ps \<le> b \<Longrightarrow> prefix ps (keep b es)"
proof (induction es arbitrary: b ps)
  case (Cons e es)
  then show ?case by (cases ps) auto
qed simp

lemma set_keep: "set (keep b es) \<subseteq> set es"
  using prefix_keep set_mono_prefix by blast

lemma distinct_keep: "distinct (map fst es) \<Longrightarrow> distinct (map fst (keep b es))"
  by (metis distinct_append map_append prefix_def prefix_keep)

lemma keep_Cons_keep: "keep b (e # keep b es) = keep b (e # es)"
proof -
  have "keep a (keep b xs) = keep a xs" if "a \<le> b" for a b xs
    using that by (induction xs arbitrary: a b) auto
  then show ?thesis by simp
qed

lemma without_simps [simp]:
  "without k [] = []"
  "without k (e # es) = (if fst e = k then without k es else e # without k es)"
  by (simp_all add: without_def)

lemma set_without: "set (without k es) = {e \<in> set es. fst e \<noteq> k}"
  by (auto simp: without_def)

lemma fst_set_without [simp]: "k \<notin> fst ` set (without k es)"
  by (auto simp: set_without)

lemma map_of_without [simp]: "map_of (without k es) = (map_of es)(k := None)"
  by (induction es) auto

lemma distinct_without [simp]: "distinct (map fst es) \<Longrightarrow> distinct (map fst (without k es))"
  by (simp add: without_def distinct_map_filter)

lemma without_id [simp]: "k \<notin> fst ` set es \<Longrightarrow> without k es = es"
  by (induction es) auto

lemma total_bytes_without:
  "distinct (map fst es) \<Longrightarrow> map_of es k = Some v \<Longrightarrow>
     total_bytes es = map_bytes v + total_bytes (without k es)"
  by (induction es) (auto split: if_splits)

lemma map_of_touch [simp]: "map_of (touch k es) = map_of es"
  by (auto simp: touch_def fun_eq_iff split: option.splits)

lemma distinct_touch [simp]: "distinct (map fst es) \<Longrightarrow> distinct (map fst (touch k es))"
  by (auto simp: touch_def split: option.splits)

lemma set_touch [simp]: "distinct (map fst es) \<Longrightarrow> set (touch k es) = set es"
  by (metis distinct_touch map_of_inject_set map_of_touch)

lemma total_bytes_touch [simp]:
  "distinct (map fst es) \<Longrightarrow> total_bytes (touch k es) = total_bytes es"
  using total_bytes_without [of es k] by (cases "map_of es k") (simp_all add: touch_def)

text \<open>Assigning a new value to the entry of a key, in place.\<close>

definition assign :: "string \<Rightarrow> svmap \<Rightarrow> entry list \<Rightarrow> entry list" where
  "assign k v es = map (\<lambda>e. (fst e, if fst e = k then v else snd e)) es"

lemma without_assign [simp]: "without k (assign k v es) = without k es"
  by (induction es) (auto simp: assign_def)

lemma map_of_assign:
  "map_of es k = Some w \<Longrightarrow> map_of (assign k v es) k = Some v"
  by (induction es) (auto simp: assign_def split: if_splits)

lemma fst_assign [simp]: "map fst (assign k v es) = map fst es"
  by (simp add: assign_def)

lemma touch_assign: "map_of es k = Some w \<Longrightarrow> touch k (assign k v es) = (k, v) # without k es"
  by (simp add: touch_def map_of_assign)

lemma map_of_keep_SomeD:
  assumes "distinct (map fst es)" and "map_of (keep b es) k = Some v"
  shows "map_of es k = Some v"
  using assms set_keep [of b es] map_of_SomeD [OF assms(2)] by (auto intro: map_of_is_SomeI)

lemma store_props:
  assumes "distinct (map fst es)" and "\<forall>e \<in> set es. valid_value (snd e)"
    and "total_bytes es \<le> b"
  shows "distinct (map fst (store b k v es))" and "\<forall>e \<in> set (store b k v es). valid_value (snd e)"
    and "total_bytes (store b k v es) \<le> b"
proof -
  have d: "distinct (map fst ((k, v) # without k es))"
    using assms(1) by simp
  show "distinct (map fst (store b k v es))"
    using distinct_keep [OF d] assms(1) by (simp add: store_def)
  show "\<forall>e \<in> set (store b k v es). valid_value (snd e)"
    using assms(2) set_keep [of b "(k, v) # without k es"]
    by (auto simp: store_def set_without simp del: keep.simps)
  show "total_bytes (store b k v es) \<le> b"
    using assms(3) total_bytes_keep by (simp add: store_def del: keep.simps)
qed

section \<open>The interface\<close>

locale lru_store =
  fixes inv :: "'c \<Rightarrow> bool"
    and entries :: "'c \<Rightarrow> entry list"
    and room :: "'c \<Rightarrow> nat"
    and get :: "'c \<Rightarrow> string \<Rightarrow> ('c \<times> svmap) option"
    and put :: "'c \<Rightarrow> string \<Rightarrow> svmap \<Rightarrow> 'c option"
  assumes inv_entries: "inv c \<Longrightarrow>
      distinct (map fst (entries c)) \<and> (\<forall>e \<in> set (entries c). valid_value (snd e)) \<and>
      total_bytes (entries c) \<le> room c"
    and get_spec: "inv c \<Longrightarrow> \<exists>c'. get c k = Some (c', lookup_or_empty (entries c) k) \<and> inv c' \<and>
      entries c' = touch k (entries c) \<and> room c' = room c"
    and put_spec: "inv c \<Longrightarrow> \<exists>c'. put c k v = Some c' \<and> inv c' \<and>
      entries c' = store (room c) k v (entries c) \<and> room c' = room c"
begin

text \<open>Putting a list of entries, oldest first, as merging and reading back from disk do.\<close>

fun put_all :: "'c \<Rightarrow> entry list \<Rightarrow> 'c option" where
  "put_all c [] = Some c"
| "put_all c (e # es) = (case put c (fst e) (snd e) of None \<Rightarrow> None | Some c' \<Rightarrow> put_all c' es)"

lemma put_all_spec:
  "inv c \<Longrightarrow> \<exists>c'. put_all c kvs = Some c' \<and> inv c' \<and>
     entries c' = fold (\<lambda>e. store (room c) (fst e) (snd e)) kvs (entries c) \<and> room c' = room c"
proof (induction kvs arbitrary: c)
  case (Cons e kvs)
  obtain c1 where "put c (fst e) (snd e) = Some c1" and "inv c1" and "room c1 = room c"
    and "entries c1 = store (room c) (fst e) (snd e) (entries c)"
    using put_spec [OF Cons.prems] by blast
  with Cons.IH [OF \<open>inv c1\<close>] show ?case by simp
qed simp

lemma fold_store_fresh:
  assumes "distinct (map fst es)" and "\<forall>e \<in> set es. valid_value (snd e)"
    and "fst ` set es \<inter> fst ` set old = {}" and "total_bytes old \<le> b"
  shows "fold (\<lambda>e. store b (fst e) (snd e)) (rev es) old = keep b (es @ old)"
  using assms(1-3)
proof (induction es)
  case Nil
  then show ?case using assms(4) by simp
next
  case (Cons e es)
  have IH: "fold (\<lambda>e. store b (fst e) (snd e)) (rev es) old = keep b (es @ old)"
    using Cons by auto
  have "fst ` set (keep b (es @ old)) \<subseteq> fst ` set es \<union> fst ` set old"
    using image_mono [OF set_keep [of b "es @ old"], of fst] by (simp add: image_Un)
  then have "fst e \<notin> fst ` set (keep b (es @ old))"
    using Cons.prems(1,3) by auto
  then have "without (fst e) (keep b (es @ old)) = keep b (es @ old)"
    by (rule without_id)
  then have "store b (fst e) (snd e) (keep b (es @ old)) = keep b (e # keep b (es @ old))"
    using Cons.prems(2) by (simp add: store_def del: keep.simps)
  then show ?case
    using IH by (simp add: keep_Cons_keep del: keep.simps)
qed

text \<open>Re-inserting the entries of another store, least recent first, rebuilds them in order.\<close>

lemma put_all_fresh:
  assumes "inv c" and "distinct (map fst es)" and "\<forall>e \<in> set es. valid_value (snd e)"
    and "fst ` set es \<inter> fst ` set (entries c) = {}"
  shows "\<exists>c'. put_all c (rev es) = Some c' \<and> inv c' \<and>
    entries c' = keep (room c) (es @ entries c) \<and> room c' = room c"
  using put_all_spec [OF assms(1), of "rev es"] fold_store_fresh [OF assms(2-4), of "room c"]
    inv_entries [OF assms(1)] by simp

text \<open>A value that fits is found again; other keys keep their value or are evicted.\<close>

lemma get_put_same:
  assumes "inv c" and "valid_value v" and "map_bytes v \<le> room c" and "put c k v = Some c1"
  shows "\<exists>c2. get c1 k = Some (c2, v)"
proof -
  have "inv c1" and e: "entries c1 = store (room c) k v (entries c)"
    using put_spec [OF assms(1), of k v] assms(4) by auto
  moreover have "lookup_or_empty (entries c1) k = v"
    using assms(2,3) e by (simp add: store_def lookup_or_empty_def)
  ultimately show ?thesis
    using get_spec [of c1 k] by auto
qed

lemma get_put_other:
  assumes "inv c" and "put c k v = Some c1" and "k' \<noteq> k" and "get c1 k' = Some (c2, w)"
  shows "w = [] \<or> w = lookup_or_empty (entries c) k'"
proof -
  have "inv c1" and e: "entries c1 = store (room c) k v (entries c)"
    using put_spec [OF assms(1), of k v] assms(2) by auto
  then have w: "w = lookup_or_empty (entries c1) k'"
    using get_spec [of c1 k'] assms(4) by auto
  have d: "distinct (map fst ((k, v) # without k (entries c)))"
    using inv_entries [OF assms(1)] by simp
  show ?thesis
  proof (cases "valid_value v \<and> w \<noteq> []")
    case True
    then have "map_of (keep (room c) ((k, v) # without k (entries c))) k' = Some w"
      using w e by (auto simp: lookup_or_empty_def store_def simp del: keep.simps
          split: option.splits)
    then have "map_of ((k, v) # without k (entries c)) k' = Some w"
      by (rule map_of_keep_SomeD [OF d])
    then show ?thesis
      using assms(3) by (simp add: lookup_or_empty_def)
  next
    case False
    then show ?thesis
      using w e by (auto simp: store_def)
  qed
qed

end

end
