(* ===== verification/LRU_Cache.thy ===== *)
theory LRU_Cache
  imports LRU_Spec
begin

text \<open>
  The class \<open>LRUCache\<close> of the native HTTP client
  (\<open>interfaces/innerkits/http_client/cache/lru_cache/src/lru_cache.cpp\<close>): a \<open>std::list\<close> of nodes,
  most recently used first, and an index from keys to list iterators. A list node has an
  address, which is what an iterator is; an operation that dereferences or erases an iterator
  that is not in the list, or whose eviction loop does not end, has the value \<open>None\<close>.

  The invariant \<open>lru_inv\<close> ties the index to the list and the byte counter to the entries. It does
  not say that the counter is the sum of the entries' sizes, because \<open>Clear\<close> empties the list
  and leaves the counter: the difference is \<open>lru_stale\<close>. The cache is an instance of
  \<open>lru_store\<close> whose budget is what the stale bytes leave of the capacity.
\<close>

section \<open>Data\<close>

type_synonym iter = nat

record lru_node =
  node_key :: string
  node_value :: svmap

record lru_cache =
  lc_cache :: "string \<rightharpoonup> iter"
  lc_nodeList :: "(iter \<times> lru_node) list"
  lc_capacity :: nat
  lc_size :: nat
  next_iter :: iter  \<comment> \<open>address of the next list node the allocator hands out\<close>

section \<open>Operations\<close>

fun GetMapValueSize_loop :: "svmap \<Rightarrow> nat \<Rightarrow> nat" where
  "GetMapValueSize_loop [] sz =
     (if sz > MAX_SIZE \<or> sz = 0 then INVALID_SIZE else sz)"
| "GetMapValueSize_loop (p # m) sz =
     (if length (snd p) > MAX_SIZE then INVALID_SIZE
      else if sz + length (snd p) > MAX_SIZE then INVALID_SIZE
      else GetMapValueSize_loop m (sz + length (snd p)))"

definition GetMapValueSize :: "svmap \<Rightarrow> nat" where
  "GetMapValueSize m = GetMapValueSize_loop m 0"

definition LRUCache_new :: "nat \<Rightarrow> lru_cache" where
  "LRUCache_new capacity =
     \<lparr>lc_cache = Map.empty, lc_nodeList = [], lc_capacity = min MAX_SIZE capacity, lc_size = 0, next_iter = 0\<rparr>"

definition LRUCache_default :: lru_cache where
  "LRUCache_default =
     \<lparr>lc_cache = Map.empty, lc_nodeList = [], lc_capacity = MAX_SIZE, lc_size = 0, next_iter = 0\<rparr>"

definition emplace_front :: "lru_cache \<Rightarrow> lru_node \<Rightarrow> lru_cache" where
  "emplace_front c node =
     c\<lparr>lc_nodeList := (next_iter c, node) # lc_nodeList c,
       lc_cache := (lc_cache c)(node_key node \<mapsto> next_iter c),
       next_iter := Suc (next_iter c)\<rparr>"

definition AddNode :: "lru_cache \<Rightarrow> lru_node \<Rightarrow> lru_cache" where
  "AddNode c node =
     (let c1 = emplace_front c node
      in c1\<lparr>lc_size := size_add (lc_size c1) (GetMapValueSize (node_value node))\<rparr>)"

definition MoveNodeToHead :: "lru_cache \<Rightarrow> iter \<Rightarrow> lru_cache option" where
  "MoveNodeToHead c it =
     (case map_of (lc_nodeList c) it of
        None \<Rightarrow> None
      | Some node \<Rightarrow>
          let c1 = c\<lparr>lc_nodeList := filter (\<lambda>p. fst p \<noteq> it) (lc_nodeList c)\<rparr>
          in Some (emplace_front c1 \<lparr>node_key = node_key node, node_value = node_value node\<rparr>))"

definition EraseTailNode :: "lru_cache \<Rightarrow> lru_cache" where
  "EraseTailNode c =
     (if lc_nodeList c = [] then c
      else let node = snd (last (lc_nodeList c))
           in c\<lparr>lc_nodeList := butlast (lc_nodeList c),
                lc_cache := (lc_cache c)(node_key node := None),
                lc_size := size_sub (lc_size c) (GetMapValueSize (node_value node))\<rparr>)"

text \<open>\<open>while (size_ > capacity_) EraseTailNode();\<close>\<close>

partial_function (option) evict :: "lru_cache \<Rightarrow> lru_cache option" where
  "evict c = (if lc_capacity c < lc_size c then evict (EraseTailNode c) else Some c)"

definition LRUCache_Get :: "lru_cache \<Rightarrow> string \<Rightarrow> (lru_cache \<times> svmap) option" where
  "LRUCache_Get c key =
     (case lc_cache c key of
        None \<Rightarrow> Some (c, [])
      | Some it \<Rightarrow>
          (case map_of (lc_nodeList c) it of
             None \<Rightarrow> None
           | Some node \<Rightarrow>
               (case MoveNodeToHead c it of
                  None \<Rightarrow> None
                | Some c' \<Rightarrow> Some (c', node_value node))))"

text \<open>\<open>it->value = value\<close>\<close>

definition set_value :: "(iter \<times> lru_node) list \<Rightarrow> iter \<Rightarrow> svmap \<Rightarrow> (iter \<times> lru_node) list" where
  "set_value ns it value = map (\<lambda>(i, n). (i, if i = it then n\<lparr>node_value := value\<rparr> else n)) ns"

definition LRUCache_Put :: "lru_cache \<Rightarrow> string \<Rightarrow> svmap \<Rightarrow> lru_cache option" where
  "LRUCache_Put c key value =
     (if GetMapValueSize value = INVALID_SIZE then Some c
      else case lc_cache c key of
        None \<Rightarrow> evict (AddNode c \<lparr>node_key = key, node_value = value\<rparr>)
      | Some it \<Rightarrow>
          (case map_of (lc_nodeList c) it of
             None \<Rightarrow> None
           | Some node \<Rightarrow>
               let c1 = c\<lparr>lc_size := size_sub (lc_size c) (GetMapValueSize (node_value node))\<rparr>;
                   c2 = c1\<lparr>lc_nodeList := set_value (lc_nodeList c1) it value\<rparr>;
                   c3 = c2\<lparr>lc_size := size_add (lc_size c2) (GetMapValueSize value)\<rparr>
               in case MoveNodeToHead c3 it of None \<Rightarrow> None | Some c4 \<Rightarrow> evict c4))"

fun Put_nodes :: "lru_cache \<Rightarrow> lru_node list \<Rightarrow> lru_cache option" where
  "Put_nodes c [] = Some c"
| "Put_nodes c (n # ns) =
     (case LRUCache_Put c (node_key n) (node_value n) of None \<Rightarrow> None | Some c' \<Rightarrow> Put_nodes c' ns)"

definition LRUCache_MergeOtherCache :: "lru_cache \<Rightarrow> lru_cache \<Rightarrow> lru_cache option" where
  "LRUCache_MergeOtherCache c other =
     (if lc_nodeList other = [] then Some c
      else Put_nodes c (rev (map snd (lc_nodeList other))))"

definition LRUCache_Clear :: "lru_cache \<Rightarrow> lru_cache" where
  "LRUCache_Clear c = c\<lparr>lc_cache := Map.empty, lc_nodeList := []\<rparr>"

section \<open>The size of a value\<close>

lemma GetMapValueSize_loop_eq:
  "sz \<le> MAX_SIZE \<Longrightarrow> GetMapValueSize_loop m sz =
     (if sz + map_bytes m = 0 \<or> MAX_SIZE < sz + map_bytes m then INVALID_SIZE
      else sz + map_bytes m)"
  by (induction m sz rule: GetMapValueSize_loop.induct) auto

lemma GetMapValueSize_eq:
  "GetMapValueSize m = (if valid_value m then map_bytes m else INVALID_SIZE)"
  by (auto simp: GetMapValueSize_def GetMapValueSize_loop_eq valid_value_def)

lemma GetMapValueSize_INVALID [simp]: "GetMapValueSize m = INVALID_SIZE \<longleftrightarrow> \<not> valid_value m"
  by (auto simp: GetMapValueSize_eq valid_value_def INVALID_SIZE_def SIZE_MAX_def MAX_SIZE_def)

section \<open>Invariant and abstraction\<close>

definition lru_entries :: "lru_cache \<Rightarrow> entry list" where
  "lru_entries c = map (\<lambda>p. (node_key (snd p), node_value (snd p))) (lc_nodeList c)"

definition key_index :: "(iter \<times> lru_node) list \<Rightarrow> string \<rightharpoonup> iter" where
  "key_index ns = map_of (map (\<lambda>p. (node_key (snd p), fst p)) ns)"

definition lru_wf :: "lru_cache \<Rightarrow> bool" where
  "lru_wf c \<longleftrightarrow>
     distinct (map fst (lc_nodeList c)) \<and> (\<forall>p \<in> set (lc_nodeList c). fst p < next_iter c) \<and>
     distinct (map (\<lambda>p. node_key (snd p)) (lc_nodeList c)) \<and>
     lc_cache c = key_index (lc_nodeList c) \<and>
     (\<forall>p \<in> set (lc_nodeList c). valid_value (node_value (snd p)))"

definition lru_stale :: "lru_cache \<Rightarrow> nat" where
  "lru_stale c = lc_size c - total_bytes (lru_entries c)"

definition lru_inv :: "lru_cache \<Rightarrow> bool" where
  "lru_inv c \<longleftrightarrow> lru_wf c \<and> total_bytes (lru_entries c) \<le> lc_size c \<and>
     lc_size c \<le> lc_capacity c \<and> lc_capacity c \<le> MAX_SIZE"

definition lru_room :: "lru_cache \<Rightarrow> nat" where
  "lru_room c = lc_capacity c - lru_stale c"

lemma lru_entries_simps [simp]:
  "lru_entries (c\<lparr>lc_size := n\<rparr>) = lru_entries c"
  "lru_entries (c\<lparr>lc_cache := m\<rparr>) = lru_entries c"
  "lru_entries (c\<lparr>next_iter := i\<rparr>) = lru_entries c"
  by (simp_all add: lru_entries_def)

lemma key_index_simps [simp]:
  "key_index [] = Map.empty"
  "key_index (p # ns) = (key_index ns)(node_key (snd p) \<mapsto> fst p)"
  by (simp_all add: key_index_def)

lemma lru_node_eta [simp]: "\<lparr>node_key = node_key n, node_value = node_value n\<rparr> = n"
  by simp

text \<open>Facts about the list of nodes that the operations rest on.\<close>

lemma key_index_Some:
  "distinct (map fst ns) \<Longrightarrow> key_index ns k = Some it \<Longrightarrow>
     \<exists>n. map_of ns it = Some n \<and> node_key n = k \<and> (it, n) \<in> set ns"
  by (induction ns) (force split: if_splits)+

lemma key_index_None: "key_index ns k = None \<longleftrightarrow> k \<notin> (\<lambda>p. node_key (snd p)) ` set ns"
  by (induction ns) auto

lemma key_index_snoc:
  "key_index (ns @ [p]) k =
     (case key_index ns k of
        None \<Rightarrow> if k = node_key (snd p) then Some (fst p) else None
      | Some it \<Rightarrow> Some it)"
  by (induction ns) auto

lemma key_index_filter:
  "key_index (filter (\<lambda>p. node_key (snd p) \<noteq> k) ns) = (key_index ns)(k := None)"
  by (induction ns) auto

lemma filter_iter_eq_filter_key:
  assumes "distinct (map fst ns)" and "distinct (map (\<lambda>p. node_key (snd p)) ns)"
    and "(it, n) \<in> set ns"
  shows "filter (\<lambda>p. fst p \<noteq> it) ns = filter (\<lambda>p. node_key (snd p) \<noteq> node_key n) ns"
proof (rule filter_cong)
  fix p assume p: "p \<in> set ns"
  have "inj_on fst (set ns)" and "inj_on (\<lambda>p. node_key (snd p)) (set ns)"
    using assms(1,2) by (simp_all add: distinct_map)
  then show "(fst p \<noteq> it) = (node_key (snd p) \<noteq> node_key n)"
    using p assms(3) inj_onD [of fst "set ns" p "(it, n)"]
      inj_onD [of "\<lambda>p. node_key (snd p)" "set ns" p "(it, n)"] by force
qed simp

lemma map_of_lru_entries:
  assumes "lru_wf c" and "(it, n) \<in> set (lc_nodeList c)"
  shows "map_of (lru_entries c) (node_key n) = Some (node_value n)"
proof (rule map_of_is_SomeI)
  show "distinct (map fst (lru_entries c))"
    using assms(1) by (simp add: lru_wf_def lru_entries_def comp_def)
  show "(node_key n, node_value n) \<in> set (lru_entries c)"
    using assms(2) by (force simp: lru_entries_def)
qed

lemma distinct_lru_entries: "lru_wf c \<Longrightarrow> distinct (map fst (lru_entries c))"
  by (simp add: lru_wf_def lru_entries_def comp_def)

lemma lru_entries_filter_key:
  "map (\<lambda>p. (node_key (snd p), node_value (snd p))) (filter (\<lambda>p. node_key (snd p) \<noteq> k) ns) =
     without k (map (\<lambda>p. (node_key (snd p), node_value (snd p))) ns)"
  by (induction ns) auto

lemma lru_wf_cache_None: "lru_wf c \<Longrightarrow> lc_cache c k = None \<longleftrightarrow> map_of (lru_entries c) k = None"
  by (auto simp: lru_wf_def key_index_None lru_entries_def map_of_eq_None_iff image_image)

section \<open>Each step keeps the structure\<close>

lemma emplace_front_fresh:
  assumes "lru_wf c" and "map_of (lru_entries c) (node_key n) = None"
    and "valid_value (node_value n)"
  shows "lru_wf (emplace_front c n)"
    and "lru_entries (emplace_front c n) = (node_key n, node_value n) # lru_entries c"
    and "lc_size (emplace_front c n) = lc_size c" and "lc_capacity (emplace_front c n) = lc_capacity c"
proof -
  have "node_key n \<notin> (\<lambda>p. node_key (snd p)) ` set (lc_nodeList c)"
    using assms(2) by (simp add: lru_entries_def map_of_eq_None_iff image_image)
  then show "lru_wf (emplace_front c n)"
    using assms(1,3) by (auto simp: lru_wf_def emplace_front_def)
qed (simp_all add: emplace_front_def lru_entries_def)

lemma MoveNodeToHead_ok:
  assumes "lru_wf c" and "(it, n) \<in> set (lc_nodeList c)"
  shows "\<exists>c'. MoveNodeToHead c it = Some c' \<and> lru_wf c' \<and> lc_size c' = lc_size c \<and>
    lc_capacity c' = lc_capacity c \<and> lru_entries c' = touch (node_key n) (lru_entries c)"
proof -
  define c1 where "c1 = c\<lparr>lc_nodeList := filter (\<lambda>p. fst p \<noteq> it) (lc_nodeList c)\<rparr>"
  have fi: "filter (\<lambda>p. fst p \<noteq> it) (lc_nodeList c) =
      filter (\<lambda>p. node_key (snd p) \<noteq> node_key n) (lc_nodeList c)"
    using assms by (intro filter_iter_eq_filter_key) (auto simp: lru_wf_def)
  have look: "map_of (lc_nodeList c) it = Some n"
    using assms by (simp add: lru_wf_def)
  have e1: "lru_entries c1 = without (node_key n) (lru_entries c)"
    by (simp add: c1_def lru_entries_def fi lru_entries_filter_key)
  define c2 where "c2 = c1\<lparr>lc_cache := (lc_cache c)(node_key n := None)\<rparr>"
  have "lru_wf c2"
    using assms(1) by (auto simp: lru_wf_def c2_def c1_def fi key_index_filter distinct_map_filter)
  moreover have "emplace_front c1 n = emplace_front c2 n"
    by (simp add: emplace_front_def c1_def c2_def)
  moreover have "lru_entries c2 = without (node_key n) (lru_entries c)"
    using e1 by (simp add: c2_def)
  moreover have "valid_value (node_value n)"
    using assms by (auto simp: lru_wf_def)
  ultimately have "lru_wf (emplace_front c1 n)" and
    "lru_entries (emplace_front c1 n) = touch (node_key n) (lru_entries c)"
    and "lc_size (emplace_front c1 n) = lc_size c" and "lc_capacity (emplace_front c1 n) = lc_capacity c"
    using emplace_front_fresh [of c2 n] map_of_lru_entries [OF assms]
    by (simp_all add: touch_def c2_def c1_def)
  then show ?thesis
    using look by (simp add: MoveNodeToHead_def c1_def)
qed

text \<open>
  Eviction: with the counter above the entries by a stale amount that is itself within the
  capacity, the loop ends and leaves the longest list of most recently used entries that fits.
\<close>

lemma EraseTailNode_snoc:
  assumes "lru_wf c" and "lc_nodeList c = ns @ [p]"
    and "lc_size c = stale + total_bytes (lru_entries c)" and "lc_size c < 2 ^ 64"
  shows "lru_wf (EraseTailNode c)" and "lc_nodeList (EraseTailNode c) = ns"
    and "lc_size (EraseTailNode c) = stale + total_bytes (lru_entries (EraseTailNode c))"
    and "lc_capacity (EraseTailNode c) = lc_capacity c"
    and "lc_size (EraseTailNode c) \<le> lc_size c"
proof -
  let ?v = "node_value (snd p)"
  have v: "GetMapValueSize ?v = map_bytes ?v"
    using assms(1,2) by (simp add: lru_wf_def GetMapValueSize_eq)
  have t: "total_bytes (lru_entries c) =
      total_bytes (map (\<lambda>p. (node_key (snd p), node_value (snd p))) ns) + map_bytes ?v"
    by (simp add: lru_entries_def assms(2))
  then have s: "size_sub (lc_size c) (GetMapValueSize ?v) =
      stale + total_bytes (map (\<lambda>p. (node_key (snd p), node_value (snd p))) ns)"
    using assms(3,4) v by simp
  have k: "(key_index (ns @ [p]))(node_key (snd p) := None) = key_index ns"
    if "node_key (snd p) \<notin> (\<lambda>p. node_key (snd p)) ` set ns"
    using that by (auto simp: fun_eq_iff key_index_snoc key_index_None [symmetric] split: option.split)
  show "lru_wf (EraseTailNode c)"
    using assms(1,2) k by (auto simp: lru_wf_def EraseTailNode_def)
  show "lc_nodeList (EraseTailNode c) = ns" and "lc_capacity (EraseTailNode c) = lc_capacity c"
    using assms(2) by (simp_all add: EraseTailNode_def)
  show "lc_size (EraseTailNode c) = stale + total_bytes (lru_entries (EraseTailNode c))"
    using s assms(2) by (simp add: EraseTailNode_def lru_entries_def)
  show "lc_size (EraseTailNode c) \<le> lc_size c"
    using s t assms(2,3) by (simp add: EraseTailNode_def)
qed

lemma evict_ok:
  assumes "lru_wf c" and "lc_size c = stale + total_bytes (lru_entries c)"
    and "lc_size c < 2 ^ 64" and "stale \<le> lc_capacity c"
  shows "\<exists>c'. evict c = Some c' \<and> lru_wf c' \<and> lc_capacity c' = lc_capacity c \<and>
    lc_size c' \<le> lc_capacity c \<and> lc_size c' = stale + total_bytes (lru_entries c') \<and>
    lru_entries c' = keep (lc_capacity c - stale) (lru_entries c)"
  using assms
proof (induction "lc_nodeList c" arbitrary: c rule: rev_induct)
  case Nil
  then show ?case
    by (simp add: evict.simps [of c] lru_entries_def)
next
  case (snoc p ns)
  show ?case
  proof (cases "lc_capacity c < lc_size c")
    case False
    then show ?thesis
      using snoc.prems by (simp add: evict.simps [of c])
  next
    case True
    note e = EraseTailNode_snoc [OF snoc.prems(1) snoc.hyps(2) [symmetric] snoc.prems(2,3)]
    have "lru_entries c = lru_entries (EraseTailNode c) @ [(node_key (snd p), node_value (snd p))]"
      using e(2) by (simp add: lru_entries_def snoc.hyps(2) [symmetric])
    then have "keep (lc_capacity c - stale) (lru_entries c) =
        keep (lc_capacity c - stale) (lru_entries (EraseTailNode c))"
      using True snoc.prems(2) keep_snoc by (metis less_diff_conv2 linorder_not_less
          snoc.prems(4) add.commute)
    then show ?thesis
      using snoc.hyps(1) [of "EraseTailNode c"] e snoc.prems(3,4) True
      by (simp add: evict.simps [of c])
  qed
qed

section \<open>The public operations\<close>

lemma lru_inv_new [simp]: "lru_inv (LRUCache_new n)"
  by (simp add: lru_inv_def LRUCache_new_def lru_wf_def lru_entries_def)

lemma lru_inv_default [simp]: "lru_inv LRUCache_default"
  by (simp add: lru_inv_def LRUCache_default_def lru_wf_def lru_entries_def)

lemma LRUCache_Get_ok:
  assumes "lru_inv c"
  shows "\<exists>c'. LRUCache_Get c k = Some (c', lookup_or_empty (lru_entries c) k) \<and> lru_inv c' \<and>
    lru_entries c' = touch k (lru_entries c) \<and> lru_room c' = lru_room c \<and>
    lru_stale c' = lru_stale c"
proof (cases "lc_cache c k")
  case None
  then have "map_of (lru_entries c) k = None"
    using assms lru_wf_cache_None by (auto simp: lru_inv_def)
  then show ?thesis
    using None assms by (simp add: LRUCache_Get_def lookup_or_empty_def touch_def)
next
  case (Some it)
  have wf: "lru_wf c" using assms by (simp add: lru_inv_def)
  then obtain n where n: "map_of (lc_nodeList c) it = Some n" "node_key n = k"
    "(it, n) \<in> set (lc_nodeList c)"
    using Some key_index_Some [of "lc_nodeList c" k it] by (auto simp: lru_wf_def)
  obtain c' where c': "MoveNodeToHead c it = Some c'" "lru_wf c'" "lc_size c' = lc_size c"
    "lc_capacity c' = lc_capacity c" "lru_entries c' = touch k (lru_entries c)"
    using MoveNodeToHead_ok [OF wf n(3)] n(2) by auto
  have "lookup_or_empty (lru_entries c) k = node_value n"
    using map_of_lru_entries [OF wf n(3)] n(2) by (simp add: lookup_or_empty_def)
  then show ?thesis
    using Some n c' assms distinct_lru_entries [OF wf]
    by (simp add: LRUCache_Get_def lru_inv_def lru_room_def lru_stale_def)
qed

lemma evict_room:
  assumes "lru_wf c" and "lc_size c = stale + total_bytes (lru_entries c)"
    and "lc_size c < 2 ^ 64" and "stale \<le> lc_capacity c" and "lc_capacity c \<le> MAX_SIZE"
  shows "\<exists>c'. evict c = Some c' \<and> lru_inv c' \<and> lru_room c' = lc_capacity c - stale \<and>
    lru_entries c' = keep (lc_capacity c - stale) (lru_entries c) \<and> lru_stale c' = stale"
proof -
  obtain c' where "evict c = Some c'" "lru_wf c'" "lc_capacity c' = lc_capacity c"
    "lc_size c' \<le> lc_capacity c" "lc_size c' = stale + total_bytes (lru_entries c')"
    "lru_entries c' = keep (lc_capacity c - stale) (lru_entries c)"
    using evict_ok [OF assms(1-4)] by blast
  then show ?thesis
    using assms(5) by (auto simp: lru_inv_def lru_room_def lru_stale_def)
qed

lemma lru_inv_size:
  assumes "lru_inv c"
  shows "lc_size c = lru_stale c + total_bytes (lru_entries c)" and "lru_stale c \<le> lc_capacity c"
    and "lc_size c \<le> MAX_SIZE"
  using assms by (auto simp: lru_inv_def lru_stale_def)

text \<open>The state of \<open>Put\<close> when it reaches the eviction loop, for a new key and for a known one.\<close>

definition evictable :: "lru_cache \<Rightarrow> entry list \<Rightarrow> lru_cache \<Rightarrow> bool" where
  "evictable c es c' \<longleftrightarrow> lru_wf c' \<and> lru_entries c' = es \<and> lc_capacity c' = lc_capacity c \<and>
     lc_size c' = lru_stale c + total_bytes es \<and> lc_size c' < 2 ^ 64"

lemma AddNode_evictable:
  assumes "lru_inv c" and "valid_value v" and "lc_cache c k = None"
  shows "evictable c ((k, v) # without k (lru_entries c)) (AddNode c \<lparr>node_key = k, node_value = v\<rparr>)"
proof -
  let ?n = "\<lparr>node_key = k, node_value = v\<rparr>"
  have wf: "lru_wf c" using assms(1) by (simp add: lru_inv_def)
  have fresh: "map_of (lru_entries c) k = None"
    using assms(3) wf lru_wf_cache_None by simp
  have "MAX_SIZE + MAX_SIZE < 2 ^ 64"
    by (simp add: MAX_SIZE_def)
  then have "size_add (lc_size c) (GetMapValueSize v) = lc_size c + map_bytes v"
    and small: "lc_size c + map_bytes v < 2 ^ 64"
    using lru_inv_size [OF assms(1)] assms(2) by (simp_all add: GetMapValueSize_eq valid_value_def)
  then have "lc_size (AddNode c ?n) = lru_stale c + (map_bytes v + total_bytes (lru_entries c))"
    using lru_inv_size [OF assms(1)] by (simp add: AddNode_def emplace_front_def)
  moreover have "lru_wf (AddNode c ?n)"
    using emplace_front_fresh(1) [OF wf, of ?n] fresh assms(2)
    by (simp add: AddNode_def lru_wf_def)
  moreover have "without k (lru_entries c) = lru_entries c"
    using fresh by (simp add: map_of_eq_None_iff)
  ultimately show ?thesis
    using small lru_inv_size [OF assms(1)]
    by (simp add: evictable_def) (simp add: AddNode_def emplace_front_def lru_entries_def)
qed

lemma set_value_props:
  "map (\<lambda>p. node_key (snd p)) (set_value ns it v) = map (\<lambda>p. node_key (snd p)) ns"
  "key_index (set_value ns it v) = key_index ns"
  "map fst (set_value ns it v) = map fst ns"
  by (induction ns) (auto simp: set_value_def)

lemma set_value_ok:
  assumes "lru_wf c" and "(it, n) \<in> set (lc_nodeList c)" and "valid_value v"
  shows "lru_wf (c\<lparr>lc_nodeList := set_value (lc_nodeList c) it v, lc_size := s\<rparr>)"
    and "lru_entries (c\<lparr>lc_nodeList := set_value (lc_nodeList c) it v, lc_size := s\<rparr>) =
      assign (node_key n) v (lru_entries c)"
    and "(it, n\<lparr>node_value := v\<rparr>) \<in> set (set_value (lc_nodeList c) it v)"
proof -
  have "\<forall>p \<in> set (set_value (lc_nodeList c) it v).
      fst p < next_iter c \<and> valid_value (node_value (snd p))"
    using assms(1,3) by (auto simp: lru_wf_def set_value_def)
  then show "lru_wf (c\<lparr>lc_nodeList := set_value (lc_nodeList c) it v, lc_size := s\<rparr>)"
    using assms(1) by (simp add: lru_wf_def set_value_props)
  have "inj_on fst (set (lc_nodeList c))"
    and "inj_on (\<lambda>p. node_key (snd p)) (set (lc_nodeList c))"
    using assms(1) by (simp_all add: lru_wf_def distinct_map)
  then have "fst p = it \<longleftrightarrow> node_key (snd p) = node_key n" if "p \<in> set (lc_nodeList c)" for p
    using that assms(2) inj_onD [of fst "set (lc_nodeList c)" p "(it, n)"]
      inj_onD [of "\<lambda>p. node_key (snd p)" "set (lc_nodeList c)" p "(it, n)"] by force
  then show "lru_entries (c\<lparr>lc_nodeList := set_value (lc_nodeList c) it v, lc_size := s\<rparr>) =
      assign (node_key n) v (lru_entries c)"
    by (auto simp: lru_entries_def set_value_def assign_def split_beta)
  show "(it, n\<lparr>node_value := v\<rparr>) \<in> set (set_value (lc_nodeList c) it v)"
    using assms(2) by (force simp: set_value_def image_iff)
qed

text \<open>\<open>sub\<close> is how the counter is decreased by the size of the old value.\<close>

definition replaced :: "lru_cache \<Rightarrow> (nat \<Rightarrow> nat \<Rightarrow> nat) \<Rightarrow> iter \<Rightarrow> lru_node \<Rightarrow> svmap \<Rightarrow> lru_cache" where
  "replaced c sub it n v =
     c\<lparr>lc_nodeList := set_value (lc_nodeList c) it v,
       lc_size := size_add (sub (lc_size c) (GetMapValueSize (node_value n))) (GetMapValueSize v)\<rparr>"

lemma cache_hit_node:
  assumes "lru_inv c" and "lc_cache c k = Some it"
  shows "\<exists>n. map_of (lc_nodeList c) it = Some n \<and> node_key n = k \<and> (it, n) \<in> set (lc_nodeList c)"
  using assms key_index_Some [of "lc_nodeList c" k it] by (auto simp: lru_inv_def lru_wf_def)

lemma replaced_evictable:
  assumes "lru_inv c" and "valid_value v" and n: "(it, n) \<in> set (lc_nodeList c)" "node_key n = k"
    and sub: "\<And>a b. b \<le> a \<Longrightarrow> a < 2 ^ 64 \<Longrightarrow> sub a b = a - b"
  shows "\<exists>c'. MoveNodeToHead (replaced c sub it n v) it = Some c' \<and>
    evictable c ((k, v) # without k (lru_entries c)) c'"
proof -
  have wf: "lru_wf c" using assms(1) by (simp add: lru_inv_def)
  have old: "map_of (lru_entries c) k = Some (node_value n)"
    using map_of_lru_entries [OF wf n(1)] n(2) by simp
  have ov: "GetMapValueSize (node_value n) = map_bytes (node_value n)"
    using wf n(1) by (auto simp: lru_wf_def GetMapValueSize_eq)
  have tot: "total_bytes (lru_entries c) = map_bytes (node_value n) + total_bytes (without k (lru_entries c))"
    using total_bytes_without distinct_lru_entries [OF wf] old by blast
  have "MAX_SIZE + MAX_SIZE < 2 ^ 64"
    by (simp add: MAX_SIZE_def)
  then have s: "size_add (sub (lc_size c) (GetMapValueSize (node_value n))) (GetMapValueSize v) =
      lru_stale c + (map_bytes v + total_bytes (without k (lru_entries c)))"
    and small: "lru_stale c + (map_bytes v + total_bytes (without k (lru_entries c))) < 2 ^ 64"
    using lru_inv_size [OF assms(1)] assms(2) ov tot
    by (simp_all add: sub GetMapValueSize_eq valid_value_def)
  have r: "lru_wf (replaced c sub it n v)"
    "lru_entries (replaced c sub it n v) = assign k v (lru_entries c)"
    "(it, n\<lparr>node_value := v\<rparr>) \<in> set (lc_nodeList (replaced c sub it n v))"
    using set_value_ok [OF wf n(1) assms(2)] n(2) by (simp_all add: replaced_def)
  show ?thesis
    using MoveNodeToHead_ok [OF r(1,3)] n(2) r(2) touch_assign [OF old] s small
    by (auto simp: replaced_def evictable_def)
qed

lemma evictable_evict:
  assumes "lru_inv c" and "evictable c es c1"
  shows "\<exists>c'. evict c1 = Some c' \<and> lru_inv c' \<and> lru_room c' = lru_room c \<and>
    lru_entries c' = keep (lru_room c) es \<and> lru_stale c' = lru_stale c"
proof -
  have "lc_capacity c \<le> MAX_SIZE"
    using assms(1) by (simp add: lru_inv_def)
  then show ?thesis
    using evict_room [of c1 "lru_stale c"] assms(2) lru_inv_size(2) [OF assms(1)]
    by (simp add: evictable_def lru_room_def)
qed

lemma LRUCache_Put_eq:
  assumes "lru_inv c" and "valid_value v"
  shows "\<exists>c1. LRUCache_Put c k v = evict c1 \<and> evictable c ((k, v) # without k (lru_entries c)) c1"
proof (cases "lc_cache c k")
  case None
  then show ?thesis
    using AddNode_evictable assms by (auto simp: LRUCache_Put_def)
next
  case (Some it)
  then obtain n where "map_of (lc_nodeList c) it = Some n" "node_key n = k"
    "(it, n) \<in> set (lc_nodeList c)"
    using cache_hit_node [OF assms(1)] by blast
  then show ?thesis
    using replaced_evictable [OF assms, of it n k size_sub] Some assms(2)
    by (auto simp: LRUCache_Put_def replaced_def)
qed

lemma LRUCache_Put_ok:
  assumes "lru_inv c"
  shows "\<exists>c'. LRUCache_Put c k v = Some c' \<and> lru_inv c' \<and>
    lru_entries c' = store (lru_room c) k v (lru_entries c) \<and> lru_room c' = lru_room c \<and>
    lru_stale c' = lru_stale c"
proof (cases "valid_value v")
  case True
  then show ?thesis
    using LRUCache_Put_eq [OF assms True, of k] evictable_evict [OF assms]
    by (fastforce simp: store_def simp del: keep.simps)
next
  case False
  then show ?thesis
    using assms by (simp add: LRUCache_Put_def store_def)
qed

interpretation lru: lru_store lru_inv lru_entries lru_room LRUCache_Get LRUCache_Put
proof (unfold_locales, goal_cases)
  case (1 c)
  then have "lru_wf c" by (simp add: lru_inv_def)
  moreover have "total_bytes (lru_entries c) \<le> lru_room c"
    using 1 by (auto simp: lru_inv_def lru_room_def lru_stale_def)
  ultimately show ?case
    by (auto simp: lru_wf_def lru_entries_def comp_def)
next
  case (2 c k)
  then show ?case using LRUCache_Get_ok by blast
next
  case (3 c k v)
  then show ?case using LRUCache_Put_ok by blast
qed

lemma Put_nodes_eq:
  "Put_nodes c ns = lru.put_all c (map (\<lambda>n. (node_key n, node_value n)) ns)"
  by (induction ns arbitrary: c) (auto split: option.splits)

lemma rev_lru_entries:
  "map (\<lambda>n. (node_key n, node_value n)) (rev (map snd (lc_nodeList d))) = rev (lru_entries d)"
  by (simp add: lru_entries_def rev_map comp_def)

lemma LRUCache_MergeOtherCache_eq:
  "LRUCache_MergeOtherCache c d = lru.put_all c (rev (lru_entries d))"
  by (auto simp: LRUCache_MergeOtherCache_def Put_nodes_eq rev_lru_entries) (simp add: lru_entries_def)

lemma lru_inv_Clear:
  assumes "lru_inv c"
  shows "lru_inv (LRUCache_Clear c)" and "lru_entries (LRUCache_Clear c) = []"
    and "lru_stale (LRUCache_Clear c) = lc_size c"
    and "lru_room (LRUCache_Clear c) = lc_capacity c - lc_size c"
  using assms by (simp_all add: LRUCache_Clear_def lru_inv_def lru_wf_def lru_entries_def
      lru_stale_def lru_room_def)

section \<open>Reachable caches\<close>

inductive lru_reach :: "nat \<Rightarrow> lru_cache \<Rightarrow> bool" where
  reach_new: "lru_reach n (LRUCache_new n)"
| reach_get: "lru_reach n c \<Longrightarrow> LRUCache_Get c k = Some (c', v) \<Longrightarrow> lru_reach n c'"
| reach_put: "lru_reach n c \<Longrightarrow> LRUCache_Put c k v = Some c' \<Longrightarrow> lru_reach n c'"
| reach_merge: "lru_reach n c \<Longrightarrow> lru_reach m d \<Longrightarrow> LRUCache_MergeOtherCache c d = Some c' \<Longrightarrow>
    lru_reach n c'"
| reach_clear: "lru_reach n c \<Longrightarrow> lru_reach n (LRUCache_Clear c)"

lemma LRUCache_Put_capacity:
  "lru_inv c \<Longrightarrow> LRUCache_Put c k v = Some c' \<Longrightarrow> lc_capacity c' = lc_capacity c"
  using LRUCache_Put_ok [of c k v] lru_inv_size(2) [of c] lru_inv_size(2) [of c']
  by (auto simp: lru_room_def)

lemma put_all_capacity:
  "lru_inv c \<Longrightarrow> lru.put_all c es = Some c' \<Longrightarrow> lc_capacity c' = lc_capacity c"
proof (induction es arbitrary: c)
  case (Cons e es)
  obtain c1 where c1: "LRUCache_Put c (fst e) (snd e) = Some c1" "lru_inv c1"
    using LRUCache_Put_ok [OF Cons.prems(1)] by blast
  then show ?case
    using Cons.IH [OF c1(2)] Cons.prems LRUCache_Put_capacity [OF Cons.prems(1) c1(1)] by simp
qed simp

lemma LRUCache_Get_capacity:
  "lru_inv c \<Longrightarrow> LRUCache_Get c k = Some (c', v) \<Longrightarrow> lc_capacity c' = lc_capacity c"
  using LRUCache_Get_ok [of c k] lru_inv_size(2) [of c] lru_inv_size(2) [of c']
  by (auto simp: lru_room_def)

lemma lru_reach_inv: "lru_reach n c \<Longrightarrow> lru_inv c \<and> lc_capacity c = min MAX_SIZE n"
proof (induction rule: lru_reach.induct)
  case (reach_new n)
  then show ?case by simp (simp add: LRUCache_new_def)
next
  case (reach_get n c k c' v)
  then show ?case
    using LRUCache_Get_ok [of c k] LRUCache_Get_capacity [of c k c' v] by auto
next
  case (reach_put n c k v c')
  then show ?case
    using LRUCache_Put_ok [of c k v] LRUCache_Put_capacity [of c k v c'] by auto
next
  case (reach_merge n c m d c')
  then show ?case
    using lru.put_all_spec [of c "rev (lru_entries d)"] put_all_capacity [of c "rev (lru_entries d)" c']
    by (auto simp: LRUCache_MergeOtherCache_eq)
next
  case (reach_clear n c)
  then show ?case
    using lru_inv_Clear(1) by (auto simp: LRUCache_Clear_def)
qed

lemma reach_new_empty: "lru_entries (LRUCache_new n) = []" "lru_room (LRUCache_new n) = min MAX_SIZE n"
  by (simp_all add: LRUCache_new_def lru_entries_def lru_room_def lru_stale_def)

section \<open>Properties\<close>

text \<open>
  C6. In every reachable cache \<open>Put\<close> returns: its eviction loop ends and every iterator it follows
  is in the list. Its effect is that of the abstract store: an invalid value changes nothing; a
  valid one becomes the most recent entry and the entries that no longer fit, least recent
  first, are evicted; the byte counter never exceeds the capacity.
\<close>

theorem lru_put_refines:
  assumes "lru_reach n c"
  shows "\<exists>c'. LRUCache_Put c k v = Some c' \<and> lru_reach n c' \<and>
    lru_entries c' = store (lru_room c) k v (lru_entries c) \<and> lru_room c' = lru_room c \<and>
    lc_size c' \<le> lc_capacity c'"
proof -
  have "lru_inv c" using lru_reach_inv [OF assms] by simp
  then obtain c' where c': "LRUCache_Put c k v = Some c'" "lru_inv c'" "lru_room c' = lru_room c"
    "lru_entries c' = store (lru_room c) k v (lru_entries c)"
    using LRUCache_Put_ok by blast
  moreover have "lru_reach n c'"
    using assms c'(1) by (rule reach_put)
  ultimately show ?thesis
    by (auto simp: lru_inv_def)
qed

theorem lru_put_refines_witness:
  "\<exists>c'. LRUCache_Put (LRUCache_new 10) ''k'' [(''a'', ''xyz'')] = Some c' \<and>
     lru_entries c' = [(''k'', [(''a'', ''xyz'')])]"
  using lru_put_refines [OF reach_new, of 10 "''k''" "[(''a'', ''xyz'')]"]
  by (auto simp: reach_new_empty store_def valid_value_def MAX_SIZE_def)

text \<open>
  In every reachable cache \<open>Get\<close> returns the value stored for the key, or the empty map
  without one; it moves the entry to the front and changes nothing else.
\<close>

lemma lru_get_refines:
  assumes "lru_reach n c"
  shows "\<exists>c'. LRUCache_Get c k = Some (c', lookup_or_empty (lru_entries c) k) \<and> lru_reach n c' \<and>
    lru_entries c' = touch k (lru_entries c) \<and> lc_size c' = lc_size c"
proof -
  have inv: "lru_inv c" using lru_reach_inv [OF assms] by simp
  obtain c' where c': "LRUCache_Get c k = Some (c', lookup_or_empty (lru_entries c) k)"
    and c: "lru_inv c'" "lru_entries c' = touch k (lru_entries c)" "lru_room c' = lru_room c"
    using LRUCache_Get_ok [OF inv] by blast
  moreover have "lru_stale c' = lru_stale c"
    using c(3) LRUCache_Get_capacity [OF inv c'] lru_inv_size(2) [OF inv] lru_inv_size(2) [OF c(1)]
    by (simp add: lru_room_def)
  then have "lc_size c' = lc_size c"
    using lru_inv_size(1) [OF inv] lru_inv_size(1) [OF c(1)] c(2) inv
    by (simp add: distinct_lru_entries lru_inv_def)
  ultimately show ?thesis
    using reach_get [OF assms c'] by blast
qed

text \<open>
  C19. A value that fits the room of the cache is returned by the next \<open>Get\<close> of its key; a \<open>Get\<close>
  of another key finds what was there before or nothing, never another value.
\<close>

theorem lru_put_then_get:
  assumes "lru_reach n c" and "valid_value v" and "map_bytes v \<le> lru_room c"
  shows "\<exists>c1. LRUCache_Put c k v = Some c1 \<and> (\<exists>c2. LRUCache_Get c1 k = Some (c2, v)) \<and>
    (\<forall>k' c2 w. k' \<noteq> k \<longrightarrow> LRUCache_Get c1 k' = Some (c2, w) \<longrightarrow>
       w = [] \<or> w = lookup_or_empty (lru_entries c) k')"
proof -
  have inv: "lru_inv c" using lru_reach_inv [OF assms(1)] by simp
  then obtain c1 where c1: "LRUCache_Put c k v = Some c1"
    using LRUCache_Put_ok by blast
  then show ?thesis
    using lru.get_put_same [OF inv assms(2,3) c1] lru.get_put_other [OF inv c1] by blast
qed

theorem lru_put_then_get_witness:
  "\<exists>c1 c2. LRUCache_Put (LRUCache_new 10) ''k'' [(''a'', ''xyz'')] = Some c1 \<and>
     LRUCache_Get c1 ''k'' = Some (c2, [(''a'', ''xyz'')])"
proof -
  have "valid_value [(''a'', ''xyz'')]" and "map_bytes [(''a'', ''xyz'')] \<le> lru_room (LRUCache_new 10)"
    by (simp_all add: valid_value_def MAX_SIZE_def reach_new_empty)
  then show ?thesis
    using lru_put_then_get [OF reach_new, of "[(''a'', ''xyz'')]" 10 "''k''"] by blast
qed

text \<open>
  Merging a reachable cache into a new one returns, and the new cache holds the most recent
  entries of the other that fit its capacity, in the same order of use: all of them when the
  capacity suffices.
\<close>

lemma lru_merge_copies:
  assumes "lru_reach m d"
  shows "\<exists>c'. LRUCache_MergeOtherCache (LRUCache_new n) d = Some c' \<and> lru_reach n c' \<and>
    lru_entries c' = keep (min MAX_SIZE n) (lru_entries d)"
proof -
  have d: "lru_inv d" using lru_reach_inv [OF assms] by simp
  then obtain c' where "LRUCache_MergeOtherCache (LRUCache_new n) d = Some c'"
    and "lru_entries c' = keep (min MAX_SIZE n) (lru_entries d)"
    using lru.put_all_fresh [OF lru_inv_new, of "lru_entries d" n] lru.inv_entries [OF d]
    by (auto simp: LRUCache_MergeOtherCache_eq reach_new_empty)
  then show ?thesis
    using reach_merge [OF reach_new assms] by blast
qed

text \<open>
  \<open>Clear\<close> of the native cache empties the list and the index and leaves the byte counter: from
  then on a value whose size added to the old counter exceeds the capacity is not cached, and
  putting it empties the cache.
\<close>

lemma lru_clear_keeps_counter:
  assumes "lru_reach n c" and "valid_value v" and "lc_capacity c < lc_size c + map_bytes v"
  shows "\<exists>c'. LRUCache_Put (LRUCache_Clear c) k v = Some c' \<and> lru_entries c' = []"
proof -
  have inv: "lru_inv c" using lru_reach_inv [OF assms(1)] by simp
  have "\<not> map_bytes v \<le> lru_room (LRUCache_Clear c)"
    using assms(3) lru_inv_Clear(4) [OF inv] inv by (auto simp: lru_inv_def)
  then show ?thesis
    using LRUCache_Put_ok [OF lru_inv_Clear(1) [OF inv], of k v] assms(2)
    by (auto simp: store_def)
qed

text \<open>
  \<open>GetMapValueSize\<close> is the number of bytes of the values (the keys are not counted) when that
  is between 1 and 1 MB and the invalid size otherwise, in whatever order the hash table of the
  value is traversed.
\<close>

lemma lru_GetMapValueSize:
  "GetMapValueSize m =
     (if 0 < map_bytes m \<and> map_bytes m \<le> MAX_SIZE then map_bytes m else INVALID_SIZE) \<and>
   (mset m = mset m' \<longrightarrow> GetMapValueSize m = GetMapValueSize m')"
  using map_bytes_perm [of m m'] by (auto simp: GetMapValueSize_eq valid_value_def)

end
