(* ===== verification/LRU_Cache_Js.thy ===== *)
theory LRU_Cache_Js
  imports LRU_Cache
begin

text \<open>
  The class \<open>LRUCache\<close> of the JS HTTP module
  (\<open>frameworks/js/napi/http/cache/lru_cache/src/lru_cache.cpp\<close>), a later copy of the native one:
  the fields, \<open>GetMapValueSize\<close>, \<open>AddNode\<close>, \<open>MoveNodeToHead\<close> and \<open>Get\<close> are the same text; the
  counter is decreased with a guard, merging a cache into itself is skipped and \<open>Clear\<close> resets the
  counter. On caches with the invariant of \<open>LRU_Cache\<close> both \<open>Put\<close> agree, so this class is an
  instance of \<open>lru_store\<close> too, one whose budget is always the whole capacity.
\<close>

definition size_guarded_sub :: "nat \<Rightarrow> nat \<Rightarrow> nat" where
  "size_guarded_sub sz n = (if n \<le> sz then sz - n else 0)"

definition EraseTailNode_js :: "lru_cache \<Rightarrow> lru_cache" where
  "EraseTailNode_js c =
     (if lc_nodeList c = [] then c
      else let node = snd (last (lc_nodeList c))
           in if GetMapValueSize (node_value node) = INVALID_SIZE then c
              else c\<lparr>lc_nodeList := butlast (lc_nodeList c),
                     lc_cache := (lc_cache c)(node_key node := None),
                     lc_size := size_guarded_sub (lc_size c) (GetMapValueSize (node_value node))\<rparr>)"

partial_function (option) evict_js :: "lru_cache \<Rightarrow> lru_cache option" where
  "evict_js c = (if lc_capacity c < lc_size c then evict_js (EraseTailNode_js c) else Some c)"

definition LRUCache_Put_js :: "lru_cache \<Rightarrow> string \<Rightarrow> svmap \<Rightarrow> lru_cache option" where
  "LRUCache_Put_js c key value =
     (if GetMapValueSize value = INVALID_SIZE then Some c
      else case lc_cache c key of
        None \<Rightarrow> evict_js (AddNode c \<lparr>node_key = key, node_value = value\<rparr>)
      | Some it \<Rightarrow>
          (case map_of (lc_nodeList c) it of
             None \<Rightarrow> None
           | Some node \<Rightarrow>
               let c1 = c\<lparr>lc_size := size_guarded_sub (lc_size c) (GetMapValueSize (node_value node))\<rparr>;
                   c2 = c1\<lparr>lc_nodeList := set_value (lc_nodeList c1) it value\<rparr>;
                   c3 = c2\<lparr>lc_size := size_add (lc_size c2) (GetMapValueSize value)\<rparr>
               in case MoveNodeToHead c3 it of None \<Rightarrow> None | Some c4 \<Rightarrow> evict_js c4))"

fun Put_nodes_js :: "lru_cache \<Rightarrow> lru_node list \<Rightarrow> lru_cache option" where
  "Put_nodes_js c [] = Some c"
| "Put_nodes_js c (n # ns) =
     (case LRUCache_Put_js c (node_key n) (node_value n) of
        None \<Rightarrow> None | Some c' \<Rightarrow> Put_nodes_js c' ns)"

text \<open>\<open>same\<close> is the test \<open>this == &other\<close> on the two objects' addresses.\<close>

definition LRUCache_MergeOtherCache_js :: "bool \<Rightarrow> lru_cache \<Rightarrow> lru_cache \<Rightarrow> lru_cache option" where
  "LRUCache_MergeOtherCache_js same c other =
     (if same then Some c
      else if lc_nodeList other = [] then Some c
      else Put_nodes_js c (rev (map snd (lc_nodeList other))))"

definition LRUCache_Clear_js :: "lru_cache \<Rightarrow> lru_cache" where
  "LRUCache_Clear_js c = c\<lparr>lc_cache := Map.empty, lc_nodeList := [], lc_size := 0\<rparr>"

section \<open>Agreement with the native cache\<close>

lemma EraseTailNode_js_eq:
  assumes "lru_wf c" and "total_bytes (lru_entries c) \<le> lc_size c" and "lc_size c < 2 ^ 64"
  shows "EraseTailNode_js c = EraseTailNode c"
proof (cases "lc_nodeList c" rule: rev_cases)
  case Nil
  then show ?thesis by (simp add: EraseTailNode_js_def EraseTailNode_def)
next
  case (snoc ns p)
  have v: "valid_value (node_value (snd p))"
    using assms(1) snoc by (simp add: lru_wf_def)
  have "map_bytes (node_value (snd p)) \<le> lc_size c"
    using assms(2) snoc by (simp add: lru_entries_def)
  then have "size_guarded_sub (lc_size c) (GetMapValueSize (node_value (snd p))) =
      size_sub (lc_size c) (GetMapValueSize (node_value (snd p)))"
    using v assms(3) by (simp add: size_guarded_sub_def GetMapValueSize_eq)
  then show ?thesis
    using v snoc by (simp add: EraseTailNode_js_def EraseTailNode_def)
qed

lemma evict_js_eq:
  assumes "lru_wf c" and "lc_size c = stale + total_bytes (lru_entries c)"
    and "lc_size c < 2 ^ 64" and "stale \<le> lc_capacity c"
  shows "evict_js c = evict c"
  using assms
proof (induction "lc_nodeList c" arbitrary: c rule: rev_induct)
  case Nil
  then show ?case
    by (simp add: evict.simps [of c] evict_js.simps [of c] lru_entries_def)
next
  case (snoc p ns)
  have eq: "EraseTailNode_js c = EraseTailNode c"
    using snoc.prems by (intro EraseTailNode_js_eq) auto
  note e = EraseTailNode_snoc [OF snoc.prems(1) snoc.hyps(2) [symmetric] snoc.prems(2,3)]
  have "evict_js (EraseTailNode c) = evict (EraseTailNode c)"
    using snoc.hyps(1) [of "EraseTailNode c"] e snoc.prems(3,4) by simp
  then show ?case
    by (simp add: evict.simps [of c] evict_js.simps [of c] eq)
qed

lemma LRUCache_Put_js_eq_native:
  assumes "lru_inv c"
  shows "LRUCache_Put_js c k v = LRUCache_Put c k v"
proof (cases "valid_value v")
  case False
  then show ?thesis by (simp add: LRUCache_Put_js_def LRUCache_Put_def)
next
  case True
  have same: "evict_js c1 = evict c1" if "evictable c es c1" for es c1
    using that evict_js_eq [of c1 "lru_stale c"] lru_inv_size(2) [OF assms]
    by (simp add: evictable_def)
  show ?thesis
  proof (cases "lc_cache c k")
    case None
    then show ?thesis
      using True same [OF AddNode_evictable [OF assms True None]]
      by (simp add: LRUCache_Put_js_def LRUCache_Put_def)
  next
    case (Some it)
    then obtain n where n: "map_of (lc_nodeList c) it = Some n" "node_key n = k"
      "(it, n) \<in> set (lc_nodeList c)"
      using cache_hit_node [OF assms] by blast
    have "map_bytes (node_value n) \<le> lc_size c \<and> GetMapValueSize (node_value n) = map_bytes (node_value n)"
      using assms total_bytes_without [OF distinct_lru_entries, of c k "node_value n"]
        map_of_lru_entries [of c it n] n by (auto simp: lru_inv_def lru_wf_def GetMapValueSize_eq)
    then have "size_guarded_sub (lc_size c) (GetMapValueSize (node_value n)) =
        size_sub (lc_size c) (GetMapValueSize (node_value n))"
      using lru_inv_size(3) [OF assms] by (simp add: size_guarded_sub_def MAX_SIZE_def)
    then show ?thesis
      using True Some n replaced_evictable [OF assms True n(3,2), of size_sub] same
      by (auto simp: LRUCache_Put_js_def LRUCache_Put_def replaced_def)
  qed
qed

section \<open>The instance\<close>

definition lru_inv_js :: "lru_cache \<Rightarrow> bool" where
  "lru_inv_js c \<longleftrightarrow> lru_inv c \<and> lru_stale c = 0"

interpretation lru_js: lru_store lru_inv_js lru_entries lc_capacity LRUCache_Get LRUCache_Put_js
proof (unfold_locales, goal_cases)
  case (1 c)
  then show ?case
    using lru.inv_entries [of c] by (auto simp: lru_inv_js_def lru_room_def)
next
  case (2 c k)
  then show ?case
    using LRUCache_Get_ok [of c k] by (auto simp: lru_inv_js_def lru_room_def)
next
  case (3 c k v)
  then show ?case
    using LRUCache_Put_ok [of c k v] LRUCache_Put_js_eq_native [of c k v]
    by (auto simp: lru_inv_js_def lru_room_def)
qed

lemma Put_nodes_js_eq:
  "Put_nodes_js c ns = lru_js.put_all c (map (\<lambda>n. (node_key n, node_value n)) ns)"
  by (induction ns arbitrary: c) (auto split: option.splits)

lemma LRUCache_MergeOtherCache_js_eq:
  "LRUCache_MergeOtherCache_js False c d = lru_js.put_all c (rev (lru_entries d))"
  by (auto simp: LRUCache_MergeOtherCache_js_def Put_nodes_js_eq rev_lru_entries)
    (simp add: lru_entries_def)

lemma lru_inv_js_Clear:
  "lru_inv_js c \<Longrightarrow> lru_inv_js (LRUCache_Clear_js c) \<and> lru_entries (LRUCache_Clear_js c) = [] \<and>
     lc_capacity (LRUCache_Clear_js c) = lc_capacity c"
  by (auto simp: lru_inv_js_def lru_inv_def lru_wf_def lru_entries_def lru_stale_def LRUCache_Clear_js_def)

section \<open>Reachable caches\<close>

inductive lru_reach_js :: "nat \<Rightarrow> lru_cache \<Rightarrow> bool" where
  js_new: "lru_reach_js n (LRUCache_new n)"
| js_get: "lru_reach_js n c \<Longrightarrow> LRUCache_Get c k = Some (c', v) \<Longrightarrow> lru_reach_js n c'"
| js_put: "lru_reach_js n c \<Longrightarrow> LRUCache_Put_js c k v = Some c' \<Longrightarrow> lru_reach_js n c'"
| js_merge: "lru_reach_js n c \<Longrightarrow> lru_reach_js m d \<Longrightarrow>
    LRUCache_MergeOtherCache_js False c d = Some c' \<Longrightarrow> lru_reach_js n c'"
| js_clear: "lru_reach_js n c \<Longrightarrow> lru_reach_js n (LRUCache_Clear_js c)"

lemma lru_reach_js_inv: "lru_reach_js n c \<Longrightarrow> lru_inv_js c \<and> lc_capacity c = min MAX_SIZE n"
proof (induction rule: lru_reach_js.induct)
  case (js_new n)
  then show ?case
    by (simp add: lru_inv_js_def lru_stale_def) (simp add: LRUCache_new_def)
next
  case (js_get n c k c' v)
  then show ?case using lru_js.get_spec [of c k] by auto
next
  case (js_put n c k v c')
  then show ?case using lru_js.put_spec [of c k v] by auto
next
  case (js_merge n c m d c')
  then show ?case
    using lru_js.put_all_spec [of c "rev (lru_entries d)"]
    by (auto simp: LRUCache_MergeOtherCache_js_eq)
next
  case (js_clear n c)
  then show ?case using lru_inv_js_Clear by simp
qed

section \<open>Properties\<close>

text \<open>
  C14. The JS cache counts exactly: in every reachable cache the counter is the sum of the sizes
  of the entries, it never exceeds the capacity, and \<open>Put\<close> and \<open>Get\<close> return with the effect of
  the abstract store whose budget is the whole capacity, also after \<open>Clear\<close>.
\<close>

theorem lru_js_refines:
  assumes "lru_reach_js n c"
  shows "lc_size c = total_bytes (lru_entries c) \<and> lc_size c \<le> min MAX_SIZE n \<and>
    (\<exists>c'. LRUCache_Put_js c k v = Some c' \<and> lru_reach_js n c' \<and>
       lru_entries c' = store (min MAX_SIZE n) k v (lru_entries c)) \<and>
    (\<exists>c'. LRUCache_Get c k = Some (c', lookup_or_empty (lru_entries c) k) \<and> lru_reach_js n c' \<and>
       lru_entries c' = touch k (lru_entries c))"
proof -
  have inv: "lru_inv_js c" and cap: "lc_capacity c = min MAX_SIZE n"
    using lru_reach_js_inv [OF assms] by simp_all
  then have "lc_size c = total_bytes (lru_entries c)" and "lc_size c \<le> min MAX_SIZE n"
    by (auto simp: lru_inv_js_def lru_inv_def lru_stale_def)
  moreover obtain c1 where "LRUCache_Put_js c k v = Some c1"
    and "lru_entries c1 = store (min MAX_SIZE n) k v (lru_entries c)"
    using lru_js.put_spec [OF inv, of k v] cap by auto
  moreover obtain c2 where "LRUCache_Get c k = Some (c2, lookup_or_empty (lru_entries c) k)"
    and "lru_entries c2 = touch k (lru_entries c)"
    using lru_js.get_spec [OF inv, of k] by blast
  ultimately show ?thesis
    using js_put [OF assms] js_get [OF assms] by blast
qed

theorem lru_js_refines_witness:
  "\<exists>c'. LRUCache_Put_js (LRUCache_Clear_js (LRUCache_new 10)) ''k'' [(''a'', ''xyz'')] = Some c' \<and>
     lru_entries c' = [(''k'', [(''a'', ''xyz'')])]"
  using lru_js_refines [OF js_clear [OF js_new], of 10 "''k''" "[(''a'', ''xyz'')]"]
    lru_inv_js_Clear [of "LRUCache_new 10"] lru_reach_js_inv [OF js_new, of 10]
  by (auto simp: store_def valid_value_def MAX_SIZE_def)

text \<open>
  On every reachable native cache the \<open>Put\<close> of the JS module and the native \<open>Put\<close> return the
  same cache: the guarded subtraction of the later copy never takes its second branch.
\<close>

lemma lru_js_put_eq_native:
  assumes "lru_reach n c"
  shows "LRUCache_Put_js c k v = LRUCache_Put c k v"
  using LRUCache_Put_js_eq_native lru_reach_inv [OF assms] by blast

end
