(* ===== verification/LRU_Persist.thy ===== *)
theory LRU_Persist
  imports LRU_Cache
begin

text \<open>
  The persistence of the native response cache: \<open>LRUCache::WriteCacheToJsonValue\<close> and
  \<open>ReadCacheFromJsonValue\<close>, \<open>DiskHandler\<close> (\<open>disk_handler.cpp\<close>) and \<open>LRUCacheDiskHandler\<close>
  (\<open>lru_cache_disk_handler.cpp\<close>).

  The cJSON library is a parameter: a record of the functions the code calls, on an abstract type
  of JSON values. \<open>cjson_laws\<close> states what its documentation promises of them, through the JSON
  document that a value stands for. The file is a state with three switches of the environment:
  whether opening it for reading, for writing, and removing it succeed.
\<close>

section \<open>The cJSON interface\<close>

record 'j cjson =
  cJSON_CreateObject :: 'j
  cJSON_CreateString :: "string \<Rightarrow> 'j"
  cJSON_AddItemToObject :: "'j \<Rightarrow> string \<Rightarrow> 'j \<Rightarrow> 'j"
  cJSON_GetArraySize :: "'j \<Rightarrow> nat"
  cJSON_GetArrayItem :: "'j \<Rightarrow> nat \<Rightarrow> 'j option"
  cJSON_IsObject :: "'j \<Rightarrow> bool"
  cJSON_IsString :: "'j \<Rightarrow> bool"
  cJSON_name :: "'j \<Rightarrow> string option"  \<comment> \<open>the member \<open>string\<close>\<close>
  cJSON_GetStringValue :: "'j \<Rightarrow> string option"
  cJSON_Print :: "'j \<Rightarrow> string option"
  cJSON_Parse :: "string \<Rightarrow> 'j option"

datatype json = JString string | JObject "(string \<times> json) list" | JOther

text \<open>
  Strings passed in and handed out are C strings. A member is appended to an object under its
  name; members are read back by position with their name and value; what is printed parses to
  the same document; the empty text is not a document.
\<close>

definition cjson_laws :: "'j cjson \<Rightarrow> ('j \<Rightarrow> json) \<Rightarrow> bool" where
  "cjson_laws J view \<longleftrightarrow>
     view (cJSON_CreateObject J) = JObject [] \<and>
     (\<forall>s. NUL \<notin> set s \<longrightarrow> view (cJSON_CreateString J s) = JString s) \<and>
     (\<forall>ob m k v. view ob = JObject m \<longrightarrow> NUL \<notin> set k \<longrightarrow>
        view (cJSON_AddItemToObject J ob k v) = JObject (m @ [(k, view v)])) \<and>
     (\<forall>ob m. view ob = JObject m \<longrightarrow> cJSON_GetArraySize J ob = length m \<and>
        (\<forall>i < length m. \<exists>it. cJSON_GetArrayItem J ob i = Some it \<and> view it = snd (m ! i) \<and>
           cJSON_name J it = Some (fst (m ! i)))) \<and>
     (\<forall>j. cJSON_IsObject J j \<longleftrightarrow> (\<exists>m. view j = JObject m)) \<and>
     (\<forall>j. cJSON_IsString J j \<longleftrightarrow> (\<exists>s. view j = JString s)) \<and>
     (\<forall>j s. view j = JString s \<longrightarrow> cJSON_GetStringValue J j = Some s \<and> NUL \<notin> set s) \<and>
     (\<forall>j k. cJSON_name J j = Some k \<longrightarrow> NUL \<notin> set k) \<and>
     (\<forall>j m. view j = JObject m \<longrightarrow>
        (\<exists>t j'. cJSON_Print J j = Some t \<and> NUL \<notin> set t \<and> cJSON_Parse J t = Some j' \<and> view j' = view j)) \<and>
     cJSON_Parse J [] = None"

section \<open>Writing and reading a cache as JSON\<close>

definition LRU_INDEX :: string where
  "LRU_INDEX = ''LRUIndex''"

fun write_value :: "'j cjson \<Rightarrow> 'j \<Rightarrow> svmap \<Rightarrow> 'j" where
  "write_value J nodeKey [] = nodeKey"
| "write_value J nodeKey (p # m) =
     write_value J
       (cJSON_AddItemToObject J nodeKey (c_str (fst p)) (cJSON_CreateString J (c_str (snd p)))) m"

fun write_nodes :: "'j cjson \<Rightarrow> nat \<Rightarrow> 'j \<Rightarrow> lru_node list \<Rightarrow> 'j" where
  "write_nodes J index root [] = root"
| "write_nodes J index root (node # ns) =
     (let nodeKey = write_value J (cJSON_CreateObject J) (node_value node);
          nodeKey = cJSON_AddItemToObject J nodeKey LRU_INDEX
                      (cJSON_CreateString J (c_str (to_string_nat index)))
      in write_nodes J (index + 1) (cJSON_AddItemToObject J root (c_str (node_key node)) nodeKey) ns)"

definition LRUCache_WriteCacheToJsonValue :: "'j cjson \<Rightarrow> lru_cache \<Rightarrow> 'j" where
  "LRUCache_WriteCacheToJsonValue J c =
     write_nodes J 0 (cJSON_CreateObject J) (map snd (lc_nodeList c))"

text \<open>\<open>m[k] = v\<close> on an \<open>unordered_map\<close>: a new key goes to the end of the model's entry list.\<close>

fun umap_put :: "string \<Rightarrow> string \<Rightarrow> svmap \<Rightarrow> svmap" where
  "umap_put k v [] = [(k, v)]"
| "umap_put k v (p # m) = (if fst p = k then (k, v) # m else p # umap_put k v m)"

text \<open>The loop over the members of one object; \<open>n\<close> counts the remaining iterations.\<close>

fun read_value :: "'j cjson \<Rightarrow> 'j \<Rightarrow> nat \<Rightarrow> nat \<Rightarrow> svmap \<Rightarrow> svmap" where
  "read_value J keyItem j 0 m = m"
| "read_value J keyItem j (Suc n) m =
     read_value J keyItem (Suc j) n
       (case cJSON_GetArrayItem J keyItem j of
          None \<Rightarrow> m
        | Some valueItem \<Rightarrow>
            if \<not> cJSON_IsString J valueItem then m
            else case cJSON_name J valueItem of
              None \<Rightarrow> m
            | Some valueKey \<Rightarrow>
                (case cJSON_GetStringValue J valueItem of
                   None \<Rightarrow> m | Some strValue \<Rightarrow> umap_put valueKey strValue m))"

fun read_nodes :: "'j cjson \<Rightarrow> 'j \<Rightarrow> nat \<Rightarrow> nat \<Rightarrow> entry list \<Rightarrow> entry list" where
  "read_nodes J root i 0 nodeVec = nodeVec"
| "read_nodes J root i (Suc n) nodeVec =
     read_nodes J root (Suc i) n
       (case cJSON_GetArrayItem J root i of
          None \<Rightarrow> nodeVec
        | Some keyItem \<Rightarrow>
            if \<not> cJSON_IsObject J keyItem then nodeVec
            else case cJSON_name J keyItem of
              None \<Rightarrow> nodeVec
            | Some key \<Rightarrow>
                let m = read_value J keyItem 0 (cJSON_GetArraySize J keyItem) []
                in if map_of m LRU_INDEX \<noteq> None then nodeVec @ [(key, m)] else nodeVec)"

definition node_index :: "entry \<Rightarrow> int" where
  "node_index e = strtol10 (c_str (case map_of (snd e) LRU_INDEX of None \<Rightarrow> [] | Some v \<Rightarrow> v))"

definition erase_index :: "svmap \<Rightarrow> svmap" where
  "erase_index m = filter (\<lambda>p. fst p \<noteq> LRU_INDEX) m"

fun put_nodeVec :: "lru_cache \<Rightarrow> entry list \<Rightarrow> lru_cache option" where
  "put_nodeVec c [] = Some c"
| "put_nodeVec c (e # es) =
     (let v = erase_index (snd e)
      in if v \<noteq> []
         then (case LRUCache_Put c (fst e) v of None \<Rightarrow> None | Some c' \<Rightarrow> put_nodeVec c' es)
         else put_nodeVec c es)"

text \<open>\<open>std::sort\<close> with the largest index first.\<close>

definition LRUCache_ReadCacheFromJsonValue :: "'j cjson \<Rightarrow> lru_cache \<Rightarrow> 'j \<Rightarrow> lru_cache option" where
  "LRUCache_ReadCacheFromJsonValue J c root =
     put_nodeVec c (sort_key (\<lambda>e. - node_index e) (read_nodes J root 0 (cJSON_GetArraySize J root) []))"

section \<open>The file\<close>

record disk_handler =
  dh_fileName :: string
  dh_content :: "string option"  \<comment> \<open>\<open>None\<close>: there is no file of that name\<close>
  dh_can_read :: bool
  dh_can_write :: bool
  dh_can_remove :: bool

definition DiskHandler_Write :: "disk_handler \<Rightarrow> string \<Rightarrow> disk_handler" where
  "DiskHandler_Write d str = (if \<not> dh_can_write d then d else d\<lparr>dh_content := Some str\<rparr>)"

definition DiskHandler_Read :: "disk_handler \<Rightarrow> string" where
  "DiskHandler_Read d =
     (if \<not> dh_can_read d then []
      else case dh_content d of None \<Rightarrow> [] | Some s \<Rightarrow> s)"

definition DiskHandler_Delete :: "disk_handler \<Rightarrow> disk_handler" where
  "DiskHandler_Delete d = (if dh_can_remove d then d\<lparr>dh_content := None\<rparr> else d)"

section \<open>The disk cache\<close>

definition MAX_DISK_CACHE_SIZE :: nat where
  "MAX_DISK_CACHE_SIZE = 1024 * 1024 * 10"

definition MIN_DISK_CACHE_SIZE :: nat where
  "MIN_DISK_CACHE_SIZE = 1024 * 1024"

record lru_disk =
  ld_cache :: lru_cache
  ld_disk :: disk_handler
  ld_capacity :: nat

definition LRUCacheDiskHandler :: "disk_handler \<Rightarrow> nat \<Rightarrow> lru_disk" where
  "LRUCacheDiskHandler d capacity =
     \<lparr>ld_cache = LRUCache_default, ld_disk = d,
      ld_capacity = max (min MAX_DISK_CACHE_SIZE capacity) MIN_DISK_CACHE_SIZE\<rparr>"

definition ReadJsonValueFromFile :: "'j cjson \<Rightarrow> lru_disk \<Rightarrow> 'j option" where
  "ReadJsonValueFromFile J h = cJSON_Parse J (c_str (DiskHandler_Read (ld_disk h)))"

definition WriteJsonValueToFile :: "'j cjson \<Rightarrow> lru_disk \<Rightarrow> 'j \<Rightarrow> lru_disk" where
  "WriteJsonValueToFile J h root =
     (case cJSON_Print J root of
        None \<Rightarrow> h
      | Some jsonStr \<Rightarrow> h\<lparr>ld_disk := DiskHandler_Write (ld_disk h) jsonStr\<rparr>)"

definition WriteCacheToJsonFile :: "'j cjson \<Rightarrow> lru_disk \<Rightarrow> lru_disk option" where
  "WriteCacheToJsonFile J h =
     (let oldCache = LRUCache_new (ld_capacity h)
      in case ReadJsonValueFromFile J h of
           None \<Rightarrow> Some h
         | Some readRoot \<Rightarrow>
             (case LRUCache_ReadCacheFromJsonValue J oldCache readRoot of
                None \<Rightarrow> None
              | Some oldCache1 \<Rightarrow>
                  (case LRUCache_MergeOtherCache oldCache1 (ld_cache h) of
                     None \<Rightarrow> None
                   | Some oldCache2 \<Rightarrow>
                       let writeRoot = LRUCache_WriteCacheToJsonValue J oldCache2;
                           h1 = WriteJsonValueToFile J h writeRoot
                       in Some (h1\<lparr>ld_cache := LRUCache_Clear (ld_cache h1)\<rparr>))))"

definition ReadCacheFromJsonFile :: "'j cjson \<Rightarrow> lru_disk \<Rightarrow> lru_disk option" where
  "ReadCacheFromJsonFile J h =
     (case ReadJsonValueFromFile J h of
        None \<Rightarrow> Some h
      | Some root \<Rightarrow>
          (case LRUCache_ReadCacheFromJsonValue J (ld_cache h) root of
             None \<Rightarrow> None | Some c \<Rightarrow> Some (h\<lparr>ld_cache := c\<rparr>)))"

definition SetCapacity :: "'j cjson \<Rightarrow> lru_disk \<Rightarrow> nat \<Rightarrow> lru_disk option" where
  "SetCapacity J h capacity =
     WriteCacheToJsonFile J
       (h\<lparr>ld_capacity := max (min MAX_DISK_CACHE_SIZE capacity) MIN_DISK_CACHE_SIZE\<rparr>)"

definition LRUCacheDiskHandler_Delete :: "lru_disk \<Rightarrow> lru_disk" where
  "LRUCacheDiskHandler_Delete h =
     h\<lparr>ld_cache := LRUCache_Clear (ld_cache h), ld_disk := DiskHandler_Delete (ld_disk h)\<rparr>"

definition LRUCacheDiskHandler_Get ::
  "'j cjson \<Rightarrow> lru_disk \<Rightarrow> string \<Rightarrow> (lru_disk \<times> svmap) option" where
  "LRUCacheDiskHandler_Get J h key =
     (case LRUCache_Get (ld_cache h) key of
        None \<Rightarrow> None
      | Some (c, valueFromMemory) \<Rightarrow>
          let h1 = h\<lparr>ld_cache := c\<rparr>
          in if valueFromMemory \<noteq> [] then Some (h1, valueFromMemory)
             else case ReadJsonValueFromFile J h1 of
               None \<Rightarrow> Some (h1, valueFromMemory)
             | Some root \<Rightarrow>
                 (case LRUCache_ReadCacheFromJsonValue J (LRUCache_new (ld_capacity h1)) root of
                    None \<Rightarrow> None
                  | Some diskCache \<Rightarrow>
                      (case LRUCache_Get diskCache key of
                         None \<Rightarrow> None
                       | Some (_, valueFromDisk) \<Rightarrow>
                           (case LRUCache_Put (ld_cache h1) key valueFromDisk of
                              None \<Rightarrow> None
                            | Some c2 \<Rightarrow> Some (h1\<lparr>ld_cache := c2\<rparr>, valueFromDisk)))))"

definition LRUCacheDiskHandler_Put :: "lru_disk \<Rightarrow> string \<Rightarrow> svmap \<Rightarrow> lru_disk option" where
  "LRUCacheDiskHandler_Put h key value =
     (case LRUCache_Put (ld_cache h) key value of None \<Rightarrow> None | Some c \<Rightarrow> Some (h\<lparr>ld_cache := c\<rparr>))"

end
