(* ===== verification/LRU_Persist_Correct.thy ===== *)
theory LRU_Persist_Correct
  imports LRU_Persist "HOL-Library.Countable"
begin

text \<open>
  Correctness of the persistence of the native cache: the JSON document of a cache, reading it
  back, and the disk cache as a state machine over its operations.
\<close>

section \<open>The document of a cache\<close>

definition value_doc :: "svmap \<Rightarrow> nat \<Rightarrow> (string \<times> json) list" where
  "value_doc v i =
     map (\<lambda>p. (fst p, JString (snd p))) v @ [(LRU_INDEX, JString (to_string_nat i))]"

fun nodes_doc :: "nat \<Rightarrow> entry list \<Rightarrow> (string \<times> json) list" where
  "nodes_doc i [] = []"
| "nodes_doc i (e # es) = (fst e, JObject (value_doc (snd e) i)) # nodes_doc (Suc i) es"

definition storable_value :: "svmap \<Rightarrow> bool" where
  "storable_value v \<longleftrightarrow> distinct (map fst v) \<and> LRU_INDEX \<notin> fst ` set v \<and>
     (\<forall>p \<in> set v. NUL \<notin> set (fst p) \<and> NUL \<notin> set (snd p))"

definition storable :: "entry list \<Rightarrow> bool" where
  "storable es \<longleftrightarrow> (\<forall>e \<in> set es. NUL \<notin> set (fst e) \<and> storable_value (snd e))"

lemma cjson_lawsD:
  assumes "cjson_laws J view"
  shows "view (cJSON_CreateObject J) = JObject []"
    and "NUL \<notin> set s \<Longrightarrow> view (cJSON_CreateString J s) = JString s"
    and "view ob = JObject m \<Longrightarrow> NUL \<notin> set k \<Longrightarrow>
        view (cJSON_AddItemToObject J ob k v) = JObject (m @ [(k, view v)])"
    and "view ob = JObject m \<Longrightarrow> cJSON_GetArraySize J ob = length m"
    and "view ob = JObject m \<Longrightarrow> i < length m \<Longrightarrow> \<exists>it. cJSON_GetArrayItem J ob i = Some it \<and>
        view it = snd (m ! i) \<and> cJSON_name J it = Some (fst (m ! i))"
    and "cJSON_IsObject J j \<longleftrightarrow> (\<exists>m. view j = JObject m)"
    and "cJSON_IsString J j \<longleftrightarrow> (\<exists>s. view j = JString s)"
    and "view j = JString s \<Longrightarrow> cJSON_GetStringValue J j = Some s \<and> NUL \<notin> set s"
    and "cJSON_name J j = Some k \<Longrightarrow> NUL \<notin> set k"
    and "view j = JObject m \<Longrightarrow>
        \<exists>t j'. cJSON_Print J j = Some t \<and> NUL \<notin> set t \<and> cJSON_Parse J t = Some j' \<and> view j' = view j"
    and "cJSON_Parse J [] = None"
  using assms unfolding cjson_laws_def by blast+

lemma NUL_notin_LRU_INDEX [simp]: "NUL \<notin> set LRU_INDEX"
  by (simp add: LRU_INDEX_def)

lemma view_write_value:
  assumes "cjson_laws J view" and "\<forall>p \<in> set v. NUL \<notin> set (fst p) \<and> NUL \<notin> set (snd p)"
    and "view ob = JObject m"
  shows "view (write_value J ob v) = JObject (m @ map (\<lambda>p. (fst p, JString (snd p))) v)"
  using assms(2,3)
proof (induction v arbitrary: ob m)
  case (Cons p v)
  then show ?case
    using cjson_lawsD(2,3) [OF assms(1)] by simp
qed simp

lemma view_write_nodes:
  assumes "cjson_laws J view" and "storable (map (\<lambda>n. (node_key n, node_value n)) ns)"
    and "view root = JObject m"
  shows "view (write_nodes J i root ns) =
    JObject (m @ nodes_doc i (map (\<lambda>n. (node_key n, node_value n)) ns))"
  using assms(2,3)
proof (induction ns arbitrary: root m i)
  case (Cons n ns)
  let ?ob = "write_value J (cJSON_CreateObject J) (node_value n)"
  let ?idx = "cJSON_CreateString J (c_str (to_string_nat i))"
  have v: "\<forall>p \<in> set (node_value n). NUL \<notin> set (fst p) \<and> NUL \<notin> set (snd p)" and k: "NUL \<notin> set (node_key n)"
    using Cons.prems(1) by (auto simp: storable_def storable_value_def)
  have "view ?ob = JObject (map (\<lambda>p. (fst p, JString (snd p))) (node_value n))"
    using view_write_value [OF assms(1) v cjson_lawsD(1) [OF assms(1)]] by simp
  then have "view (cJSON_AddItemToObject J ?ob LRU_INDEX ?idx) = JObject (value_doc (node_value n) i)"
    using cjson_lawsD(2,3) [OF assms(1)] by (simp add: value_doc_def)
  then have "view (cJSON_AddItemToObject J root (c_str (node_key n)) (cJSON_AddItemToObject J ?ob LRU_INDEX ?idx)) =
      JObject (m @ [(node_key n, JObject (value_doc (node_value n) i))])"
    using cjson_lawsD(3) [OF assms(1) Cons.prems(2) k] k by simp
  moreover have "storable (map (\<lambda>n. (node_key n, node_value n)) ns)"
    using Cons.prems(1) by (simp add: storable_def)
  ultimately show ?case
    using Cons.IH by simp
qed simp

lemma view_WriteCacheToJsonValue:
  assumes "cjson_laws J view" and "storable (lru_entries c)"
  shows "view (LRUCache_WriteCacheToJsonValue J c) = JObject (nodes_doc 0 (lru_entries c))"
  using view_write_nodes [OF assms(1), of "map snd (lc_nodeList c)"] assms cjson_lawsD(1) [OF assms(1)]
  by (simp add: LRUCache_WriteCacheToJsonValue_def lru_entries_def comp_def)

section \<open>Reading a document\<close>

fun json_value :: "(string \<times> json) list \<Rightarrow> svmap \<Rightarrow> svmap" where
  "json_value [] acc = acc"
| "json_value (p # m) acc =
     json_value m (case snd p of JString s \<Rightarrow> umap_put (fst p) s acc | _ \<Rightarrow> acc)"

fun json_nodes :: "(string \<times> json) list \<Rightarrow> entry list \<Rightarrow> entry list" where
  "json_nodes [] acc = acc"
| "json_nodes (p # m) acc =
     json_nodes m
       (case snd p of
          JObject d \<Rightarrow>
            (let v = json_value d [] in if map_of v LRU_INDEX \<noteq> None then acc @ [(fst p, v)] else acc)
        | _ \<Rightarrow> acc)"

lemma read_value_view:
  assumes "cjson_laws J view" and "view ob = JObject m"
  shows "j + n = length m \<Longrightarrow> read_value J ob j n acc = json_value (drop j m) acc"
proof (induction n arbitrary: j acc)
  case (Suc n)
  then have j: "j < length m" by simp
  then obtain it where it: "cJSON_GetArrayItem J ob j = Some it" "view it = snd (m ! j)"
    "cJSON_name J it = Some (fst (m ! j))"
    using cjson_lawsD(5) [OF assms] by blast
  have "drop j m = m ! j # drop (Suc j) m"
    using j by (rule Cons_nth_drop_Suc [symmetric])
  then show ?case
    using Suc it cjson_lawsD(7,8) [OF assms(1)]
    by (cases "snd (m ! j)") auto
qed simp

lemma read_nodes_view:
  assumes "cjson_laws J view" and "view root = JObject m"
  shows "i + n = length m \<Longrightarrow> read_nodes J root i n acc = json_nodes (drop i m) acc"
proof (induction n arbitrary: i acc)
  case (Suc n)
  then have i: "i < length m" by simp
  then obtain it where it: "cJSON_GetArrayItem J root i = Some it" "view it = snd (m ! i)"
    "cJSON_name J it = Some (fst (m ! i))"
    using cjson_lawsD(5) [OF assms] by blast
  have dr: "drop i m = m ! i # drop (Suc i) m"
    using i by (rule Cons_nth_drop_Suc [symmetric])
  show ?case
  proof (cases "snd (m ! i)")
    case (JObject d)
    then have "read_value J it 0 (cJSON_GetArraySize J it) [] = json_value d []"
      using read_value_view [OF assms(1), of it d 0] cjson_lawsD(4) [OF assms(1)] it(2) by simp
    then show ?thesis
      using JObject Suc it dr cjson_lawsD(6) [OF assms(1), of it] by simp
  qed (use Suc it dr cjson_lawsD(6) [OF assms(1), of it] in simp_all)
qed simp

lemma ReadCacheFromJsonValue_view:
  assumes "cjson_laws J view" and "view root = JObject m"
  shows "LRUCache_ReadCacheFromJsonValue J c root =
    put_nodeVec c (sort_key (\<lambda>e. - node_index e) (json_nodes m []))"
  using read_nodes_view [OF assms, of 0] cjson_lawsD(4) [OF assms]
  by (simp add: LRUCache_ReadCacheFromJsonValue_def)

lemma umap_put_fresh: "k \<notin> fst ` set m \<Longrightarrow> umap_put k v m = m @ [(k, v)]"
  by (induction m) auto

lemma json_value_fresh:
  assumes "distinct (map fst v)" and "fst ` set v \<inter> fst ` set acc = {}"
  shows "json_value (map (\<lambda>p. (fst p, JString (snd p))) v @ m) acc = json_value m (acc @ v)"
  using assms
proof (induction v arbitrary: acc)
  case (Cons p v)
  then have "umap_put (fst p) (snd p) acc = acc @ [p]"
    by (simp add: umap_put_fresh)
  moreover have "json_value (map (\<lambda>p. (fst p, JString (snd p))) v @ m) (acc @ [p]) =
      json_value m ((acc @ [p]) @ v)"
    using Cons.prems by (intro Cons.IH) auto
  ultimately show ?case by simp
qed simp

lemma json_value_doc:
  assumes "storable_value v"
  shows "json_value (value_doc v i) [] = v @ [(LRU_INDEX, to_string_nat i)]"
proof -
  have "distinct (map fst v)" and "LRU_INDEX \<notin> fst ` set v"
    using assms by (simp_all add: storable_value_def)
  then show ?thesis
    using json_value_fresh [of v "[]" "[(LRU_INDEX, JString (to_string_nat i))]"]
    by (simp add: value_doc_def umap_put_fresh)
qed

definition indexed :: "nat \<Rightarrow> entry list \<Rightarrow> entry list" where
  "indexed i es =
     map (\<lambda>(e, k). (fst e, snd e @ [(LRU_INDEX, to_string_nat k)])) (zip es [i..<i + length es])"

lemma indexed_simps [simp]:
  "indexed i [] = []"
  "indexed i (e # es) = (fst e, snd e @ [(LRU_INDEX, to_string_nat i)]) # indexed (Suc i) es"
  by (simp_all add: indexed_def upt_conv_Cons del: upt_Suc)

lemma json_nodes_doc:
  "storable es \<Longrightarrow> json_nodes (nodes_doc i es) acc = acc @ indexed i es"
proof (induction es arbitrary: i acc)
  case (Cons e es)
  have v: "storable_value (snd e)" and es: "storable es"
    using Cons.prems by (simp_all add: storable_def)
  then have "map_of (snd e) LRU_INDEX = None"
    by (simp add: storable_value_def map_of_eq_None_iff)
  then show ?case
    using Cons.IH [OF es] json_value_doc [OF v] by (simp add: map_add_def)
qed simp

lemma node_index_indexed:
  assumes "storable_value v" and "int i \<le> INT64_MAX"
  shows "node_index (k, v @ [(LRU_INDEX, to_string_nat i)]) = int i"
proof -
  have "map_of v LRU_INDEX = None"
    using assms(1) by (simp add: storable_value_def map_of_eq_None_iff)
  then show ?thesis
    using assms(2) by (simp add: node_index_def map_add_def)
qed

lemma map_node_index_indexed:
  assumes "storable es" and "int (i + length es) \<le> INT64_MAX"
  shows "map node_index (indexed i es) = map int [i..<i + length es]"
  using assms
proof (induction es arbitrary: i)
  case (Cons e es)
  have "storable_value (snd e)" and "storable es"
    using Cons.prems(1) by (simp_all add: storable_def)
  then show ?case
    using Cons.IH [of "Suc i"] Cons.prems(2) node_index_indexed [of "snd e" i "fst e"]
    by (simp add: upt_conv_Cons del: upt_Suc)
qed simp

lemma sort_indexed:
  assumes "storable es" and "int (length es) \<le> INT64_MAX"
  shows "sort_key (\<lambda>e. - node_index e) (indexed 0 es) = rev (indexed 0 es)"
proof (rule map_sorted_distinct_set_unique [of "\<lambda>e. - node_index e"])
  have m: "map node_index (indexed 0 es) = map int [0..<length es]"
    using map_node_index_indexed [OF assms(1), of 0] assms(2) by simp
  have neg: "map (\<lambda>e. - node_index e) (indexed 0 es) = map (\<lambda>k. - int k) [0..<length es]"
    using arg_cong [OF m, of "map uminus"] by (simp add: comp_def)
  have d: "distinct (map (\<lambda>e. - node_index e) (indexed 0 es))"
    unfolding neg by (simp add: distinct_map inj_on_def)
  then show "inj_on (\<lambda>e. - node_index e) (set (sort_key (\<lambda>e. - node_index e) (indexed 0 es)) \<union> set (rev (indexed 0 es)))"
    by (simp add: distinct_map)
  show "distinct (map (\<lambda>e. - node_index e) (rev (indexed 0 es)))"
    using d by (simp add: rev_map [symmetric])
  have "mset (map (\<lambda>e. - node_index e) (sort_key (\<lambda>e. - node_index e) (indexed 0 es))) =
      mset (map (\<lambda>e. - node_index e) (indexed 0 es))"
    by simp
  then show "distinct (map (\<lambda>e. - node_index e) (sort_key (\<lambda>e. - node_index e) (indexed 0 es)))"
    using d mset_eq_imp_distinct_iff by blast
  show "sorted (map (\<lambda>e. - node_index e) (rev (indexed 0 es)))"
    unfolding rev_map [symmetric] neg by (simp add: sorted_wrt_rev sorted_wrt_map sorted_wrt_upt)
qed simp_all

lemma put_nodeVec_rev_indexed:
  assumes "storable es" and "\<forall>e \<in> set es. valid_value (snd e)"
  shows "put_nodeVec c (rev (indexed i es)) = lru.put_all c (rev es)"
proof -
  have erase: "erase_index (snd e @ [(LRU_INDEX, x)]) = snd e" if "storable_value (snd e)" for e x
    using that by (force simp: erase_index_def storable_value_def filter_id_conv)
  have "put_nodeVec c (map (\<lambda>(e, k). (fst e, snd e @ [(LRU_INDEX, to_string_nat k)])) (zip fs ks)) =
      lru.put_all c fs" if "\<forall>e \<in> set fs. storable_value (snd e) \<and> snd e \<noteq> []" "length fs = length ks" for fs ks c
    using that(2,1)
    by (induction fs ks arbitrary: c rule: list_induct2) (auto simp: erase split: option.splits)
  moreover have "\<forall>e \<in> set (rev es). storable_value (snd e) \<and> snd e \<noteq> []"
    using assms by (auto simp: storable_def valid_value_def)
  moreover have "rev (indexed i es) = map (\<lambda>(e, k). (fst e, snd e @ [(LRU_INDEX, to_string_nat k)]))
      (zip (rev es) (rev [i..<i + length es]))"
    using zip_rev [of es "[i..<i + length es]"] by (simp add: indexed_def rev_map)
  ultimately show ?thesis
    by simp
qed

lemma length_le_total_bytes: "\<forall>e \<in> set es. valid_value (snd e) \<Longrightarrow> length es \<le> total_bytes es"
  by (induction es) (auto simp: valid_value_def)

text \<open>A document that was written from the entries of a cache is read back in the same order.\<close>

lemma read_written:
  assumes "cjson_laws J view" and "view root = JObject (nodes_doc 0 es)" and "storable es"
    and "distinct (map fst es)" and "\<forall>e \<in> set es. valid_value (snd e)" and "total_bytes es \<le> MAX_SIZE"
    and "lru_inv c" and "lru_entries c = []"
  shows "\<exists>c'. LRUCache_ReadCacheFromJsonValue J c root = Some c' \<and> lru_inv c' \<and>
    lru_entries c' = keep (lru_room c) es \<and> lru_room c' = lru_room c"
proof -
  have "int (length es) \<le> INT64_MAX"
    using length_le_total_bytes [OF assms(5)] assms(6) by (simp add: INT64_MAX_def MAX_SIZE_def)
  then have "LRUCache_ReadCacheFromJsonValue J c root = lru.put_all c (rev es)"
    using ReadCacheFromJsonValue_view [OF assms(1,2)] json_nodes_doc [OF assms(3), of 0 "[]"]
      sort_indexed [OF assms(3)] put_nodeVec_rev_indexed [OF assms(3,5)] by simp
  then show ?thesis
    using lru.put_all_fresh [OF assms(7,4,5)] assms(8) by simp
qed

text \<open>
  C9. Writing a reachable cache as JSON and reading the document into a new cache gives back the
  entries with their order of use, as many of the most recent ones as the capacity of the new
  cache admits.
\<close>

theorem json_roundtrip:
  assumes "cjson_laws J view" and "lru_reach m c" and "storable (lru_entries c)"
  shows "\<exists>c'. LRUCache_ReadCacheFromJsonValue J (LRUCache_new n) (LRUCache_WriteCacheToJsonValue J c) = Some c' \<and>
    lru_entries c' = keep (min MAX_SIZE n) (lru_entries c)"
proof -
  have inv: "lru_inv c" using lru_reach_inv [OF assms(2)] by simp
  have "total_bytes (lru_entries c) \<le> MAX_SIZE"
    using inv by (auto simp: lru_inv_def)
  then show ?thesis
    using read_written [OF assms(1) view_WriteCacheToJsonValue [OF assms(1,3)] assms(3) _ _ _ lru_inv_new]
      lru.inv_entries [OF inv] by (auto simp: reach_new_empty)
qed

section \<open>A concrete cJSON\<close>

text \<open>
  An instance of the laws: a value is a document with the name it has in its parent, strings are
  cut at the first NUL, and the text of a document is a number that codes it.
\<close>

instance json :: countable
  by countable_datatype

fun cut_json :: "json \<Rightarrow> json" where
  "cut_json (JString s) = JString (c_str s)"
| "cut_json (JObject m) = JObject (map (\<lambda>p. (c_str (fst p), cut_json (snd p))) m)"
| "cut_json JOther = JOther"

type_synonym tree = "string option \<times> json"

definition tree_view :: "tree \<Rightarrow> json" where
  "tree_view t = cut_json (snd t)"

definition members :: "tree \<Rightarrow> (string \<times> json) list" where
  "members t = (case snd t of JObject m \<Rightarrow> m | _ \<Rightarrow> [])"

definition tree_cjson :: "tree cjson" where
  "tree_cjson =
     \<lparr>cJSON_CreateObject = (None, JObject []),
      cJSON_CreateString = (\<lambda>s. (None, JString s)),
      cJSON_AddItemToObject = (\<lambda>t k v. (fst t, JObject (members t @ [(k, snd v)]))),
      cJSON_GetArraySize = (\<lambda>t. length (members t)),
      cJSON_GetArrayItem = (\<lambda>t i. if i < length (members t)
         then Some (Some (fst (members t ! i)), snd (members t ! i)) else None),
      cJSON_IsObject = (\<lambda>t. case snd t of JObject _ \<Rightarrow> True | _ \<Rightarrow> False),
      cJSON_IsString = (\<lambda>t. case snd t of JString _ \<Rightarrow> True | _ \<Rightarrow> False),
      cJSON_name = (\<lambda>t. map_option c_str (fst t)),
      cJSON_GetStringValue = (\<lambda>t. case snd t of JString s \<Rightarrow> Some (c_str s) | _ \<Rightarrow> None),
      cJSON_Print = (\<lambda>t. Some (to_string_nat (to_nat (tree_view t)))),
      cJSON_Parse = (\<lambda>s. if s = [] then None else Some (None, from_nat (dec_value s)))\<rparr>"

lemma NUL_notin_c_str [simp]: "NUL \<notin> set (c_str s)"
  by (auto simp: c_str_def dest: set_takeWhileD)

lemma cut_json_idem [simp]: "cut_json (cut_json d) = cut_json d"
  by (induction d rule: cut_json.induct) simp_all

lemma cut_json_eqs [simp]:
  "cut_json d = JObject m \<longleftrightarrow> (\<exists>m'. d = JObject m' \<and> m = map (\<lambda>p. (c_str (fst p), cut_json (snd p))) m')"
  "cut_json d = JString s \<longleftrightarrow> (\<exists>s'. d = JString s' \<and> s = c_str s')"
  by (cases d; auto)+

lemma cjson_laws_tree: "cjson_laws tree_cjson tree_view"
  unfolding cjson_laws_def
proof (intro conjI allI impI)
  fix ob m k v
  assume "tree_view ob = JObject m" and "NUL \<notin> set k"
  then show "tree_view (cJSON_AddItemToObject tree_cjson ob k v) = JObject (m @ [(k, tree_view v)])"
    by (auto simp: tree_view_def tree_cjson_def members_def)
next
  fix ob m i
  assume "tree_view ob = JObject m" and "i < length m"
  then show "\<exists>it. cJSON_GetArrayItem tree_cjson ob i = Some it \<and> tree_view it = snd (m ! i) \<and>
      cJSON_name tree_cjson it = Some (fst (m ! i))"
    by (auto simp: tree_view_def tree_cjson_def members_def)
next
  fix j m
  assume "tree_view j = JObject m"
  then show "\<exists>t j'. cJSON_Print tree_cjson j = Some t \<and> NUL \<notin> set t \<and> cJSON_Parse tree_cjson t = Some j' \<and>
      tree_view j' = tree_view j"
    by (simp add: tree_view_def tree_cjson_def)
qed (auto simp: tree_view_def tree_cjson_def members_def split: json.splits)

theorem json_roundtrip_witness:
  "\<exists>c c'. LRUCache_Put (LRUCache_new 10) ''k'' [(''a'', ''xyz'')] = Some c \<and>
     LRUCache_ReadCacheFromJsonValue tree_cjson (LRUCache_new 5) (LRUCache_WriteCacheToJsonValue tree_cjson c) = Some c' \<and>
     lru_entries c' = [(''k'', [(''a'', ''xyz'')])]"
proof -
  obtain c where c: "LRUCache_Put (LRUCache_new 10) ''k'' [(''a'', ''xyz'')] = Some c"
    and e: "lru_entries c = [(''k'', [(''a'', ''xyz'')])]"
    using LRUCache_Put_ok [OF lru_inv_new, of 10 "''k''" "[(''a'', ''xyz'')]"]
    by (auto simp: reach_new_empty store_def valid_value_def MAX_SIZE_def)
  moreover have "storable (lru_entries c)"
    by (simp add: e storable_def storable_value_def LRU_INDEX_def)
  ultimately show ?thesis
    using json_roundtrip [OF cjson_laws_tree reach_put [OF reach_new c], of 5] by (auto simp: MAX_SIZE_def)
qed

section \<open>The disk cache\<close>

lemma put_nodeVec_ok:
  "lru_inv c \<Longrightarrow> \<exists>c'. put_nodeVec c es = Some c' \<and> lru_inv c' \<and> lru_room c' = lru_room c"
proof (induction es arbitrary: c)
  case (Cons e es)
  obtain c1 where "LRUCache_Put c (fst e) (erase_index (snd e)) = Some c1" "lru_inv c1"
    "lru_room c1 = lru_room c"
    using LRUCache_Put_ok [OF Cons.prems] by blast
  then show ?case
    using Cons.IH [of c1] Cons.IH [of c] Cons.prems by simp
qed simp

lemma ReadCacheFromJsonValue_ok:
  "lru_inv c \<Longrightarrow> \<exists>c'. LRUCache_ReadCacheFromJsonValue J c root = Some c' \<and> lru_inv c' \<and>
     lru_room c' = lru_room c"
  unfolding LRUCache_ReadCacheFromJsonValue_def by (rule put_nodeVec_ok)

lemma read_new_ok:
  "\<exists>c. LRUCache_ReadCacheFromJsonValue J (LRUCache_new n) root = Some c \<and> lru_inv c \<and>
     lru_room c = min MAX_SIZE n"
  using ReadCacheFromJsonValue_ok [OF lru_inv_new, where J = J and root = root] by (simp add: reach_new_empty)

text \<open>What is read from any document can be written again.\<close>

lemma umap_put_keys: "fst ` set (umap_put k v m) = insert k (fst ` set m)"
  by (induction m) auto

lemma umap_put_distinct: "distinct (map fst m) \<Longrightarrow> distinct (map fst (umap_put k v m))"
proof (induction m)
  case (Cons p m)
  then show ?case
    using umap_put_keys [of k v m] by auto
qed simp

lemma umap_put_set: "set (umap_put k v m) \<subseteq> insert (k, v) (set m)"
  by (induction m) auto

lemma read_value_clean:
  assumes "cjson_laws J view"
  shows "distinct (map fst acc) \<Longrightarrow> \<forall>p \<in> set acc. NUL \<notin> set (fst p) \<and> NUL \<notin> set (snd p) \<Longrightarrow>
    distinct (map fst (read_value J ob j n acc)) \<and>
    (\<forall>p \<in> set (read_value J ob j n acc). NUL \<notin> set (fst p) \<and> NUL \<notin> set (snd p))"
proof (induction n arbitrary: j acc)
  case (Suc n)
  let ?acc = "case cJSON_GetArrayItem J ob j of None \<Rightarrow> acc
    | Some it \<Rightarrow> if \<not> cJSON_IsString J it then acc
        else case cJSON_name J it of None \<Rightarrow> acc
          | Some k \<Rightarrow> (case cJSON_GetStringValue J it of None \<Rightarrow> acc | Some s \<Rightarrow> umap_put k s acc)"
  have put: "distinct (map fst (umap_put k s acc)) \<and>
      (\<forall>p \<in> set (umap_put k s acc). NUL \<notin> set (fst p) \<and> NUL \<notin> set (snd p))"
    if "cJSON_name J it = Some k" "cJSON_IsString J it" "cJSON_GetStringValue J it = Some s" for it k s
  proof -
    have "NUL \<notin> set k" using cjson_lawsD(9) [OF assms that(1)] .
    moreover have "NUL \<notin> set s"
      using that(2,3) cjson_lawsD(7,8) [OF assms] by force
    ultimately show ?thesis
      using Suc.prems umap_put_distinct umap_put_set [of k s acc] by fastforce
  qed
  have acc: "distinct (map fst ?acc) \<and> (\<forall>p \<in> set ?acc. NUL \<notin> set (fst p) \<and> NUL \<notin> set (snd p))"
    using Suc.prems put by (auto split: option.splits)
  show ?case
    unfolding read_value.simps by (rule Suc.IH [OF conjunct1 [OF acc] conjunct2 [OF acc]])
qed simp

lemma read_nodes_clean:
  assumes "cjson_laws J view"
  shows "\<forall>e \<in> set acc. NUL \<notin> set (fst e) \<and> storable_value (erase_index (snd e)) \<Longrightarrow>
    \<forall>e \<in> set (read_nodes J root i n acc). NUL \<notin> set (fst e) \<and> storable_value (erase_index (snd e))"
proof (induction n arbitrary: i acc)
  case (Suc n)
  have "storable_value (erase_index (read_value J it 0 k []))" for it k
    using read_value_clean [OF assms, of "[]" it 0 k]
    by (auto simp: storable_value_def erase_index_def distinct_map_filter)
  then have "\<forall>e \<in> set (acc @ [(k, read_value J it 0 k' [])]). NUL \<notin> set (fst e) \<and> storable_value (erase_index (snd e))"
    if "cJSON_name J it = Some k" for it k k'
    using Suc.prems cjson_lawsD(9) [OF assms that] by auto
  then show ?case
    using Suc.prems by (auto intro!: Suc.IH split: option.splits if_splits)
qed simp

lemma storable_store: "storable es \<Longrightarrow> NUL \<notin> set k \<Longrightarrow> storable_value v \<Longrightarrow> storable (store b k v es)"
  using set_keep [of b "(k, v) # without k es"]
  by (auto simp: storable_def store_def set_without simp del: keep.simps)

lemma put_nodeVec_storable:
  "lru_inv c \<Longrightarrow> storable (lru_entries c) \<Longrightarrow>
   \<forall>e \<in> set es. NUL \<notin> set (fst e) \<and> storable_value (erase_index (snd e)) \<Longrightarrow>
   put_nodeVec c es = Some c' \<Longrightarrow> storable (lru_entries c')"
proof (induction es arbitrary: c)
  case (Cons e es)
  obtain c1 where c1: "LRUCache_Put c (fst e) (erase_index (snd e)) = Some c1" "lru_inv c1"
    "lru_entries c1 = store (lru_room c) (fst e) (erase_index (snd e)) (lru_entries c)"
    using LRUCache_Put_ok [OF Cons.prems(1)] by blast
  then have "storable (lru_entries c1)"
    using Cons.prems(2,3) storable_store by simp
  then show ?case
    using Cons.IH [of c1] Cons.IH [of c] Cons.prems c1(1,2) by (auto split: if_splits)
qed simp

lemma ReadCacheFromJsonValue_storable:
  assumes "cjson_laws J view" and "LRUCache_ReadCacheFromJsonValue J (LRUCache_new n) root = Some c"
  shows "storable (lru_entries c)"
proof (rule put_nodeVec_storable [OF lru_inv_new])
  show "put_nodeVec (LRUCache_new n) (sort_key (\<lambda>e. - node_index e)
      (read_nodes J root 0 (cJSON_GetArraySize J root) [])) = Some c"
    using assms(2) by (simp add: LRUCache_ReadCacheFromJsonValue_def)
  show "storable (lru_entries (LRUCache_new n))"
    by (simp add: reach_new_empty storable_def)
  show "\<forall>e \<in> set (sort_key (\<lambda>e. - node_index e) (read_nodes J root 0 (cJSON_GetArraySize J root) [])).
      NUL \<notin> set (fst e) \<and> storable_value (erase_index (snd e))"
    using read_nodes_clean [OF assms(1), of "[]"] by simp
qed

text \<open>Merging keeps all entries of the cache that is merged in, before what it is merged into.\<close>

lemma keep_append: "total_bytes xs \<le> b \<Longrightarrow> keep b (xs @ ys) = xs @ keep (b - total_bytes xs) ys"
  by (induction xs arbitrary: b) auto

lemma fold_store_front:
  assumes "distinct (map fst es)" and "\<forall>e \<in> set es. valid_value (snd e)" and "total_bytes es \<le> b"
  shows "\<exists>rest. fold (\<lambda>e. store b (fst e) (snd e)) (rev es) old = es @ rest \<and> set rest \<subseteq> set old"
  using assms
proof (induction es)
  case (Cons e es)
  then obtain rest where r: "fold (\<lambda>e. store b (fst e) (snd e)) (rev es) old = es @ rest" "set rest \<subseteq> set old"
    by auto
  have "without (fst e) (es @ rest) = es @ without (fst e) rest"
    using Cons.prems(1) by (simp add: without_def filter_id_conv) (metis image_eqI)
  then have "store b (fst e) (snd e) (es @ rest) =
      (e # es) @ keep (b - total_bytes (e # es)) (without (fst e) rest)"
    using Cons.prems(2,3) keep_append [of "e # es" b "without (fst e) rest"] by (simp add: store_def)
  moreover have "set (keep (b - total_bytes (e # es)) (without (fst e) rest)) \<subseteq> set old"
    using set_keep [of "b - total_bytes (e # es)" "without (fst e) rest"] set_without [of "fst e" rest] r(2)
    by blast
  ultimately show ?case
    using r(1) by auto
qed simp

inductive disk_reach :: "'j cjson \<Rightarrow> disk_handler \<Rightarrow> lru_disk \<Rightarrow> bool" for J d where
  disk_start: "disk_reach J d (LRUCacheDiskHandler d n)"
| disk_put: "disk_reach J d h \<Longrightarrow> LRUCacheDiskHandler_Put h k v = Some h' \<Longrightarrow> disk_reach J d h'"
| disk_get: "disk_reach J d h \<Longrightarrow> LRUCacheDiskHandler_Get J h k = Some (h', v) \<Longrightarrow> disk_reach J d h'"
| disk_flush: "disk_reach J d h \<Longrightarrow> WriteCacheToJsonFile J h = Some h' \<Longrightarrow> disk_reach J d h'"
| disk_load: "disk_reach J d h \<Longrightarrow> ReadCacheFromJsonFile J h = Some h' \<Longrightarrow> disk_reach J d h'"
| disk_capacity: "disk_reach J d h \<Longrightarrow> SetCapacity J h n = Some h' \<Longrightarrow> disk_reach J d h'"
| disk_delete: "disk_reach J d h \<Longrightarrow> disk_reach J d (LRUCacheDiskHandler_Delete h)"

lemma Merge_ok:
  "lru_inv c \<Longrightarrow> \<exists>c'. LRUCache_MergeOtherCache c d = Some c' \<and> lru_inv c' \<and>
     lru_entries c' = fold (\<lambda>e. store (lru_room c) (fst e) (snd e)) (rev (lru_entries d)) (lru_entries c) \<and>
     lru_room c' = lru_room c"
  unfolding LRUCache_MergeOtherCache_eq by (rule lru.put_all_spec)

lemma ld_cache_WriteJson [simp]: "ld_cache (WriteJsonValueToFile J h r) = ld_cache h"
  "ld_capacity (WriteJsonValueToFile J h r) = ld_capacity h"
  by (auto simp: WriteJsonValueToFile_def split: option.splits)

lemma flush_ok:
  assumes "lru_inv (ld_cache h)"
  shows "\<exists>h'. WriteCacheToJsonFile J h = Some h' \<and> lru_inv (ld_cache h') \<and> ld_capacity h' = ld_capacity h"
proof (cases "ReadJsonValueFromFile J h")
  case None
  then show ?thesis using assms by (simp add: WriteCacheToJsonFile_def)
next
  case (Some root)
  obtain c1 where c1: "LRUCache_ReadCacheFromJsonValue J (LRUCache_new (ld_capacity h)) root = Some c1"
    "lru_inv c1"
    using read_new_ok [of J "ld_capacity h" root] by blast
  moreover obtain c2 where "LRUCache_MergeOtherCache c1 (ld_cache h) = Some c2"
    using Merge_ok [OF c1(2)] by blast
  ultimately show ?thesis
    using Some assms by (auto simp: WriteCacheToJsonFile_def lru_inv_Clear)
qed

lemma disk_get_ok:
  assumes "lru_inv (ld_cache h)"
  shows "\<exists>h' v. LRUCacheDiskHandler_Get J h k = Some (h', v) \<and> lru_inv (ld_cache h') \<and>
    ld_capacity h' = ld_capacity h"
proof -
  obtain c v where c: "LRUCache_Get (ld_cache h) k = Some (c, v)" "lru_inv c"
    using LRUCache_Get_ok [OF assms] by blast
  show ?thesis
  proof (cases "v = [] \<and> ReadJsonValueFromFile J (h\<lparr>ld_cache := c\<rparr>) \<noteq> None")
    case True
    then obtain root where r: "ReadJsonValueFromFile J (h\<lparr>ld_cache := c\<rparr>) = Some root" and "v = []"
      by auto
    obtain c1 where c1: "LRUCache_ReadCacheFromJsonValue J (LRUCache_new (ld_capacity h)) root = Some c1"
      "lru_inv c1"
      using read_new_ok [of J "ld_capacity h" root] by blast
    obtain c2 w where "LRUCache_Get c1 k = Some (c2, w)"
      using LRUCache_Get_ok [OF c1(2)] by blast
    moreover obtain c3 where "LRUCache_Put c k w = Some c3" "lru_inv c3"
      using LRUCache_Put_ok [OF c(2)] by blast
    ultimately show ?thesis
      using c c1 r \<open>v = []\<close> by (simp add: LRUCacheDiskHandler_Get_def)
  next
    case False
    then show ?thesis using c by (auto simp: LRUCacheDiskHandler_Get_def)
  qed
qed

lemma load_ok:
  assumes "lru_inv (ld_cache h)"
  shows "\<exists>h'. ReadCacheFromJsonFile J h = Some h' \<and> lru_inv (ld_cache h') \<and> ld_capacity h' = ld_capacity h"
proof (cases "ReadJsonValueFromFile J h")
  case None
  then show ?thesis using assms by (simp add: ReadCacheFromJsonFile_def)
next
  case (Some root)
  obtain c where "LRUCache_ReadCacheFromJsonValue J (ld_cache h) root = Some c" "lru_inv c"
    using ReadCacheFromJsonValue_ok [OF assms, where J = J and root = root] by blast
  with Some show ?thesis by (simp add: ReadCacheFromJsonFile_def)
qed

lemma disk_put_ok:
  "lru_inv (ld_cache h) \<Longrightarrow> \<exists>h'. LRUCacheDiskHandler_Put h k v = Some h' \<and> lru_inv (ld_cache h') \<and>
     ld_capacity h' = ld_capacity h"
  using LRUCache_Put_ok [of "ld_cache h" k v] by (auto simp: LRUCacheDiskHandler_Put_def)

lemma capacity_ok:
  "lru_inv (ld_cache h) \<Longrightarrow> \<exists>h'. SetCapacity J h n = Some h' \<and> lru_inv (ld_cache h') \<and>
     ld_capacity h' = max (min MAX_DISK_CACHE_SIZE n) MIN_DISK_CACHE_SIZE"
  unfolding SetCapacity_def
  using flush_ok [of "h\<lparr>ld_capacity := max (min MAX_DISK_CACHE_SIZE n) MIN_DISK_CACHE_SIZE\<rparr>"] by simp

definition disk_inv :: "lru_disk \<Rightarrow> bool" where
  "disk_inv h \<longleftrightarrow> lru_inv (ld_cache h) \<and> MIN_DISK_CACHE_SIZE \<le> ld_capacity h \<and>
     ld_capacity h \<le> MAX_DISK_CACHE_SIZE"

lemma disk_sizes: "MIN_DISK_CACHE_SIZE \<le> MAX_DISK_CACHE_SIZE" "MIN_DISK_CACHE_SIZE = MAX_SIZE"
  by (simp_all add: MIN_DISK_CACHE_SIZE_def MAX_DISK_CACHE_SIZE_def MAX_SIZE_def)

lemma disk_reach_inv: "disk_reach J d h \<Longrightarrow> disk_inv h"
proof (induction rule: disk_reach.induct)
  case (disk_start n)
  then show ?case using disk_sizes(1) by (simp add: disk_inv_def LRUCacheDiskHandler_def)
next
  case (disk_put h k v h')
  then show ?case using disk_put_ok [of h k v] by (auto simp: disk_inv_def)
next
  case (disk_get h k h' v)
  then show ?case using disk_get_ok [of h J k] by (auto simp: disk_inv_def)
next
  case (disk_flush h h')
  then show ?case using flush_ok [of h J] by (auto simp: disk_inv_def)
next
  case (disk_load h h')
  then show ?case using load_ok [of h J] by (auto simp: disk_inv_def)
next
  case (disk_capacity h n h')
  then show ?case using capacity_ok [of h J n] disk_sizes(1) by (auto simp: disk_inv_def)
next
  case (disk_delete h)
  then show ?case by (simp add: disk_inv_def LRUCacheDiskHandler_Delete_def lru_inv_Clear)
qed

text \<open>
  C21. Whatever the JSON library returns and whatever the file holds, in every reachable state of
  the disk cache each operation returns: no eviction loop runs forever and no dangling iterator is
  followed. The disk capacity stays between 1 MB and 10 MB and the memory cache within its own
  capacity.
\<close>

theorem disk_operations_return:
  assumes "disk_reach J d h"
  shows "(\<exists>h'. LRUCacheDiskHandler_Put h k v = Some h') \<and> (\<exists>h' w. LRUCacheDiskHandler_Get J h k = Some (h', w)) \<and>
    (\<exists>h'. WriteCacheToJsonFile J h = Some h') \<and> (\<exists>h'. ReadCacheFromJsonFile J h = Some h') \<and>
    (\<exists>h'. SetCapacity J h n = Some h') \<and>
    MIN_DISK_CACHE_SIZE \<le> ld_capacity h \<and> ld_capacity h \<le> MAX_DISK_CACHE_SIZE \<and>
    lc_size (ld_cache h) \<le> lc_capacity (ld_cache h)"
proof -
  have i: "disk_inv h" using assms by (rule disk_reach_inv)
  then have c: "lru_inv (ld_cache h)" by (simp add: disk_inv_def)
  show ?thesis
    using i disk_put_ok [OF c] disk_get_ok [OF c] flush_ok [OF c] load_ok [OF c] capacity_ok [OF c]
    unfolding disk_inv_def lru_inv_def by blast
qed

theorem disk_operations_return_witness:
  "\<exists>h'. WriteCacheToJsonFile tree_cjson
     (LRUCacheDiskHandler \<lparr>dh_fileName = ''f'', dh_content = None, dh_can_read = True, dh_can_write = True,
        dh_can_remove = True\<rparr> 0) = Some h'"
  using disk_operations_return [OF disk_start] by blast

lemma no_file_no_document:
  "dh_content (ld_disk h) = None \<Longrightarrow> cJSON_Parse J [] = None \<Longrightarrow> ReadJsonValueFromFile J h = None"
  by (simp add: ReadJsonValueFromFile_def DiskHandler_Read_def c_str_def)

lemma disk_get_disk: "LRUCacheDiskHandler_Get J h k = Some (h', v) \<Longrightarrow> ld_disk h' = ld_disk h"
  by (auto simp: LRUCacheDiskHandler_Get_def split: option.splits prod.splits if_splits)

text \<open>
  When the cache file does not exist, no sequence of operations creates it: the flush reads the
  file first, finds no JSON document in the empty text and returns before writing. The cache is
  then never persisted, although the directory is writable.
\<close>

lemma disk_file_never_created:
  assumes "disk_reach J d h" and "dh_content d = None" and "cJSON_Parse J [] = None"
  shows "dh_content (ld_disk h) = None"
  using assms(1)
proof (induction rule: disk_reach.induct)
  case (disk_start n)
  then show ?case using assms(2) by (simp add: LRUCacheDiskHandler_def)
next
  case (disk_put h k v h')
  then show ?case by (auto simp: LRUCacheDiskHandler_Put_def split: option.splits)
next
  case (disk_get h k h' v)
  then show ?case by (simp add: disk_get_disk)
next
  case (disk_flush h h')
  then show ?case using no_file_no_document [OF _ assms(3)] by (auto simp: WriteCacheToJsonFile_def)
next
  case (disk_load h h')
  then show ?case using no_file_no_document [OF _ assms(3)] by (auto simp: ReadCacheFromJsonFile_def)
next
  case (disk_capacity h n h')
  then show ?case
    using no_file_no_document [OF _ assms(3), of "h\<lparr>ld_capacity := _\<rparr>"]
    by (auto simp: SetCapacity_def WriteCacheToJsonFile_def)
next
  case (disk_delete h)
  then show ?case by (simp add: LRUCacheDiskHandler_Delete_def DiskHandler_Delete_def)
qed

section \<open>Flushing\<close>

text \<open>The cache that a flush writes: the memory cache before what it keeps of the file.\<close>

lemma flush_merges:
  assumes "cjson_laws J view" and "disk_inv h" and "storable (lru_entries (ld_cache h))"
    and "ReadJsonValueFromFile J h = Some root"
  shows "\<exists>c rest. WriteCacheToJsonFile J h = Some
      ((WriteJsonValueToFile J h (LRUCache_WriteCacheToJsonValue J c))\<lparr>ld_cache := LRUCache_Clear (ld_cache h)\<rparr>) \<and>
    lru_inv c \<and> storable (lru_entries c) \<and> lru_entries c = lru_entries (ld_cache h) @ rest"
proof -
  have inv: "lru_inv (ld_cache h)" using assms(2) by (simp add: disk_inv_def)
  obtain c1 where c1: "LRUCache_ReadCacheFromJsonValue J (LRUCache_new (ld_capacity h)) root = Some c1"
    "lru_inv c1" and room: "lru_room c1 = MAX_SIZE"
    using read_new_ok [of J "ld_capacity h" root] assms(2) disk_sizes(2) by (auto simp: disk_inv_def min_def)
  obtain c2 where c2: "LRUCache_MergeOtherCache c1 (ld_cache h) = Some c2" "lru_inv c2"
    and e: "lru_entries c2 = fold (\<lambda>e. store MAX_SIZE (fst e) (snd e)) (rev (lru_entries (ld_cache h))) (lru_entries c1)"
    using Merge_ok [OF c1(2), of "ld_cache h"] room by auto
  have "total_bytes (lru_entries (ld_cache h)) \<le> MAX_SIZE"
    using inv by (auto simp: lru_inv_def)
  then obtain rest where rest: "lru_entries c2 = lru_entries (ld_cache h) @ rest" "set rest \<subseteq> set (lru_entries c1)"
    using fold_store_front [of "lru_entries (ld_cache h)" MAX_SIZE "lru_entries c1"] lru.inv_entries [OF inv] e
    by auto
  have "storable (lru_entries c2)"
    using rest assms(3) ReadCacheFromJsonValue_storable [OF assms(1) c1(1)] by (auto simp: storable_def)
  then show ?thesis
    using c1(1) c2 rest(1) assms(4) by (auto simp: WriteCacheToJsonFile_def)
qed

lemma get_from_disk:
  assumes "lru_inv (ld_cache h)" and "lru_entries (ld_cache h) = []"
    and "ReadJsonValueFromFile J h = Some root"
    and "LRUCache_ReadCacheFromJsonValue J (LRUCache_new (ld_capacity h)) root = Some c" and "lru_inv c"
    and "map_of (lru_entries c) k = Some v"
  shows "\<exists>h'. LRUCacheDiskHandler_Get J h k = Some (h', v)"
proof -
  obtain c1 where c1: "LRUCache_Get (ld_cache h) k = Some (c1, [])" "lru_inv c1"
    using LRUCache_Get_ok [OF assms(1), of k] assms(2) by (auto simp: lookup_or_empty_def)
  have "ReadJsonValueFromFile J (h\<lparr>ld_cache := c1\<rparr>) = Some root"
    using assms(3) by (simp add: ReadJsonValueFromFile_def)
  moreover obtain c2 where "LRUCache_Get c k = Some (c2, v)"
    using LRUCache_Get_ok [OF assms(5), of k] assms(6) by (auto simp: lookup_or_empty_def)
  moreover obtain c3 where "LRUCache_Put c1 k v = Some c3"
    using LRUCache_Put_ok [OF c1(2)] by blast
  ultimately show ?thesis
    using c1(1) assms(4) by (simp add: LRUCacheDiskHandler_Get_def)
qed

text \<open>
  A flush loses nothing of the memory cache: when the file holds a JSON document and can be
  read and written, then after the flush \<open>Get\<close> returns, from the file, the value of every entry
  that was in memory.
\<close>

lemma disk_flush_then_get:
  assumes "cjson_laws J view" and "disk_reach J d h" and "storable (lru_entries (ld_cache h))"
    and "ReadJsonValueFromFile J h = Some root"
    and "dh_can_read (ld_disk h)" and "dh_can_write (ld_disk h)"
    and "map_of (lru_entries (ld_cache h)) k = Some v"
  shows "\<exists>h1 h2. WriteCacheToJsonFile J h = Some h1 \<and> lru_entries (ld_cache h1) = [] \<and>
    LRUCacheDiskHandler_Get J h1 k = Some (h2, v)"
proof -
  have i: "disk_inv h" using assms(2) by (rule disk_reach_inv)
  then have inv: "lru_inv (ld_cache h)" by (simp add: disk_inv_def)
  obtain c rest where c: "lru_inv c" "storable (lru_entries c)" "lru_entries c = lru_entries (ld_cache h) @ rest"
    and h1: "WriteCacheToJsonFile J h = Some
      ((WriteJsonValueToFile J h (LRUCache_WriteCacheToJsonValue J c))\<lparr>ld_cache := LRUCache_Clear (ld_cache h)\<rparr>)"
    using flush_merges [OF assms(1) i assms(3,4)] by blast
  let ?h1 = "(WriteJsonValueToFile J h (LRUCache_WriteCacheToJsonValue J c))\<lparr>ld_cache := LRUCache_Clear (ld_cache h)\<rparr>"
  have doc: "view (LRUCache_WriteCacheToJsonValue J c) = JObject (nodes_doc 0 (lru_entries c))"
    using view_WriteCacheToJsonValue [OF assms(1) c(2)] .
  then obtain t r where t: "cJSON_Print J (LRUCache_WriteCacheToJsonValue J c) = Some t" "NUL \<notin> set t"
    "cJSON_Parse J t = Some r" "view r = JObject (nodes_doc 0 (lru_entries c))"
    using cjson_lawsD(10) [OF assms(1)] by metis
  have fl: "ReadJsonValueFromFile J ?h1 = Some r"
    using t assms(5,6) by (simp add: ReadJsonValueFromFile_def WriteJsonValueToFile_def DiskHandler_Write_def
        DiskHandler_Read_def)
  have room: "lru_room (LRUCache_new (ld_capacity ?h1)) = MAX_SIZE"
    using i disk_sizes(2) by (simp add: reach_new_empty disk_inv_def min_def)
  have bytes: "total_bytes (lru_entries c) \<le> MAX_SIZE" using c(1) by (auto simp: lru_inv_def)
  obtain c' where c': "LRUCache_ReadCacheFromJsonValue J (LRUCache_new (ld_capacity ?h1)) r = Some c'" "lru_inv c'"
    "lru_entries c' = lru_entries c"
    using read_written [OF assms(1) t(4) c(2) _ _ bytes lru_inv_new [of "ld_capacity ?h1"] reach_new_empty(1)]
      lru.inv_entries [OF c(1)] keep_all [OF bytes] room by auto
  have "map_of (lru_entries c') k = Some v"
    using assms(7) c(3) c'(3) by (simp add: map_add_def)
  then show ?thesis
    using h1 get_from_disk [OF _ _ fl c'(1,2)] lru_inv_Clear(1,2) [OF inv] by auto
qed

end
