(* ===== verification/Base64.thy ===== *)
theory Base64
  imports Netstack_Prelude
begin

unbundle bit_operations_syntax

text \<open>
  \<open>Base64::Encode\<close> and \<open>Base64::Decode\<close>
  (\<open>interfaces/innerkits/http_client/cache/base64/src/http_client_base64_utils.cpp\<close>), which the
  response cache uses for its keys and values: the two loops with their index and their scratch
  arrays, over bytes. A chunk-wise reference encoder carries the round trip.
\<close>

section \<open>Tables and bit shuffling\<close>

definition BASE64_CHARS :: string where
  "BASE64_CHARS = ''ABCDEFGHIJKLMNOPQRSTUVWXYZabcdefghijklmnopqrstuvwxyz0123456789+/''"

definition IsBase64Char :: "char \<Rightarrow> bool" where
  "IsBase64Char c \<longleftrightarrow> is_alnum c \<or> c = CHR ''+'' \<or> c = CHR ''/''"

text \<open>\<open>BASE64_CHARS[idx]\<close>, and \<open>BASE64_CHARS.find(c)\<close> stored into a \<open>uint8_t\<close> (\<open>npos\<close> becomes 255).\<close>

definition base64_at :: "byte \<Rightarrow> char" where
  "base64_at idx = BASE64_CHARS ! unat idx"

definition base64_find :: "char \<Rightarrow> byte" where
  "base64_find c = (case find_sub [c] BASE64_CHARS of None \<Rightarrow> 255 | Some i \<Rightarrow> of_nat i)"

definition MakeCharFour :: "byte list \<Rightarrow> byte list" where
  "MakeCharFour a =
     [drop_bit 2 (a ! 0 AND 0xfc),
      push_bit 4 (a ! 0 AND 0x03) + drop_bit 4 (a ! 1 AND 0xf0),
      push_bit 2 (a ! 1 AND 0x0f) + drop_bit 6 (a ! 2 AND 0xc0),
      a ! 2 AND 0x3f]"

definition MakeCharTree :: "byte list \<Rightarrow> byte list" where
  "MakeCharTree a =
     [push_bit 2 (a ! 0) + drop_bit 4 (a ! 1 AND 0x30),
      push_bit 4 (a ! 1 AND 0x0f) + drop_bit 2 (a ! 2 AND 0x3c),
      push_bit 6 (a ! 2 AND 0x03) + a ! 3]"

section \<open>Encode and Decode\<close>

fun Encode_loop :: "string \<Rightarrow> nat \<Rightarrow> byte list \<Rightarrow> string \<Rightarrow> nat \<times> byte list \<times> string" where
  "Encode_loop [] index three ret = (index, three, ret)"
| "Encode_loop (c # cs) index three ret =
     (let three' = three[index := char_to_byte c]
      in if Suc index \<noteq> 3 then Encode_loop cs (Suc index) three' ret
         else Encode_loop cs 0 three' (ret @ map base64_at (MakeCharFour three')))"

definition Encode :: "string \<Rightarrow> string" where
  "Encode source =
     (case Encode_loop source 0 [0, 0, 0] [] of
        (index, three, ret) \<Rightarrow>
          if index = 0 then ret
          else let three' = take index three @ replicate (3 - index) 0;
                   four = MakeCharFour three'
               in ret @ map base64_at (take (index + 1) four) @ replicate (3 - index) (CHR ''=''))"

fun Decode_loop :: "string \<Rightarrow> nat \<Rightarrow> byte list \<Rightarrow> string \<Rightarrow> nat \<times> byte list \<times> string" where
  "Decode_loop [] index four ret = (index, four, ret)"
| "Decode_loop (c # cs) index four ret =
     (if \<not> IsBase64Char c then (index, four, ret)
      else let four' = four[index := char_to_byte c]
           in if Suc index \<noteq> 4 then Decode_loop cs (Suc index) four' ret
              else let four'' = map (\<lambda>b. base64_find (byte_to_char b)) four'
                   in Decode_loop cs 0 four'' (ret @ map byte_to_char (MakeCharTree four'')))"

definition Decode :: "string \<Rightarrow> string" where
  "Decode encoded =
     (case Decode_loop encoded 0 [0, 0, 0, 0] [] of
        (index, four, ret) \<Rightarrow>
          if index = 0 then ret
          else let four' = take index four @ replicate (4 - index) 0;
                   four'' = map (\<lambda>b. base64_find (byte_to_char b)) four'
               in ret @ map byte_to_char (take (index - 1) (MakeCharTree four'')))"

section \<open>The alphabet\<close>

lemma length_BASE64_CHARS [simp]: "length BASE64_CHARS = 64"
  by (simp add: BASE64_CHARS_def)

lemma distinct_BASE64_CHARS: "distinct BASE64_CHARS"
  by (simp add: BASE64_CHARS_def)

lemma find_sub_nth: "distinct s \<Longrightarrow> i < length s \<Longrightarrow> find_sub [s ! i] s = Some i"
proof (induction s arbitrary: i)
  case (Cons x xs)
  then show ?case by (cases i) auto
qed simp

lemma base64_find_at [simp]: "unat b < 64 \<Longrightarrow> base64_find (base64_at b) = b"
  by (simp add: base64_find_def base64_at_def find_sub_nth distinct_BASE64_CHARS)

lemma BASE64_CHARS_ok: "c \<in> set BASE64_CHARS \<Longrightarrow> IsBase64Char c"
proof -
  have "\<forall>c \<in> set BASE64_CHARS. IsBase64Char c"
    by (simp add: BASE64_CHARS_def IsBase64Char_def is_alnum_def is_upper_def is_lower_def
        is_digit_def less_eq_char_def)
  then show "c \<in> set BASE64_CHARS \<Longrightarrow> IsBase64Char c" by blast
qed

lemma IsBase64Char_at [simp]: "unat b < 64 \<Longrightarrow> IsBase64Char (base64_at b)"
  by (simp add: base64_at_def BASE64_CHARS_ok)

lemma not_IsBase64Char_eq [simp]: "\<not> IsBase64Char (CHR ''='')"
  by (simp add: IsBase64Char_def is_alnum_def is_upper_def is_lower_def is_digit_def less_eq_char_def)

section \<open>Bit shuffling is invertible\<close>

lemma byte_eqI:
  fixes a b :: byte
  assumes "bit a 0 = bit b 0" and "bit a 1 = bit b 1" and "bit a 2 = bit b 2"
    and "bit a 3 = bit b 3" and "bit a 4 = bit b 4" and "bit a 5 = bit b 5"
    and "bit a 6 = bit b 6" and "bit a 7 = bit b 7"
  shows "a = b"
proof (rule bit_word_eqI)
  fix n :: nat
  assume "n < LENGTH(8)"
  then have "n = 0 \<or> n = 1 \<or> n = 2 \<or> n = 3 \<or> n = 4 \<or> n = 5 \<or> n = 6 \<or> n = 7"
    by auto
  then show "bit a n = bit b n"
    using assms by auto
qed

lemma byte_below_64: "(x :: byte) AND 0x3f = x \<Longrightarrow> unat x < 64"
proof -
  assume "x AND 0x3f = x"
  moreover have "x AND 0x3f \<le> 0x3f" by (rule word_and_le1)
  ultimately have "x \<le> 0x3f" by simp
  then show "unat x < 64" by (simp add: word_le_nat_alt)
qed

text \<open>The two summands never share a bit, so each sum is a disjunction.\<close>

lemma byte_add_or: "(x :: byte) AND y = 0 \<Longrightarrow> x + y = x OR y"
proof (rule disjunctive_add)
  fix n
  assume "x AND y = 0"
  then have "\<not> bit (x AND y) n" by simp
  then show "\<not> bit x n \<or> \<not> bit y n" by (simp add: bit_and_iff)
qed

lemma four_or:
  fixes a b :: byte
  shows "push_bit 4 (a AND 0x03) + drop_bit 4 (b AND 0xf0) = push_bit 4 (a AND 0x03) OR drop_bit 4 (b AND 0xf0)"
    and "push_bit 2 (a AND 0x0f) + drop_bit 6 (b AND 0xc0) = push_bit 2 (a AND 0x0f) OR drop_bit 6 (b AND 0xc0)"
  by (rule byte_add_or, rule byte_eqI; simp add: bit_simps)+

lemma tree_or:
  fixes a b :: byte
  shows "push_bit 2 a + drop_bit 4 (b AND 0x30) = push_bit 2 a OR drop_bit 4 (b AND 0x30)"
    and "push_bit 4 (a AND 0x0f) + drop_bit 2 (b AND 0x3c) = push_bit 4 (a AND 0x0f) OR drop_bit 2 (b AND 0x3c)"
    and "push_bit 6 (a AND 0x03) + (b AND 0x3f) = push_bit 6 (a AND 0x03) OR (b AND 0x3f)"
  by (rule byte_add_or, rule byte_eqI; simp add: bit_simps)+

lemma length_MakeCharFour [simp]: "length (MakeCharFour a) = 4"
  by (simp add: MakeCharFour_def)

lemma MakeCharFour_bound:
  assumes "b \<in> set (MakeCharFour a)"
  shows "unat b < 64"
proof (rule byte_below_64)
  from assms consider "b = drop_bit 2 (a ! 0 AND 0xfc)" | "b = a ! 2 AND 0x3f"
    | "b = push_bit 4 (a ! 0 AND 0x03) OR drop_bit 4 (a ! 1 AND 0xf0)"
    | "b = push_bit 2 (a ! 1 AND 0x0f) OR drop_bit 6 (a ! 2 AND 0xc0)"
    unfolding MakeCharFour_def four_or by auto
  then show "b AND 0x3f = b"
    by cases (simp only:, rule byte_eqI; simp add: bit_simps)+
qed

lemma MakeCharFour_or:
  "MakeCharFour [a, b, c] =
     [drop_bit 2 (a AND 0xfc), push_bit 4 (a AND 0x03) OR drop_bit 4 (b AND 0xf0),
      push_bit 2 (b AND 0x0f) OR drop_bit 6 (c AND 0xc0), c AND 0x3f]"
  unfolding MakeCharFour_def four_or by simp

lemma MakeCharTree_or:
  "MakeCharTree [a, b, c, d AND 0x3f] =
     [push_bit 2 a OR drop_bit 4 (b AND 0x30),
      push_bit 4 (b AND 0x0f) OR drop_bit 2 (c AND 0x3c),
      push_bit 6 (c AND 0x03) OR (d AND 0x3f)]"
proof -
  have "[a, b, c, d AND 0x3f] ! 0 = a" and "[a, b, c, d AND 0x3f] ! 1 = b"
    and "[a, b, c, d AND 0x3f] ! 2 = c" and "[a, b, c, d AND 0x3f] ! 3 = d AND 0x3f"
    by simp_all
  then show ?thesis
    by (simp only: MakeCharTree_def tree_or)
qed

lemma MakeCharTree_MakeCharFour:
  "MakeCharTree (MakeCharFour [a, b, c]) = [a, b, c]"
proof -
  have "push_bit 2 (drop_bit 2 (a AND 0xfc)) OR
      drop_bit 4 ((push_bit 4 (a AND 0x03) OR drop_bit 4 (b AND 0xf0)) AND 0x30) = a"
    by (rule byte_eqI; simp add: bit_simps)
  moreover have "push_bit 4 ((push_bit 4 (a AND 0x03) OR drop_bit 4 (b AND 0xf0)) AND 0x0f) OR
      drop_bit 2 ((push_bit 2 (b AND 0x0f) OR drop_bit 6 (c AND 0xc0)) AND 0x3c) = b"
    by (rule byte_eqI; simp add: bit_simps)
  moreover have "push_bit 6 ((push_bit 2 (b AND 0x0f) OR drop_bit 6 (c AND 0xc0)) AND 0x03) OR
      (c AND 0x3f) = c"
    by (rule byte_eqI; simp add: bit_simps)
  ultimately show ?thesis
    by (simp only: MakeCharFour_or MakeCharTree_or)
qed

text \<open>The first output bytes depend on the first input digits only, so padding is harmless.\<close>

lemma MakeCharTree_prefix:
  "take 1 (MakeCharTree (x # y # u)) = take 1 (MakeCharTree (x # y # v))"
  "take 2 (MakeCharTree (x # y # z # u)) = take 2 (MakeCharTree (x # y # z # v))"
  by (simp_all add: MakeCharTree_def)

lemma MakeCharFour_Cons:
  "\<exists>w x y z. MakeCharFour a = [w, x, y, z]"
  by (simp add: MakeCharFour_def)

section \<open>The reference encoder\<close>

abbreviation enc3 :: "char \<Rightarrow> char \<Rightarrow> char \<Rightarrow> string" where
  "enc3 a b c \<equiv> map base64_at (MakeCharFour [char_to_byte a, char_to_byte b, char_to_byte c])"

fun encode_ref :: "string \<Rightarrow> string" where
  "encode_ref [] = []"
| "encode_ref [a] = take 2 (map base64_at (MakeCharFour [char_to_byte a, 0, 0])) @ ''==''"
| "encode_ref [a, b] =
     take 3 (map base64_at (MakeCharFour [char_to_byte a, char_to_byte b, 0])) @ ''=''"
| "encode_ref (a # b # c # s) = enc3 a b c @ encode_ref s"

lemma length3_Cons: "length xs = 3 \<Longrightarrow> \<exists>x y z. xs = [x, y, z]"
  by (auto simp: numeral_3_eq_3 length_Suc_conv)

lemma Encode_loop_eq:
  "length three = 3 \<Longrightarrow>
     (case Encode_loop s 0 three ret of
        (index, three, ret) \<Rightarrow>
          if index = 0 then ret
          else let three' = take index three @ replicate (3 - index) 0;
                   four = MakeCharFour three'
               in ret @ map base64_at (take (index + 1) four) @ replicate (3 - index) (CHR ''=''))
     = ret @ encode_ref s"
proof (induction s arbitrary: three ret rule: encode_ref.induct)
  case (2 a)
  then show ?case by (auto dest!: length3_Cons simp: take_map numeral_2_eq_2)
next
  case (3 a b)
  obtain x y z where "three = [x, y, z]"
    using length3_Cons [OF "3.prems"] by blast
  then show ?case by (simp add: take_map numeral_3_eq_3)
next
  case (4 a b c s)
  obtain x y z where "three = [x, y, z]"
    using length3_Cons [OF "4.prems"] by blast
  then show ?case
    using "4.IH" [of "[char_to_byte a, char_to_byte b, char_to_byte c]" "ret @ enc3 a b c"]
    by simp
qed simp

lemma Encode_eq_ref: "Encode s = encode_ref s"
  using Encode_loop_eq [of "[0, 0, 0]" s "[]"] by (simp add: Encode_def)

section \<open>Decoding what was encoded\<close>

lemma length4_Cons: "length xs = 4 \<Longrightarrow> \<exists>w x y z. xs = [w, x, y, z]"
  by (auto simp: numeral_eq_Suc length_Suc_conv)

lemma MakeCharFour_list: "\<exists>w x y z. MakeCharFour a = [w, x, y, z] \<and>
    unat w < 64 \<and> unat x < 64 \<and> unat y < 64 \<and> unat z < 64"
  using length4_Cons [of "MakeCharFour a"] MakeCharFour_bound [of _ a] by force

lemma Decode_loop_enc3:
  assumes "length four = 4"
  shows "\<exists>four'. length four' = 4 \<and>
    Decode_loop (enc3 a b c @ s) 0 four ret = Decode_loop s 0 four' (ret @ [a, b, c])"
proof -
  obtain w x y z where m: "MakeCharFour [char_to_byte a, char_to_byte b, char_to_byte c] = [w, x, y, z]"
    and bounds: "unat w < 64" "unat x < 64" "unat y < 64" "unat z < 64"
    using MakeCharFour_list by blast
  obtain p q r t where "four = [p, q, r, t]"
    using length4_Cons [OF assms] by blast
  moreover have "map byte_to_char (MakeCharTree [w, x, y, z]) = [a, b, c]"
    using MakeCharTree_MakeCharFour [of "char_to_byte a" "char_to_byte b" "char_to_byte c"]
    by (simp add: m)
  ultimately show ?thesis
    using bounds by (intro exI [of _ "[w, x, y, z]"]) (simp add: m)
qed

lemma Decode_loop_encode:
  assumes "length four = 4"
  shows "(case Decode_loop (encode_ref s) 0 four ret of
        (index, four, ret) \<Rightarrow>
          if index = 0 then ret
          else let four' = take index four @ replicate (4 - index) 0;
                   four'' = map (\<lambda>b. base64_find (byte_to_char b)) four'
               in ret @ map byte_to_char (take (index - 1) (MakeCharTree four''))) = ret @ s"
  using assms
proof (induction s arbitrary: four ret rule: encode_ref.induct)
  case (2 a)
  obtain p q r t where f: "four = [p, q, r, t]"
    using length4_Cons [OF "2.prems"] by blast
  obtain w x y z where m: "MakeCharFour [char_to_byte a, 0, 0] = [w, x, y, z]"
    and bounds: "unat w < 64" "unat x < 64"
    using MakeCharFour_list by blast
  have "take 1 (MakeCharTree (w # x # u)) = [char_to_byte a]" for u
    using MakeCharTree_prefix(1) [of w x u "[y, z]"] MakeCharTree_MakeCharFour [of "char_to_byte a" 0 0]
    by (simp add: m)
  then show ?case
    using f bounds by (simp add: m numeral_2_eq_2)
next
  case (3 a b)
  obtain p q r t where f: "four = [p, q, r, t]"
    using length4_Cons [OF "3.prems"] by blast
  obtain w x y z where m: "MakeCharFour [char_to_byte a, char_to_byte b, 0] = [w, x, y, z]"
    and bounds: "unat w < 64" "unat x < 64" "unat y < 64"
    using MakeCharFour_list by blast
  have "take 2 (MakeCharTree (w # x # y # u)) = [char_to_byte a, char_to_byte b]" for u
    using MakeCharTree_prefix(2) [of w x y u "[z]"]
      MakeCharTree_MakeCharFour [of "char_to_byte a" "char_to_byte b" 0]
    by (simp add: m)
  then show ?case
    using f bounds by (simp add: m numeral_3_eq_3 numeral_2_eq_2)
next
  case (4 a b c s)
  then show ?case
    using Decode_loop_enc3 [of four a b c "encode_ref s" ret] by fastforce
qed simp

lemma Decode_Encode [simp]: "Decode (Encode s) = s"
  using Decode_loop_encode [of "[0, 0, 0, 0]" s "[]"] by (simp add: Decode_def Encode_eq_ref)

lemma inj_Encode: "inj Encode"
  by (metis Decode_Encode injI)

text \<open>C12. Decoding an encoded byte string gives it back, for every byte string and every length.\<close>

theorem base64_roundtrip: "Decode (Encode s) = s"
  by (rule Decode_Encode)

text \<open>
  The encoded string consists of whole groups of four characters, one group per three input
  bytes begun, of the base64 alphabet and the padding character only.
\<close>

lemma base64_encode_shape:
  "length (Encode s) = 4 * ((length s + 2) div 3) \<and>
   set (Encode s) \<subseteq> insert (CHR ''='') (set BASE64_CHARS)"
proof -
  have at: "base64_at b \<in> set BASE64_CHARS" if "b \<in> set (MakeCharFour a)" for a b
    using MakeCharFour_bound [OF that] by (simp add: base64_at_def)
  have "length (encode_ref s) = 4 * ((length s + 2) div 3) \<and>
      set (encode_ref s) \<subseteq> insert (CHR ''='') (set BASE64_CHARS)"
  proof (induction s rule: encode_ref.induct)
    case (4 a b c s)
    have "(length (a # b # c # s) + 2) div 3 = Suc ((length s + 2) div 3)"
      by simp
    then show ?case using 4 at by auto
  qed (auto dest!: in_set_takeD simp: at)
  then show ?thesis by (simp add: Encode_eq_ref)
qed

end
