(* ===== verification/Std_Regex.thy ===== *)
theory Std_Regex
  imports Netstack_Prelude
begin

text \<open>
  \<open>std::regex_match\<close> for the regular expressions the sources use (ECMAScript syntax without
  captures read back, assertions or back references): an abstract syntax of the constructs,
  an executable matcher by derivatives, and its agreement with the language of the expression.
  \<open>regex_compile\<close> is \<open>std::regex(const std::string &)\<close> on the fragment of the concrete syntax that
  \<open>CommonUtils::IsMatch\<close> produces at run time; \<open>None\<close> is the exception \<open>std::regex_error\<close>.
\<close>

datatype rexp =
    REps
  | RCls "char \<Rightarrow> bool"
  | RAlt rexp rexp
  | RSeq rexp rexp
  | RStar rexp
  | RNone

abbreviation RChr :: "char \<Rightarrow> rexp" where
  "RChr c \<equiv> RCls (\<lambda>x. x = c)"

abbreviation RRange :: "char \<Rightarrow> char \<Rightarrow> rexp" where
  "RRange a b \<equiv> RCls (\<lambda>x. a \<le> x \<and> x \<le> b)"

fun RAlts :: "rexp list \<Rightarrow> rexp" where
  "RAlts [] = RNone"
| "RAlts [r] = r"
| "RAlts (r # rs) = RAlt r (RAlts rs)"

fun RSeqs :: "rexp list \<Rightarrow> rexp" where
  "RSeqs [] = REps"
| "RSeqs (r # rs) = RSeq r (RSeqs rs)"

text \<open>\<open>r{lo,hi}\<close>\<close>

fun RRep :: "rexp \<Rightarrow> nat \<Rightarrow> nat \<Rightarrow> rexp" where
  "RRep r lo 0 = REps"
| "RRep r lo (Suc hi) =
     (if lo = 0 then RAlt REps (RSeq r (RRep r 0 hi)) else RSeq r (RRep r (lo - 1) hi))"

fun nullable :: "rexp \<Rightarrow> bool" where
  "nullable REps = True"
| "nullable (RCls P) = False"
| "nullable (RAlt r s) = (nullable r \<or> nullable s)"
| "nullable (RSeq r s) = (nullable r \<and> nullable s)"
| "nullable (RStar r) = True"
| "nullable RNone = False"

fun deriv :: "char \<Rightarrow> rexp \<Rightarrow> rexp" where
  "deriv c REps = RNone"
| "deriv c (RCls P) = (if P c then REps else RNone)"
| "deriv c (RAlt r s) = RAlt (deriv c r) (deriv c s)"
| "deriv c (RSeq r s) =
     (if nullable r then RAlt (RSeq (deriv c r) s) (deriv c s) else RSeq (deriv c r) s)"
| "deriv c (RStar r) = RSeq (deriv c r) (RStar r)"
| "deriv c RNone = RNone"

definition regex_match :: "string \<Rightarrow> rexp \<Rightarrow> bool" where
  "regex_match s r = nullable (fold deriv s r)"

section \<open>The matcher decides the language\<close>

inductive_set star :: "string set \<Rightarrow> string set" for A where
  star_Nil: "[] \<in> star A"
| star_append: "u \<in> A \<Longrightarrow> v \<in> star A \<Longrightarrow> u @ v \<in> star A"

fun rlang :: "rexp \<Rightarrow> string set" where
  "rlang REps = {[]}"
| "rlang (RCls P) = {[c] |c. P c}"
| "rlang (RAlt r s) = rlang r \<union> rlang s"
| "rlang (RSeq r s) = {u @ v |u v. u \<in> rlang r \<and> v \<in> rlang s}"
| "rlang (RStar r) = star (rlang r)"
| "rlang RNone = {}"

lemma star_ConsD: "w \<in> star A \<Longrightarrow> w = c # s \<Longrightarrow> \<exists>u v. s = u @ v \<and> c # u \<in> A \<and> v \<in> star A"
  by (induction arbitrary: s rule: star.induct) (auto simp: append_eq_Cons_conv)

lemma nullable_rlang: "nullable r \<longleftrightarrow> [] \<in> rlang r"
  by (induction r) (auto intro: star.intros)

lemma deriv_rlang: "s \<in> rlang (deriv c r) \<longleftrightarrow> c # s \<in> rlang r"
proof (induction r arbitrary: s)
  case (RSeq r1 r2)
  have "c # s \<in> rlang (RSeq r1 r2) \<longleftrightarrow>
      ([] \<in> rlang r1 \<and> c # s \<in> rlang r2) \<or>
      (\<exists>u v. s = u @ v \<and> c # u \<in> rlang r1 \<and> v \<in> rlang r2)"
    by (auto simp: Cons_eq_append_conv)
  then show ?case
    using RSeq by (auto simp: nullable_rlang)
next
  case (RStar r)
  have "c # s \<in> star (rlang r) \<longleftrightarrow> (\<exists>u v. s = u @ v \<and> c # u \<in> rlang r \<and> v \<in> star (rlang r))"
    using star_ConsD [of "c # s" "rlang r" c s] star.star_append [of "c # _" "rlang r"] by fastforce
  then show ?case
    using RStar by auto
qed auto

lemma regex_match_iff: "regex_match s r \<longleftrightarrow> s \<in> rlang r"
  unfolding regex_match_def
  by (induction s arbitrary: r) (auto simp: nullable_rlang deriv_rlang)

section \<open>Compiling the fragment of the concrete syntax\<close>

text \<open>\<open>.\<close> matches any character but a line terminator.\<close>

definition RAny :: rexp where
  "RAny = RCls (\<lambda>c. c \<noteq> CHR 0x0A \<and> c \<noteq> CHR 0x0D)"

definition regex_literal :: "char \<Rightarrow> bool" where
  "regex_literal c \<longleftrightarrow> is_alnum c \<or> c = CHR ''-'' \<or> c = CHR ''_''"

text \<open>One atom: an escaped character, the dot, or a literal character.\<close>

fun regex_atom :: "string \<Rightarrow> (rexp \<times> string) option" where
  "regex_atom [] = None"
| "regex_atom [c] =
     (if c = CHR 0x5C then None
      else if c = CHR ''.'' then Some (RAny, [])
      else if regex_literal c then Some (RChr c, []) else None)"
| "regex_atom (c # d # s) =
     (if c = CHR 0x5C then (if d = CHR ''.'' then Some (RChr d, s) else None)
      else if c = CHR ''.'' then Some (RAny, d # s)
      else if regex_literal c then Some (RChr c, d # s) else None)"

lemma regex_atom_length: "regex_atom s = Some (r, t) \<Longrightarrow> length t < length s"
  by (induction s rule: regex_atom.induct) (auto split: if_splits)

function regex_compile :: "string \<Rightarrow> rexp option" where
  "regex_compile s =
     (if s = [] then Some REps
      else case regex_atom s of
        None \<Rightarrow> None
      | Some (r, t) \<Rightarrow>
          (case t of
             [] \<Rightarrow> map_option (RSeq r) (regex_compile [])
           | c # u \<Rightarrow>
               if c = CHR ''*'' then map_option (RSeq (RStar r)) (regex_compile u)
               else map_option (RSeq r) (regex_compile t)))"
  by pat_completeness auto
termination
  by (relation "measure length") (auto dest: regex_atom_length)

declare regex_compile.simps [simp del]

end
