(* ===== verification/Common_Utils.thy ===== *)
theory Common_Utils
  imports Std_Regex
begin

text \<open>
  \<open>utils/common_utils/src/netstack_common_utils.cpp\<close>: the string helpers every other component
  calls (splitting, stripping, URL dissection, host exclusion lists, IP masking, public key
  pins). Loops are recursive functions with the loop variables as arguments;
  \<open>inet_pton\<close>, the network security configuration and the API policy library are parameters of
  the functions that call them.
\<close>

section \<open>Splitting and trimming\<close>

function Split_loop :: "string \<Rightarrow> string \<Rightarrow> string list \<Rightarrow> string list" where
  "Split_loop sep s res =
     (if s = [] \<or> sep = [] then res
      else case find_sub sep s of
        None \<Rightarrow> res @ [s]
      | Some pos \<Rightarrow> Split_loop sep (drop (pos + length sep) s) (res @ [take pos s]))"
  by pat_completeness auto
termination
  by (relation "measure (\<lambda>(sep, s, res). length s)") (auto dest: find_sub_bound)

declare Split_loop.simps [simp del]

definition Split :: "string \<Rightarrow> string \<Rightarrow> string list" where
  "Split str sep = (if sep = [] then [str] else Split_loop sep str [])"

text \<open>The overload with a maximal number of pieces.\<close>

function Split_n_loop :: "string \<Rightarrow> nat \<Rightarrow> string \<Rightarrow> string list \<Rightarrow> string list" where
  "Split_n_loop sep n s res =
     (if s = [] \<or> sep = [] then res
      else if length res + 1 = n then res @ [s]
      else case find_sub sep s of
        None \<Rightarrow> res @ [s]
      | Some pos \<Rightarrow> Split_n_loop sep n (drop (pos + length sep) s) (res @ [take pos s]))"
  by pat_completeness auto
termination
  by (relation "measure (\<lambda>(sep, n, s, res). length s)") (auto dest: find_sub_bound)

declare Split_n_loop.simps [simp del]

definition Split_n :: "string \<Rightarrow> string \<Rightarrow> nat \<Rightarrow> string list" where
  "Split_n str sep n = (if sep = [] then [str] else Split_n_loop sep n str [])"

text \<open>The two index loops of \<open>Strip\<close>, with \<open>int64_t\<close> indices.\<close>

function Strip_left :: "string \<Rightarrow> char \<Rightarrow> nat \<Rightarrow> nat" where
  "Strip_left str ch i = (if i < length str \<and> str ! i = ch then Strip_left str ch (Suc i) else i)"
  by pat_completeness auto
termination
  by (relation "measure (\<lambda>(str, ch, i). length str - i)") auto

fun Strip_right :: "string \<Rightarrow> char \<Rightarrow> nat \<Rightarrow> nat" where
  "Strip_right str ch 0 = 0"
| "Strip_right str ch (Suc j) = (if str ! Suc j = ch then Strip_right str ch j else Suc j)"

declare Strip_left.simps [simp del]

definition Strip :: "string \<Rightarrow> char \<Rightarrow> string" where
  "Strip str ch =
     (if str = [] then []  \<comment> \<open>\<open>j\<close> is -1 and the final test fails\<close>
      else let i = Strip_left str ch 0;
               j = Strip_right str ch (length str - 1)
           in if i < length str \<and> j < length str \<and> i < j + 1
              then take (j + 1 - i) (drop i str) else [])"

definition ToLower :: "string \<Rightarrow> string" where
  "ToLower s = map to_lower_char s"

fun ToString_loop :: "string list \<Rightarrow> char \<Rightarrow> bool \<Rightarrow> string \<Rightarrow> string" where
  "ToString_loop [] tab first str = str"
| "ToString_loop (s # ss) tab first str =
     ToString_loop ss tab False ((if first then str else str @ [tab]) @ s)"

definition ToString :: "string list \<Rightarrow> char \<Rightarrow> string" where
  "ToString ls tab = ToString_loop ls tab True []"

definition EndsWith :: "string \<Rightarrow> string \<Rightarrow> bool" where
  "EndsWith str suf =
     (if length str < length suf then False else drop (length str - length suf) str = suf)"

text \<open>\<open>find_first_not_of\<close> and \<open>find_last_not_of\<close> on a set of characters.\<close>

definition find_first_not_of :: "(char \<Rightarrow> bool) \<Rightarrow> string \<Rightarrow> nat \<Rightarrow> nat option" where
  "find_first_not_of P s pos =
     (let n = length (takeWhile P (drop pos s))
      in if pos + n < length s then Some (pos + n) else None)"

definition find_last_not_of :: "(char \<Rightarrow> bool) \<Rightarrow> string \<Rightarrow> nat option" where
  "find_last_not_of P s =
     (let n = length (takeWhile P (rev s))
      in if n < length s then Some (length s - 1 - n) else None)"

definition trim_char :: "char \<Rightarrow> bool" where
  "trim_char c \<longleftrightarrow> c \<in> {CHR '' '', CHR 0x09, CHR 0x0A, CHR 0x0D}"

definition Trim :: "string \<Rightarrow> string" where
  "Trim str =
     (case (find_first_not_of trim_char str 0, find_last_not_of trim_char str) of
        (Some start, Some end') \<Rightarrow> take (end' - start + 1) (drop start str)
      | _ \<Rightarrow> [])"

section \<open>URLs\<close>

definition delimiter :: string where
  "delimiter = ''://''"

text \<open>\<open>std::min\<close> of positions, where \<open>npos\<close> is the largest.\<close>

fun min_pos :: "nat option list \<Rightarrow> nat option" where
  "min_pos [] = None"
| "min_pos (None # ps) = min_pos ps"
| "min_pos (Some p # ps) = (case min_pos ps of None \<Rightarrow> Some p | Some q \<Rightarrow> Some (min p q))"

definition GetProtocolFromURL :: "string \<Rightarrow> string" where
  "GetProtocolFromURL url =
     (case find_sub delimiter url of Some pos \<Rightarrow> take pos url | None \<Rightarrow> [])"

definition GetHostnameFromURL :: "string \<Rightarrow> string" where
  "GetHostnameFromURL url =
     (if url = [] then []
      else let tempUrl = map (\<lambda>c. if c = CHR 0x5C then CHR ''/'' else c) url;
               posStart = (case find_sub delimiter tempUrl of
                             Some p \<Rightarrow> p + length delimiter | None \<Rightarrow> 0);
               posStart = (case find_first_not_of (\<lambda>c. c = CHR ''/'') tempUrl posStart of
                             Some p \<Rightarrow> p | None \<Rightarrow> posStart)
           in case min_pos [find_from '':'' tempUrl posStart, find_from ''/'' tempUrl posStart,
                            find_from ''?'' tempUrl posStart] of
                Some posEnd \<Rightarrow> take (posEnd - posStart) (drop posStart tempUrl)
              | None \<Rightarrow> drop posStart tempUrl)"

definition GetPortFromURL :: "string \<Rightarrow> string" where
  "GetPortFromURL url =
     (let protocol = GetProtocolFromURL url;
          hostname = GetHostnameFromURL url;
          start = (if protocol = [] then length hostname
                   else length protocol + length delimiter + length hostname)
      in case find_from '':'' url start of
           None \<Rightarrow> []
         | Some posStart \<Rightarrow>
             (case min_pos [find_from ''/'' url start, find_from ''?'' url start] of
                None \<Rightarrow> drop (posStart + 1) url
              | Some posEnd \<Rightarrow>
                  if posStart > posEnd then []
                  else take (posEnd - posStart - 1) (drop (posStart + 1) url)))"

definition PROTOCOL_WSS :: string where
  "PROTOCOL_WSS = ''wss''"

definition GetHostnameWithProtocolAndPortFromURL :: "string \<Rightarrow> string" where
  "GetHostnameWithProtocolAndPortFromURL url =
     (let hostname = GetHostnameFromURL url
      in if hostname \<noteq> []
         then let protocol = GetProtocolFromURL url;
                  hostname = (if protocol \<noteq> [] then protocol @ delimiter @ hostname else hostname)
              in if protocol \<noteq> PROTOCOL_WSS
                 then let port = GetPortFromURL url
                      in if port \<noteq> [] then hostname @ '':'' @ port else hostname
                 else hostname
         else hostname)"

text \<open>\<open>policy\<close> is \<open>ApiPolicyUtils::IsAllowedHostname\<close>, resolved in a library at run time.\<close>

definition IsAllowedHostname ::
  "(string \<Rightarrow> string \<Rightarrow> string \<Rightarrow> bool) \<Rightarrow> string \<Rightarrow> string \<Rightarrow> string \<Rightarrow> bool" where
  "IsAllowedHostname policy bundleName domainType url =
     (if bundleName = [] then True
      else let hostname = GetHostnameWithProtocolAndPortFromURL url
           in if hostname = [] then True else policy bundleName domainType hostname)"

section \<open>Host exclusion lists\<close>

text \<open>The loop of \<open>InsertCharBefore\<close>; \<open>nextChar = NUL\<close> means that any next character will do.\<close>

function InsertCharBefore_loop :: "char \<Rightarrow> char \<Rightarrow> char \<Rightarrow> string \<Rightarrow> nat option \<Rightarrow> string" where
  "InsertCharBefore_loop frm preChar nextChar out None = out"
| "InsertCharBefore_loop frm preChar nextChar out (Some pos) =
     (if pos < length out
      then let nxt = (if pos = length out - 1 then NUL else out ! (pos + 1));
               out' = (if nextChar = NUL \<or> nxt = NUL \<or> nxt \<noteq> nextChar
                       then take pos out @ [preChar, frm] @ drop (pos + 1) out else out)
           in InsertCharBefore_loop frm preChar nextChar out' (find_from [frm] out' (pos + 2))
      else out)"
  by pat_completeness auto
termination
proof (relation "measure (\<lambda>(frm, preChar, nextChar, out, pos).
    case pos of None \<Rightarrow> 0 | Some p \<Rightarrow> Suc (length out) - p)", goal_cases)
  case 1
  then show ?case by simp
next
  case (2 frm preChar nextChar out pos x xa)
  then have "length xa \<le> Suc (length out)" by auto
  with 2 show ?case
    by (auto split: option.split dest!: find_from_bound)
qed

definition InsertCharBefore :: "string \<Rightarrow> char \<Rightarrow> char \<Rightarrow> char \<Rightarrow> string" where
  "InsertCharBefore input frm preChar nextChar =
     InsertCharBefore_loop frm preChar nextChar input (find_sub [frm] input)"

definition ReplaceCharacters :: "string \<Rightarrow> string" where
  "ReplaceCharacters input =
     (let output = InsertCharBefore input (CHR ''*'') (CHR ''.'') NUL
      in InsertCharBefore output (CHR ''.'') (CHR 0x5C) (CHR ''*''))"

text \<open>\<open>^[a-zA-Z0-9\-_\.*]+$\<close>\<close>

definition regex_valid_char :: "char \<Rightarrow> bool" where
  "regex_valid_char c \<longleftrightarrow> is_alnum c \<or> c \<in> {CHR ''-'', CHR ''_'', CHR ''.'', CHR ''*''}"

definition regex_valid :: rexp where
  "regex_valid = RSeq (RCls regex_valid_char) (RStar (RCls regex_valid_char))"

definition IsRegexValid :: "string \<Rightarrow> bool" where
  "IsRegexValid regex = (if Trim regex = [] then False else regex_match regex regex_valid)"

text \<open>\<open>None\<close>: the constructor of \<open>std::regex\<close> throws.\<close>

definition IsMatch :: "string \<Rightarrow> string \<Rightarrow> bool option" where
  "IsMatch str patternStr =
     (if patternStr = [] then Some False
      else if patternStr = ''*'' then Some True
      else if \<not> IsRegexValid patternStr then Some (patternStr = str)
      else case regex_compile (ReplaceCharacters patternStr) of
        None \<Rightarrow> None
      | Some pattern \<Rightarrow> Some (patternStr \<noteq> [] \<and> regex_match str pattern))"

text \<open>
  The loop of \<open>IsExcluded\<close> over the entries of the list. \<open>None\<close> stands for an exception: of the
  regular expression compiler, or of the last \<open>substr\<close> when \<open>start\<close> is past the end (which an
  empty separator leads to).
\<close>

function IsExcluded_loop :: "string \<Rightarrow> string \<Rightarrow> string \<Rightarrow> nat \<Rightarrow> bool option" where
  "IsExcluded_loop str exclusions split start =
     (case find_from split exclusions start of
        None \<Rightarrow>
          if start \<le> length exclusions then IsMatch str (Trim (drop start exclusions)) else None
      | Some end' \<Rightarrow>
          if end' - start > 0
          then (case IsMatch str (Trim (take (end' - start) (drop start exclusions))) of
                  None \<Rightarrow> None
                | Some True \<Rightarrow> Some True
                | Some False \<Rightarrow> IsExcluded_loop str exclusions split (end' + 1))
          else IsExcluded_loop str exclusions split (end' + 1))"
  by pat_completeness auto
termination
  by (relation "measure (\<lambda>(str, ex, split, start). Suc (length ex) - start)")
    (auto dest!: find_from_bound)

declare IsExcluded_loop.simps [simp del]

definition IsExcluded :: "string \<Rightarrow> string \<Rightarrow> string \<Rightarrow> bool option" where
  "IsExcluded str exclusions split =
     (if Trim exclusions = [] then Some False else IsExcluded_loop str exclusions split 0)"

definition IsHostNameExcluded :: "string \<Rightarrow> string \<Rightarrow> string \<Rightarrow> bool option" where
  "IsHostNameExcluded url exclusions split = IsExcluded (GetHostnameFromURL url) exclusions split"

section \<open>IP addresses\<close>

datatype ip_type = INVALID_IP_TYPE | AF_INET | AF_INET6

text \<open>\<open>pton af s\<close>: whether \<open>inet_pton(af, s, ...)\<close> returns 1.\<close>

definition IsValidIP :: "(ip_type \<Rightarrow> string \<Rightarrow> bool) \<Rightarrow> string \<Rightarrow> ip_type \<Rightarrow> bool" where
  "IsValidIP pton ip af =
     (if ip = [] then False
      else if af = AF_INET6 then pton af (c_str ip) else pton af (c_str ip))"

definition IsValidIPV4 :: "(ip_type \<Rightarrow> string \<Rightarrow> bool) \<Rightarrow> string \<Rightarrow> bool" where
  "IsValidIPV4 pton ip = IsValidIP pton ip AF_INET"

definition IsValidIPV6 :: "(ip_type \<Rightarrow> string \<Rightarrow> bool) \<Rightarrow> string \<Rightarrow> bool" where
  "IsValidIPV6 pton ip = IsValidIP pton ip AF_INET6"

definition DetectIPType :: "(ip_type \<Rightarrow> string \<Rightarrow> bool) \<Rightarrow> string \<Rightarrow> ip_type" where
  "DetectIPType pton ip =
     (if ip = [] then INVALID_IP_TYPE
      else if IsValidIPV4 pton ip then AF_INET
      else if IsValidIPV6 pton ip then AF_INET6
      else INVALID_IP_TYPE)"

definition MAX_DISPLAY_NUM :: nat where
  "MAX_DISPLAY_NUM = 2"

abbreviation RDigit :: rexp where
  "RDigit \<equiv> RCls is_digit"

text \<open>\<open>(2([0-4]\d|5[0-5])|1\d\d|[1-9]\d|\d)\<close>\<close>

definition octet_pattern :: rexp where
  "octet_pattern = RAlts
     [RSeq (RChr (CHR ''2''))
        (RAlt (RSeq (RRange (CHR ''0'') (CHR ''4'')) RDigit)
              (RSeq (RChr (CHR ''5'')) (RRange (CHR ''0'') (CHR ''5'')))),
      RSeqs [RChr (CHR ''1''), RDigit, RDigit],
      RSeq (RRange (CHR ''1'') (CHR ''9'')) RDigit,
      RDigit]"

definition IP_PATTERN :: rexp where
  "IP_PATTERN = RSeq (RRep (RSeq octet_pattern (RChr (CHR ''.''))) 3 3) octet_pattern"

definition IP_MASK_PATTERN :: rexp where
  "IP_MASK_PATTERN = RSeqs
     [IP_PATTERN, RChr (CHR ''/''),
      RAlts [RSeq (RChr (CHR ''3'')) (RRange (CHR ''0'') (CHR ''2'')),
             RSeq (RRange (CHR ''1'') (CHR ''2'')) RDigit,
             RDigit]]"

definition is_hex :: "char \<Rightarrow> bool" where
  "is_hex c \<longleftrightarrow> is_digit c \<or> CHR ''a'' \<le> c \<and> c \<le> CHR ''f'' \<or> CHR ''A'' \<le> c \<and> c \<le> CHR ''F''"

definition IPV6_PATTERN :: rexp where
  "IPV6_PATTERN =
     RSeq (RRep (RSeq (RRep (RCls is_hex) 0 4) (RChr (CHR '':''))) 2 7) (RRep (RCls is_hex) 0 4)"

definition IPV6_MASK_PATTERN :: rexp where
  "IPV6_MASK_PATTERN = RSeqs
     [IPV6_PATTERN, RChr (CHR ''/''),
      RAlts [RSeqs [RChr (CHR ''1''), RRange (CHR ''0'') (CHR ''2''), RRange (CHR ''0'') (CHR ''8'')],
             RSeq (RRange (CHR ''1'') (CHR ''9'')) RDigit,
             RRange (CHR ''1'') (CHR ''9'')]]"

fun MaskIpv4_loop :: "nat \<Rightarrow> string \<Rightarrow> string" where
  "MaskIpv4_loop maxDisplayNum [] = []"
| "MaskIpv4_loop maxDisplayNum (i # s) =
     (if i = CHR ''/'' then i # s
      else if maxDisplayNum > 0
      then i # MaskIpv4_loop (if i = CHR ''.'' then maxDisplayNum - 1 else maxDisplayNum) s
      else (if i \<noteq> CHR ''.'' then CHR ''*'' else i) # MaskIpv4_loop maxDisplayNum s)"

definition MaskIpv4 :: "string \<Rightarrow> string" where
  "MaskIpv4 s = MaskIpv4_loop MAX_DISPLAY_NUM s"

fun MaskIpv6_loop :: "nat \<Rightarrow> string \<Rightarrow> string" where
  "MaskIpv6_loop colonCount [] = []"
| "MaskIpv6_loop colonCount (i # s) =
     (if i = CHR ''/'' then i # s
      else let colonCount = (if i = CHR '':'' then colonCount + 1 else colonCount)
           in (if colonCount \<ge> MAX_DISPLAY_NUM \<and> i \<noteq> CHR '':'' then CHR ''*'' else i) #
              MaskIpv6_loop colonCount s)"

definition MaskIpv6 :: "string \<Rightarrow> string" where
  "MaskIpv6 s = MaskIpv6_loop 0 s"

definition AnonymizeIp :: "string \<Rightarrow> string" where
  "AnonymizeIp input =
     (if input = [] then input
      else if regex_match input IP_PATTERN \<or> regex_match input IP_MASK_PATTERN then MaskIpv4 input
      else if regex_match input IPV6_PATTERN \<or> regex_match input IPV6_MASK_PATTERN then MaskIpv6 input
      else input)"

definition ToAnonymousIp :: "string \<Rightarrow> string" where
  "ToAnonymousIp input =
     (if regex_match input IP_PATTERN \<or> regex_match input IP_MASK_PATTERN then MaskIpv4 input
      else if regex_match input IPV6_PATTERN \<or> regex_match input IPV6_MASK_PATTERN then MaskIpv6 input
      else input)"

definition MAX_PORT :: nat where
  "MAX_PORT = 65535"

definition IsValidPort :: "u32 \<Rightarrow> bool" where
  "IsValidPort port = (if unat port < 0 \<or> unat port > MAX_PORT then False else True)"

section \<open>Pinned public keys, cleartext policy\<close>

definition PINNED_PREFIX :: string where
  "PINNED_PREFIX = ''sha256//''"

definition PINNED_PREFIX_LEN :: nat where
  "PINNED_PREFIX_LEN = 8"

definition SHA256_BASE64_LEN :: nat where
  "SHA256_BASE64_LEN = 44"

function IsCertPubKeyInPinned_loop :: "string \<Rightarrow> string \<Rightarrow> nat \<Rightarrow> bool" where
  "IsCertPubKeyInPinned_loop digest pinned begin' =
     (if begin' < length pinned
      then let end' = (case find_from '';'' pinned begin' of None \<Rightarrow> length pinned | Some e \<Rightarrow> e)
           in if find_from PINNED_PREFIX pinned begin' \<noteq> Some begin'
              then IsCertPubKeyInPinned_loop digest pinned (end' + 1)
              else if end' - begin' \<noteq> PINNED_PREFIX_LEN + SHA256_BASE64_LEN
              then IsCertPubKeyInPinned_loop digest pinned (end' + 1)
              else if take SHA256_BASE64_LEN (drop (begin' + PINNED_PREFIX_LEN) pinned) = digest
              then True
              else IsCertPubKeyInPinned_loop digest pinned (end' + 1)
      else False)"
  by pat_completeness auto
termination
  by (relation "measure (\<lambda>(digest, pinned, begin'). length pinned - begin')")
    (auto split: option.splits dest!: find_from_bound)

declare IsCertPubKeyInPinned_loop.simps [simp del]

definition IsCertPubKeyInPinned :: "string \<Rightarrow> string \<Rightarrow> bool" where
  "IsCertPubKeyInPinned certPubKeyDigest pinnedPubkey =
     (if find_sub PINNED_PREFIX pinnedPubkey \<noteq> Some 0 then False
      else IsCertPubKeyInPinned_loop certPubKeyDigest pinnedPubkey 0)"

text \<open>
  The network security configuration: \<open>cfg\<close> is the answer of \<open>IsCleartextCfgByComponent\<close> (the
  return code is zero and the flag it sets), \<open>host_permitted\<close> that of \<open>IsCleartextPermitted\<close>.
\<close>

definition IsCleartextPermitted ::
  "bool \<times> bool \<Rightarrow> (string \<Rightarrow> bool) \<Rightarrow> string \<Rightarrow> string \<Rightarrow> bool" where
  "IsCleartextPermitted cfg host_permitted url protocol =
     (if \<not> fst cfg \<or> \<not> snd cfg then True
      else if find_sub protocol (ToLower url) \<noteq> None
      then host_permitted (GetHostnameFromURL url)
      else True)"

section \<open>Joining and anonymising\<close>

fun CombineStrings_loop :: "(string \<Rightarrow> string) \<Rightarrow> string list \<Rightarrow> string \<Rightarrow> string \<Rightarrow> string" where
  "CombineStrings_loop f [] spliter res = res"
| "CombineStrings_loop f (s # ss) spliter res =
     CombineStrings_loop f ss spliter
       (if s \<noteq> [] then (if ss \<noteq> [] then res @ f s @ spliter else res @ f s) else res)"

definition CombineStrings :: "string list \<Rightarrow> string \<Rightarrow> string" where
  "CombineStrings strs spliter = CombineStrings_loop (\<lambda>s. s) strs spliter []"

definition CombineStringsAnonymous :: "string list \<Rightarrow> string \<Rightarrow> string" where
  "CombineStringsAnonymous strs spliter = CombineStrings_loop ToAnonymousIp strs spliter []"

function AnonymizeHost_loop :: "nat \<Rightarrow> string \<Rightarrow> string" where
  "AnonymizeHost_loop i result =
     (if i < length result
      then AnonymizeHost_loop (Suc i) (if i mod 2 \<noteq> 0 then result[i := CHR ''*''] else result)
      else result)"
  by pat_completeness auto
termination
  by (relation "measure (\<lambda>(i, result). length result - i)") auto

declare AnonymizeHost_loop.simps [simp del]

definition AnonymizeHost :: "string \<Rightarrow> string" where
  "AnonymizeHost input = AnonymizeHost_loop 1 input"

definition GetSimpleHost :: "string \<Rightarrow> string" where
  "GetSimpleHost input =
     (case find_sub ''?'' input of
        None \<Rightarrow> input
      | Some questionPos \<Rightarrow>
          let afterQuestion = drop (questionPos + 1) input
          in case find_sub ''__biz='' afterQuestion of
               Some bizStart \<Rightarrow>
                 let bizParam = drop bizStart afterQuestion;
                     bizParam = (case find_sub ''&'' bizParam of
                                   Some nextAmpersand \<Rightarrow> take nextAmpersand bizParam
                                 | None \<Rightarrow> bizParam)
                 in take (questionPos + 1) input @ bizParam
             | None \<Rightarrow> take questionPos input)"

end
