(* ===== verification/Http_Tls_Config.thy ===== *)
theory Http_Tls_Config
  imports Netstack_Prelude
begin

text \<open>
  The cipher suite tables of the native HTTP client
  (\<open>frameworks/native/http/http_client/http_client_tls_config.cpp\<close>): standard names to suites, suites
  to the names OpenSSL knows, and the two cipher strings that are handed to curl, one for
  TLS 1.3 and one for the earlier versions. A \<open>std::unordered_set\<close> of suites is a list without
  repetitions in the order it is iterated.
\<close>

datatype CipherSuite =
    INVALID
  | TLS_AES_128_GCM_SHA256
  | TLS_AES_256_GCM_SHA384
  | TLS_CHACHA20_POLY1305_SHA256
  | TLS_ECDHE_ECDSA_WITH_AES_128_GCM_SHA256
  | TLS_ECDHE_RSA_WITH_AES_128_GCM_SHA256
  | TLS_ECDHE_ECDSA_WITH_AES_256_GCM_SHA384
  | TLS_ECDHE_RSA_WITH_AES_256_GCM_SHA384
  | TLS_ECDHE_ECDSA_WITH_CHACHA20_POLY1305_SHA256
  | TLS_ECDHE_RSA_WITH_CHACHA20_POLY1305_SHA256
  | TLS_ECDHE_ECDSA_WITH_AES_128_CBC_SHA
  | TLS_ECDHE_RSA_WITH_AES_128_CBC_SHA
  | TLS_ECDHE_ECDSA_WITH_AES_256_CBC_SHA
  | TLS_ECDHE_RSA_WITH_AES_256_CBC_SHA
  | TLS_RSA_WITH_AES_128_GCM_SHA256
  | TLS_RSA_WITH_AES_256_GCM_SHA384
  | TLS_RSA_WITH_AES_128_CBC_SHA
  | TLS_RSA_WITH_AES_256_CBC_SHA
  | TLS_RSA_WITH_3DES_EDE_CBC_SHA

record TlsCipherString =
  ciperSuiteString :: string
  tlsV13CiperSuiteString :: string

text \<open>Suite, inner name, standard name.\<close>

definition CIPHER_SUITE_CONVERTOR :: "(CipherSuite \<times> string \<times> string) list" where
  "CIPHER_SUITE_CONVERTOR =
    [(TLS_AES_128_GCM_SHA256, ''TLS_AES_128_GCM_SHA256'', ''TLS_AES_128_GCM_SHA256''),
     (TLS_AES_256_GCM_SHA384, ''TLS_AES_256_GCM_SHA384'', ''TLS_AES_256_GCM_SHA384''),
     (TLS_CHACHA20_POLY1305_SHA256, ''TLS_CHACHA20_POLY1305_SHA256'', ''TLS_CHACHA20_POLY1305_SHA256''),
     (TLS_ECDHE_ECDSA_WITH_AES_128_GCM_SHA256, ''ECDHE-ECDSA-AES128-GCM-SHA256'', ''TLS_ECDHE_ECDSA_WITH_AES_128_GCM_SHA256''),
     (TLS_ECDHE_RSA_WITH_AES_128_GCM_SHA256, ''ECDHE-RSA-AES128-GCM-SHA256'', ''TLS_ECDHE_RSA_WITH_AES_128_GCM_SHA256''),
     (TLS_ECDHE_ECDSA_WITH_AES_256_GCM_SHA384, ''ECDHE-ECDSA-AES256-GCM-SHA384'', ''TLS_ECDHE_ECDSA_WITH_AES_256_GCM_SHA384''),
     (TLS_ECDHE_RSA_WITH_AES_256_GCM_SHA384, ''ECDHE-RSA-AES256-GCM-SHA384'', ''TLS_ECDHE_RSA_WITH_AES_256_GCM_SHA384''),
     (TLS_ECDHE_ECDSA_WITH_CHACHA20_POLY1305_SHA256, ''ECDHE-ECDSA-CHACHA20-POLY1305'', ''TLS_ECDHE_ECDSA_WITH_CHACHA20_POLY1305_SHA256''),
     (TLS_ECDHE_RSA_WITH_CHACHA20_POLY1305_SHA256, ''ECDHE-RSA-CHACHA20-POLY1305'', ''TLS_ECDHE_RSA_WITH_CHACHA20_POLY1305_SHA256''),
     (TLS_RSA_WITH_AES_128_GCM_SHA256, ''AES128-GCM-SHA256'', ''TLS_RSA_WITH_AES_128_GCM_SHA256''),
     (TLS_RSA_WITH_AES_256_GCM_SHA384, ''AES256-GCM-SHA384'', ''TLS_RSA_WITH_AES_256_GCM_SHA384''),
     (TLS_ECDHE_ECDSA_WITH_AES_128_CBC_SHA, ''ECDHE-ECDSA-AES128-SHA'', ''TLS_ECDHE_ECDSA_WITH_AES_128_CBC_SHA''),
     (TLS_ECDHE_RSA_WITH_AES_128_CBC_SHA, ''ECDHE-RSA-AES128-SHA'', ''TLS_ECDHE_RSA_WITH_AES_128_CBC_SHA''),
     (TLS_ECDHE_ECDSA_WITH_AES_256_CBC_SHA, ''ECDHE-ECDSA-AES256-SHA'', ''TLS_ECDHE_ECDSA_WITH_AES_256_CBC_SHA''),
     (TLS_ECDHE_RSA_WITH_AES_256_CBC_SHA, ''ECDHE-RSA-AES256-SHA'', ''TLS_ECDHE_RSA_WITH_AES_256_CBC_SHA''),
     (TLS_RSA_WITH_AES_128_CBC_SHA, ''AES128-SHA'', ''TLS_RSA_WITH_AES_128_CBC_SHA''),
     (TLS_RSA_WITH_AES_256_CBC_SHA, ''AES256-SHA'', ''TLS_RSA_WITH_AES_256_CBC_SHA''),
     (TLS_RSA_WITH_3DES_EDE_CBC_SHA, ''DES-CBC3-SHA'', ''TLS_RSA_WITH_3DES_EDE_CBC_SHA'')]"

fun find_standard :: "(CipherSuite \<times> string \<times> string) list \<Rightarrow> string \<Rightarrow> CipherSuite" where
  "find_standard [] standardName = INVALID"
| "find_standard (suite # ss) standardName =
     (if snd (snd suite) = standardName then fst suite else find_standard ss standardName)"

definition GetTlsCipherSuiteFromStandardName :: "string \<Rightarrow> CipherSuite" where
  "GetTlsCipherSuiteFromStandardName standardName = find_standard CIPHER_SUITE_CONVERTOR standardName"

fun find_inner :: "(CipherSuite \<times> string \<times> string) list \<Rightarrow> CipherSuite \<Rightarrow> string" where
  "find_inner [] cipherSuite = []"
| "find_inner (suite # ss) cipherSuite =
     (if fst suite = cipherSuite then fst (snd suite) else find_inner ss cipherSuite)"

definition GetInnerNameFromCipherSuite :: "CipherSuite \<Rightarrow> string" where
  "GetInnerNameFromCipherSuite cipherSuite = find_inner CIPHER_SUITE_CONVERTOR cipherSuite"

definition IsTlsV13Cipher :: "string \<Rightarrow> bool" where
  "IsTlsV13Cipher innerName \<longleftrightarrow>
     innerName = ''TLS_AES_128_GCM_SHA256'' \<or> innerName = ''TLS_AES_256_GCM_SHA384'' \<or>
     innerName = ''TLS_CHACHA20_POLY1305_SHA256''"

fun ConvertCipherSuite_loop :: "CipherSuite list \<Rightarrow> TlsCipherString \<Rightarrow> TlsCipherString" where
  "ConvertCipherSuite_loop [] cipherString = cipherString"
| "ConvertCipherSuite_loop (cipher # cs) cipherString =
     (let innerName = GetInnerNameFromCipherSuite cipher
      in ConvertCipherSuite_loop cs
        (if innerName = [] then cipherString
         else if IsTlsV13Cipher innerName
         then cipherString\<lparr>tlsV13CiperSuiteString := tlsV13CiperSuiteString cipherString @ innerName @ '':''\<rparr>
         else cipherString\<lparr>ciperSuiteString := ciperSuiteString cipherString @ innerName @ '':''\<rparr>))"

text \<open>\<open>pop_back()\<close> when the string is not empty.\<close>

definition pop_back :: "string \<Rightarrow> string" where
  "pop_back s = (if s \<noteq> [] then butlast s else s)"

definition ConvertCipherSuiteToCipherString :: "CipherSuite list \<Rightarrow> TlsCipherString" where
  "ConvertCipherSuiteToCipherString cipherSuite =
     (let cipherString = ConvertCipherSuite_loop cipherSuite \<lparr>ciperSuiteString = [], tlsV13CiperSuiteString = []\<rparr>;
          cipherString = cipherString\<lparr>tlsV13CiperSuiteString := pop_back (tlsV13CiperSuiteString cipherString)\<rparr>
      in cipherString\<lparr>ciperSuiteString := pop_back (ciperSuiteString cipherString)\<rparr>)"

section \<open>Lemmas\<close>

lemma inner_table:
  "list_all (\<lambda>e. GetInnerNameFromCipherSuite (fst e) = fst (snd e) \<and> fst (snd e) \<noteq> [] \<and>
     CHR '':'' \<notin> set (fst (snd e)) \<and> fst e \<noteq> INVALID \<and>
     GetTlsCipherSuiteFromStandardName (snd (snd e)) = fst e) CIPHER_SUITE_CONVERTOR"
  by code_simp

lemma suites_covered: "c = INVALID \<or> c \<in> fst ` set CIPHER_SUITE_CONVERTOR"
  by (cases c) (simp_all add: CIPHER_SUITE_CONVERTOR_def)

lemma inner_entry:
  assumes "(c, i, s) \<in> set CIPHER_SUITE_CONVERTOR"
  shows "GetInnerNameFromCipherSuite c = i" and "GetTlsCipherSuiteFromStandardName s = c"
  using bspec [OF inner_table [unfolded list_all_iff] assms] by simp_all

lemma inner_INVALID [simp]: "GetInnerNameFromCipherSuite INVALID = []"
  by code_simp

lemma inner_name:
  assumes "c \<noteq> INVALID"
  shows "GetInnerNameFromCipherSuite c \<noteq> []" and "CHR '':'' \<notin> set (GetInnerNameFromCipherSuite c)"
  using assms suites_covered [of c] inner_table by (auto simp: list_all_iff)

lemma inner_inj:
  "list_all (\<lambda>e. list_all (\<lambda>f. fst (snd e) = fst (snd f) \<longrightarrow> fst e = fst f) CIPHER_SUITE_CONVERTOR)
     CIPHER_SUITE_CONVERTOR"
  by code_simp

definition tls13 :: "CipherSuite \<Rightarrow> bool" where
  "tls13 c \<longleftrightarrow> c \<in> {TLS_AES_128_GCM_SHA256, TLS_AES_256_GCM_SHA384, TLS_CHACHA20_POLY1305_SHA256}"

lemma IsTlsV13Cipher_inner: "IsTlsV13Cipher (GetInnerNameFromCipherSuite c) \<longleftrightarrow> tls13 c"
  by (cases c; hypsubst; code_simp)

definition names_of :: "(CipherSuite \<Rightarrow> bool) \<Rightarrow> CipherSuite list \<Rightarrow> string list" where
  "names_of P cs = map GetInnerNameFromCipherSuite (filter (\<lambda>c. c \<noteq> INVALID \<and> P c) cs)"

lemma Convert_loop_eq:
  "ConvertCipherSuite_loop cs s =
     \<lparr>ciperSuiteString = ciperSuiteString s @ concat (map (\<lambda>n. n @ '':'') (names_of (\<lambda>c. \<not> tls13 c) cs)),
      tlsV13CiperSuiteString = tlsV13CiperSuiteString s @ concat (map (\<lambda>n. n @ '':'') (names_of tls13 cs))\<rparr>"
proof (induction cs arbitrary: s)
  case (Cons c cs)
  have "GetInnerNameFromCipherSuite c = [] \<longleftrightarrow> c = INVALID"
    using inner_name(1) [of c] by auto
  then show ?case
    using Cons by (auto simp: names_of_def IsTlsV13Cipher_inner)
qed (simp add: names_of_def)

lemma segments_joined:
  "ns \<noteq> [] \<Longrightarrow> \<forall>n \<in> set ns. CHR '':'' \<notin> set n \<Longrightarrow>
     segments (CHR '':'') (butlast (concat (map (\<lambda>n. n @ '':'') ns))) = ns"
proof (induction ns)
  case (Cons n ns)
  show ?case
  proof (cases ns)
    case Nil
    then show ?thesis using Cons.prems by simp
  next
    case (Cons m ms)
    let ?r = "concat (map (\<lambda>n. n @ '':'') ns)"
    have "?r \<noteq> []" using Cons by simp
    then have "butlast (concat (map (\<lambda>n. n @ '':'') (n # ns))) = n @ CHR '':'' # butlast ?r"
      by (simp add: butlast_append)
    then show ?thesis
      using Cons.IH Cons.prems Cons by simp
  qed
qed simp

lemma pop_back_joined:
  assumes "\<forall>n \<in> set ns. CHR '':'' \<notin> set n"
  shows "segments (CHR '':'') (pop_back (concat (map (\<lambda>n. n @ '':'') ns))) = (if ns = [] then [[]] else ns)"
proof (cases "ns = []")
  case False
  then have "concat (map (\<lambda>n. n @ '':'') ns) \<noteq> []"
    by (cases ns) auto
  then show ?thesis
    using segments_joined [OF False assms] False by (simp add: pop_back_def)
qed (simp add: pop_back_def)

section \<open>Properties\<close>

text \<open>
  C22. The two cipher strings partition the chosen suites: the colon-separated entries of the
  TLS 1.3 string are the inner names of the TLS 1.3 suites, those of the other string the
  names of the others, in iteration order, and the invalid suite contributes nothing.
\<close>

theorem cipher_strings_partition:
  "segments (CHR '':'') (tlsV13CiperSuiteString (ConvertCipherSuiteToCipherString cs)) =
     (let ns = map GetInnerNameFromCipherSuite (filter tls13 cs) in if ns = [] then [[]] else ns) \<and>
   segments (CHR '':'') (ciperSuiteString (ConvertCipherSuiteToCipherString cs)) =
     (let ns = map GetInnerNameFromCipherSuite (filter (\<lambda>c. c \<noteq> INVALID \<and> \<not> tls13 c) cs)
      in if ns = [] then [[]] else ns)"
proof -
  have "filter (\<lambda>c. c \<noteq> INVALID \<and> tls13 c) cs = filter tls13 cs"
    by (rule filter_cong) (auto simp: tls13_def)
  then have t: "names_of tls13 cs = map GetInnerNameFromCipherSuite (filter tls13 cs)"
    by (simp add: names_of_def)
  have c: "\<forall>n \<in> set (names_of P cs). CHR '':'' \<notin> set n" for P
    using inner_name(2) by (auto simp: names_of_def)
  show ?thesis
    using pop_back_joined [OF c, of tls13] pop_back_joined [OF c, of "\<lambda>c. \<not> tls13 c"]
    by (simp add: ConvertCipherSuiteToCipherString_def Convert_loop_eq t) (simp add: names_of_def)
qed

text \<open>
  Every suite but the invalid one has a standard name that is looked up to it, and distinct
  suites have distinct inner names.
\<close>

lemma cipher_names_roundtrip:
  "c = INVALID \<or> (\<exists>standard. GetTlsCipherSuiteFromStandardName standard = c \<and>
     (\<forall>d. GetInnerNameFromCipherSuite d = GetInnerNameFromCipherSuite c \<longrightarrow> d = c))"
proof (cases "c = INVALID")
  case False
  then obtain i s where e: "(c, i, s) \<in> set CIPHER_SUITE_CONVERTOR"
    using suites_covered [of c] by auto
  have "d = c" if d: "GetInnerNameFromCipherSuite d = GetInnerNameFromCipherSuite c" for d
  proof -
    have "d \<noteq> INVALID" using inner_name(1) [OF False] d by auto
    then obtain j t where f: "(d, j, t) \<in> set CIPHER_SUITE_CONVERTOR"
      using suites_covered [of d] by auto
    have "i = j" using inner_entry(1) [OF e] inner_entry(1) [OF f] d by simp
    then show ?thesis
      using bspec [OF bspec [OF inner_inj [unfolded list_all_iff] e] f] by simp
  qed
  moreover have "GetTlsCipherSuiteFromStandardName s = c"
    using e by (rule inner_entry(2))
  ultimately show ?thesis by blast
qed simp

end
