(* ===== verification/Http_Message.thy ===== *)
theory Http_Message
  imports Common_Utils_Correct Http_Tls_Config
begin

text \<open>
  \<open>HttpClientRequest\<close>, \<open>HttpClientResponse\<close> and \<open>HttpClientError\<close> of the native HTTP client
  (\<open>frameworks/native/http/http_client\<close>): the fields, every setter with its guard, every getter, the
  header parsers, and the mapping of curl results to error codes. \<open>std::map\<close> headers are
  ordered association lists.
\<close>

section \<open>Constants\<close>

definition HTTP_METHOD_GET :: string where "HTTP_METHOD_GET = ''GET''"
definition HTTP_METHOD_HEAD :: string where "HTTP_METHOD_HEAD = ''HEAD''"
definition HTTP_METHOD_OPTIONS :: string where "HTTP_METHOD_OPTIONS = ''OPTIONS''"
definition HTTP_METHOD_TRACE :: string where "HTTP_METHOD_TRACE = ''TRACE''"
definition HTTP_METHOD_DELETE :: string where "HTTP_METHOD_DELETE = ''DELETE''"
definition HTTP_METHOD_POST :: string where "HTTP_METHOD_POST = ''POST''"
definition HTTP_METHOD_PUT :: string where "HTTP_METHOD_PUT = ''PUT''"
definition HTTP_METHOD_CONNECT :: string where "HTTP_METHOD_CONNECT = ''CONNECT''"

definition DEFAULT_READ_TIMEOUT :: u32 where "DEFAULT_READ_TIMEOUT = 60000"
definition DEFAULT_CONNECT_TIMEOUT :: u32 where "DEFAULT_CONNECT_TIMEOUT = 60000"
definition MAX_LIMIT :: u32 where "MAX_LIMIT = 100 * 1024 * 1024"
definition MAX_DATA_LIMIT :: nat where "MAX_DATA_LIMIT = 100 * 1024 * 1024"

definition HTTP_HEADER_SEPARATOR :: string where "HTTP_HEADER_SEPARATOR = '':''"
definition HTTP_LINE_SEPARATOR :: string where "HTTP_LINE_SEPARATOR = [CHR 0x0D, CHR 0x0A]"
definition RESPONSE_KEY_SET_COOKIE :: string where "RESPONSE_KEY_SET_COOKIE = ''set-cookie''"
definition WARNING :: string where "WARNING = ''Warning''"

definition HTTP_MIN_PRIORITY :: u32 where "HTTP_MIN_PRIORITY = 1"
definition HTTP_DEFAULT_PRIORITY :: u32 where "HTTP_DEFAULT_PRIORITY = 500"
definition HTTP_MAX_PRIORITY :: u32 where "HTTP_MAX_PRIORITY = 1000"
definition MIN_RESUM_NUMBER :: int where "MIN_RESUM_NUMBER = 1"
definition MAX_RESUM_NUMBER :: int where "MAX_RESUM_NUMBER = 4294967296"

section \<open>Data\<close>

datatype HttpProxyType = NOT_USE | USE_SPECIFIED | PROXY_TYPE_MAX
datatype HttpProtocol = HTTP_NONE | HTTP1_1 | HTTP2 | HTTP3 | HTTP_PROTOCOL_MAX
datatype SslType = TLS | TLCP
datatype HttpDataType = STRING | OBJECT | ARRAY_BUFFER | NO_DATA_TYPE
datatype HttpAuthenticationType = AUTO | BASIC | NTLM | DIGEST
datatype TlsVersion = DEFAULT | TLSv1_0 | TLSv1_1 | TLSv1_2 | TLSv1_3

record HttpProxy =
  px_host :: string
  px_port :: int
  px_exclusions :: string
  px_tunnel :: bool

record HttpClientCert =
  cc_certPath :: string
  cc_certType :: string
  cc_keyPath :: string
  cc_keyPassword :: string

record EscapedData =
  ed_dataType :: HttpDataType
  ed_data :: string

record HttpMultiFormData =
  mf_name :: string
  mf_contentType :: string
  mf_remoteFileName :: string
  mf_data :: string
  mf_filePath :: string

record HttpServerAuthentication =
  sa_username :: string
  sa_password :: string
  sa_authenticationType :: HttpAuthenticationType

record TlsOption =
  to_cipherSuite :: "CipherSuite list"
  to_tlsVersionMin :: TlsVersion
  to_tlsVersionMax :: TlsVersion

record CertsPath =
  cp_certPathList :: "string list"
  cp_certFile :: string

type_synonym headers = "(string, string) smap"

record HttpClientRequest =
  rq_url :: string
  rq_method :: string
  rq_body :: string
  rq_rawHeader :: string
  rq_headers :: headers
  rq_timeout :: u32
  rq_connectTimeout :: u32
  rq_protocol :: HttpProtocol
  rq_proxy :: HttpProxy
  rq_proxyType :: HttpProxyType
  rq_caPath :: string
  rq_certsPath :: CertsPath
  rq_priority :: u32
  rq_requestTime :: string
  rq_resumeFrom :: int
  rq_resumeTo :: int
  rq_clientCert :: HttpClientCert
  rq_addressFamily :: string
  rq_sslType :: SslType
  rq_clientEncCert :: HttpClientCert
  rq_maxLimit :: u32
  rq_usingCache :: bool
  rq_dnsOverHttps :: string
  rq_remoteValidation :: string
  rq_canSkipCertVerify :: bool
  rq_tlsOptions :: TlsOption
  rq_extraData :: EscapedData
  rq_dataType :: HttpDataType
  rq_dnsServers :: "string list"
  rq_multiFormDataList :: "HttpMultiFormData list"
  rq_serverAuth :: HttpServerAuthentication
  rq_certificatePinning :: string

section \<open>The request\<close>

definition empty_cert :: HttpClientCert where
  "empty_cert = \<lparr>cc_certPath = [], cc_certType = [], cc_keyPath = [], cc_keyPassword = []\<rparr>"

definition new_HttpClientRequest :: HttpClientRequest where
  "new_HttpClientRequest =
     \<lparr>rq_url = [], rq_method = HTTP_METHOD_GET, rq_body = [], rq_rawHeader = [], rq_headers = [],
      rq_timeout = DEFAULT_READ_TIMEOUT, rq_connectTimeout = DEFAULT_CONNECT_TIMEOUT,
      rq_protocol = HTTP_NONE,
      rq_proxy = \<lparr>px_host = [], px_port = 0, px_exclusions = [], px_tunnel = False\<rparr>,
      rq_proxyType = NOT_USE, rq_caPath = [], rq_certsPath = \<lparr>cp_certPathList = [], cp_certFile = []\<rparr>,
      rq_priority = HTTP_DEFAULT_PRIORITY, rq_requestTime = [], rq_resumeFrom = 0, rq_resumeTo = 0,
      rq_clientCert = empty_cert, rq_addressFamily = [], rq_sslType = TLS, rq_clientEncCert = empty_cert,
      rq_maxLimit = word_of_nat MAX_DATA_LIMIT, rq_usingCache = False, rq_dnsOverHttps = [],
      rq_remoteValidation = [], rq_canSkipCertVerify = False,
      rq_tlsOptions = \<lparr>to_cipherSuite = [], to_tlsVersionMin = DEFAULT, to_tlsVersionMax = DEFAULT\<rparr>,
      rq_extraData = \<lparr>ed_dataType = NO_DATA_TYPE, ed_data = []\<rparr>, rq_dataType = NO_DATA_TYPE,
      rq_dnsServers = [], rq_multiFormDataList = [],
      rq_serverAuth = \<lparr>sa_username = [], sa_password = [], sa_authenticationType = AUTO\<rparr>,
      rq_certificatePinning = []\<rparr>"

definition SetURL :: "HttpClientRequest \<Rightarrow> string \<Rightarrow> HttpClientRequest" where
  "SetURL r url = r\<lparr>rq_url := url\<rparr>"

definition SetHeader :: "HttpClientRequest \<Rightarrow> string \<Rightarrow> string \<Rightarrow> HttpClientRequest" where
  "SetHeader r key val = r\<lparr>rq_headers := smap_put (ToLower key) val (rq_headers r)\<rparr>"

definition MethodForGet :: "string \<Rightarrow> bool" where
  "MethodForGet m \<longleftrightarrow> m = HTTP_METHOD_HEAD \<or> m = HTTP_METHOD_OPTIONS \<or> m = HTTP_METHOD_TRACE \<or>
     m = HTTP_METHOD_GET \<or> m = HTTP_METHOD_CONNECT"

definition MethodForPost :: "string \<Rightarrow> bool" where
  "MethodForPost m \<longleftrightarrow> m = HTTP_METHOD_POST \<or> m = HTTP_METHOD_PUT \<or> m = HTTP_METHOD_DELETE"

definition SetMethod :: "HttpClientRequest \<Rightarrow> string \<Rightarrow> HttpClientRequest" where
  "SetMethod r m =
     (if \<not> MethodForGet m \<and> \<not> MethodForPost m \<and> m \<noteq> [] then r else r\<lparr>rq_method := m\<rparr>)"

definition SetBody :: "HttpClientRequest \<Rightarrow> string \<Rightarrow> HttpClientRequest" where
  "SetBody r data = r\<lparr>rq_body := rq_body r @ data\<rparr>"

definition ReplaceBody :: "HttpClientRequest \<Rightarrow> string \<Rightarrow> HttpClientRequest" where
  "ReplaceBody r data = r\<lparr>rq_body := data\<rparr>"

definition SetTimeout :: "HttpClientRequest \<Rightarrow> u32 \<Rightarrow> HttpClientRequest" where
  "SetTimeout r timeout = r\<lparr>rq_timeout := timeout\<rparr>"

definition SetConnectTimeout :: "HttpClientRequest \<Rightarrow> u32 \<Rightarrow> HttpClientRequest" where
  "SetConnectTimeout r timeout = r\<lparr>rq_connectTimeout := timeout\<rparr>"

definition SetHttpProtocol :: "HttpClientRequest \<Rightarrow> HttpProtocol \<Rightarrow> HttpClientRequest" where
  "SetHttpProtocol r protocol = r\<lparr>rq_protocol := protocol\<rparr>"

definition SetHttpProxyType :: "HttpClientRequest \<Rightarrow> HttpProxyType \<Rightarrow> HttpClientRequest" where
  "SetHttpProxyType r type = r\<lparr>rq_proxyType := type\<rparr>"

definition SetMaxLimit :: "HttpClientRequest \<Rightarrow> u32 \<Rightarrow> HttpClientRequest" where
  "SetMaxLimit r maxLimit =
     (if maxLimit > MAX_LIMIT then r\<lparr>rq_maxLimit := MAX_LIMIT\<rparr> else r\<lparr>rq_maxLimit := maxLimit\<rparr>)"

definition SetCaPath :: "HttpClientRequest \<Rightarrow> string \<Rightarrow> HttpClientRequest" where
  "SetCaPath r path = (if path = [] then r else r\<lparr>rq_caPath := path\<rparr>)"

definition SetCertsPath :: "HttpClientRequest \<Rightarrow> string list \<Rightarrow> string \<Rightarrow> HttpClientRequest" where
  "SetCertsPath r certPathList certFile =
     r\<lparr>rq_certsPath := \<lparr>cp_certPathList = certPathList, cp_certFile = certFile\<rparr>\<rparr>"

definition SetPriority :: "HttpClientRequest \<Rightarrow> u32 \<Rightarrow> HttpClientRequest" where
  "SetPriority r priority =
     (if priority < HTTP_MIN_PRIORITY \<or> priority > HTTP_MAX_PRIORITY then r else r\<lparr>rq_priority := priority\<rparr>)"

definition SetRawHeader :: "HttpClientRequest \<Rightarrow> string \<Rightarrow> HttpClientRequest" where
  "SetRawHeader r header = r\<lparr>rq_rawHeader := header\<rparr>"

fun ParseHeaders_loop :: "string list \<Rightarrow> headers \<Rightarrow> headers" where
  "ParseHeaders_loop [] hs = hs"
| "ParseHeaders_loop (header # vec) hs =
     ParseHeaders_loop vec
       (if Strip header (CHR '' '') = [] then hs
        else case find_sub HTTP_HEADER_SEPARATOR header of
          None \<Rightarrow> smap_put (Strip header (CHR '' '')) [] hs
        | Some index \<Rightarrow>
            smap_put (ToLower (Strip (take index header) (CHR '' '')))
              (Strip (drop (index + 1) header) (CHR '' '')) hs)"

definition ParseHeaders :: "HttpClientRequest \<Rightarrow> HttpClientRequest" where
  "ParseHeaders r =
     r\<lparr>rq_headers := ParseHeaders_loop (Split (rq_rawHeader r) HTTP_LINE_SEPARATOR) (rq_headers r)\<rparr>"

definition ClearHeaderCache :: "HttpClientRequest \<Rightarrow> HttpClientRequest" where
  "ClearHeaderCache r = r\<lparr>rq_headers := []\<rparr>"

definition SetHttpProxy :: "HttpClientRequest \<Rightarrow> HttpProxy \<Rightarrow> HttpClientRequest" where
  "SetHttpProxy r proxy = r\<lparr>rq_proxy := proxy\<rparr>"

definition SetRequestTime :: "HttpClientRequest \<Rightarrow> string \<Rightarrow> HttpClientRequest" where
  "SetRequestTime r time = r\<lparr>rq_requestTime := time\<rparr>"

definition SetResumeFrom :: "HttpClientRequest \<Rightarrow> int \<Rightarrow> HttpClientRequest" where
  "SetResumeFrom r resumeFrom =
     (if resumeFrom \<ge> MIN_RESUM_NUMBER \<and> resumeFrom \<le> MAX_RESUM_NUMBER
      then r\<lparr>rq_resumeFrom := resumeFrom\<rparr> else r)"

definition SetResumeTo :: "HttpClientRequest \<Rightarrow> int \<Rightarrow> HttpClientRequest" where
  "SetResumeTo r resumeTo =
     (if resumeTo \<ge> MIN_RESUM_NUMBER \<and> resumeTo \<le> MAX_RESUM_NUMBER
      then r\<lparr>rq_resumeTo := resumeTo\<rparr> else r)"

definition SetClientCert :: "HttpClientRequest \<Rightarrow> HttpClientCert \<Rightarrow> HttpClientRequest" where
  "SetClientCert r clientCert = r\<lparr>rq_clientCert := clientCert\<rparr>"

definition SetAddressFamily :: "HttpClientRequest \<Rightarrow> string \<Rightarrow> HttpClientRequest" where
  "SetAddressFamily r addressFamily = r\<lparr>rq_addressFamily := addressFamily\<rparr>"

definition SetSslType :: "HttpClientRequest \<Rightarrow> SslType \<Rightarrow> HttpClientRequest" where
  "SetSslType r sslType = r\<lparr>rq_sslType := sslType\<rparr>"

definition SetClientEncCert :: "HttpClientRequest \<Rightarrow> HttpClientCert \<Rightarrow> HttpClientRequest" where
  "SetClientEncCert r clientEncCert = r\<lparr>rq_clientEncCert := clientEncCert\<rparr>"

definition SetUsingCache :: "HttpClientRequest \<Rightarrow> bool \<Rightarrow> HttpClientRequest" where
  "SetUsingCache r usingCache = r\<lparr>rq_usingCache := usingCache\<rparr>"

definition SetDNSOverHttps :: "HttpClientRequest \<Rightarrow> string \<Rightarrow> HttpClientRequest" where
  "SetDNSOverHttps r dnsOverHttps = r\<lparr>rq_dnsOverHttps := dnsOverHttps\<rparr>"

definition SetCanSkipCertVerifyFlag :: "HttpClientRequest \<Rightarrow> bool \<Rightarrow> HttpClientRequest" where
  "SetCanSkipCertVerifyFlag r canCertVerify = r\<lparr>rq_canSkipCertVerify := canCertVerify\<rparr>"

definition SetRemoteValidation :: "HttpClientRequest \<Rightarrow> string \<Rightarrow> HttpClientRequest" where
  "SetRemoteValidation r remoteValidation =
     (let r1 = r\<lparr>rq_remoteValidation := remoteValidation\<rparr>
      in if remoteValidation = ''skip'' then SetCanSkipCertVerifyFlag r1 True
         else if remoteValidation \<noteq> ''system'' then r1\<lparr>rq_remoteValidation := []\<rparr>
         else r1)"

definition SetTLSOptions :: "HttpClientRequest \<Rightarrow> TlsOption \<Rightarrow> HttpClientRequest" where
  "SetTLSOptions r tlsOptions = r\<lparr>rq_tlsOptions := tlsOptions\<rparr>"

definition SetExtraData :: "HttpClientRequest \<Rightarrow> EscapedData \<Rightarrow> HttpClientRequest" where
  "SetExtraData r extraData = r\<lparr>rq_extraData := extraData\<rparr>"

definition SetExpectDataType :: "HttpClientRequest \<Rightarrow> HttpDataType \<Rightarrow> HttpClientRequest" where
  "SetExpectDataType r dataType =
     (if dataType \<noteq> STRING \<and> dataType \<noteq> ARRAY_BUFFER \<and> dataType \<noteq> OBJECT then r
      else r\<lparr>rq_dataType := dataType\<rparr>)"

definition SetDNSServers :: "HttpClientRequest \<Rightarrow> string list \<Rightarrow> HttpClientRequest" where
  "SetDNSServers r dnsServers = r\<lparr>rq_dnsServers := dnsServers\<rparr>"

definition AddMultiFormData :: "HttpClientRequest \<Rightarrow> HttpMultiFormData \<Rightarrow> HttpClientRequest" where
  "AddMultiFormData r data = r\<lparr>rq_multiFormDataList := rq_multiFormDataList r @ [data]\<rparr>"

definition SetServerAuthentication :: "HttpClientRequest \<Rightarrow> HttpServerAuthentication \<Rightarrow> HttpClientRequest" where
  "SetServerAuthentication r server_auth = r\<lparr>rq_serverAuth := server_auth\<rparr>"

text \<open>The version numbers of curl are parameters: HTTP/3, HTTP/2, HTTP/1.1 and none.\<close>

record curl_versions =
  CURL_HTTP_VERSION_3 :: u32
  CURL_HTTP_VERSION_2_0 :: u32
  CURL_HTTP_VERSION_1_1 :: u32
  CURL_HTTP_VERSION_NONE :: u32

definition GetHttpVersion :: "curl_versions \<Rightarrow> HttpClientRequest \<Rightarrow> u32" where
  "GetHttpVersion cv r =
     (if rq_protocol r = HTTP3 then CURL_HTTP_VERSION_3 cv
      else if rq_protocol r = HTTP2 then CURL_HTTP_VERSION_2_0 cv
      else if rq_protocol r = HTTP1_1 then CURL_HTTP_VERSION_1_1 cv
      else CURL_HTTP_VERSION_NONE cv)"

definition SetCertificatePinning :: "HttpClientRequest \<Rightarrow> string \<Rightarrow> HttpClientRequest" where
  "SetCertificatePinning r certPIN = r\<lparr>rq_certificatePinning := certPIN\<rparr>"

section \<open>The response\<close>

type_synonym ResponseCode = nat

definition RC_NONE :: ResponseCode where "RC_NONE = 0"
definition RC_OK :: ResponseCode where "RC_OK = 200"
definition RC_NOT_AUTHORITATIVE :: ResponseCode where "RC_NOT_AUTHORITATIVE = 203"
definition RC_NO_CONTENT :: ResponseCode where "RC_NO_CONTENT = 204"
definition RC_MULT_CHOICE :: ResponseCode where "RC_MULT_CHOICE = 300"
definition RC_MOVED_PERM :: ResponseCode where "RC_MOVED_PERM = 301"
definition RC_MOVED_TEMP :: ResponseCode where "RC_MOVED_TEMP = 302"
definition RC_NOT_MODIFIED :: ResponseCode where "RC_NOT_MODIFIED = 304"
definition RC_NOT_FOUND :: ResponseCode where "RC_NOT_FOUND = 404"
definition RC_BAD_METHOD :: ResponseCode where "RC_BAD_METHOD = 405"
definition RC_GONE :: ResponseCode where "RC_GONE = 410"
definition RC_REQ_TOO_LONG :: ResponseCode where "RC_REQ_TOO_LONG = 414"
definition RC_NOT_IMPLEMENTED :: ResponseCode where "RC_NOT_IMPLEMENTED = 501"

record NetAddress =
  na_address :: string
  na_family :: int
  na_port :: u16

record HttpClientResponse =
  rs_responseCode :: ResponseCode
  rs_rawHeader :: string
  rs_headers :: headers
  rs_cookies :: string
  rs_responseTime :: string
  rs_requestTime :: string
  rs_result :: string
  rs_serverIpAddress :: "NetAddress option"  \<comment> \<open>\<open>None\<close>: the default constructed statistics\<close>
  rs_setCookie :: "string list"
  rs_dataType :: HttpDataType

definition new_HttpClientResponse :: HttpClientResponse where
  "new_HttpClientResponse =
     \<lparr>rs_responseCode = RC_NONE, rs_rawHeader = [], rs_headers = [], rs_cookies = [], rs_responseTime = [],
      rs_requestTime = [], rs_result = [], rs_serverIpAddress = None, rs_setCookie = [],
      rs_dataType = NO_DATA_TYPE\<rparr>"

definition AppendHeader :: "HttpClientResponse \<Rightarrow> string \<Rightarrow> HttpClientResponse" where
  "AppendHeader r data = r\<lparr>rs_rawHeader := rs_rawHeader r @ data\<rparr>"

text \<open>The loop fills the headers and, for \<open>set-cookie\<close>, a list of its own.\<close>

fun ResponseHeaders_loop :: "string list \<Rightarrow> headers \<times> string list \<Rightarrow> headers \<times> string list" where
  "ResponseHeaders_loop [] st = st"
| "ResponseHeaders_loop (header # vec) st =
     ResponseHeaders_loop vec
       (if Strip header (CHR '' '') = [] then st
        else case find_sub HTTP_HEADER_SEPARATOR header of
          None \<Rightarrow> (smap_put (Strip header (CHR '' '')) [] (fst st), snd st)
        | Some index \<Rightarrow>
            let key = ToLower (Strip (take index header) (CHR '' ''));
                val = Strip (drop (index + 1) header) (CHR '' '')
            in if key = RESPONSE_KEY_SET_COOKIE then (fst st, snd st @ [val])
               else (smap_put key val (fst st), snd st))"

definition Response_ParseHeaders :: "HttpClientResponse \<Rightarrow> HttpClientResponse" where
  "Response_ParseHeaders r =
     (let st = ResponseHeaders_loop (Split (rs_rawHeader r) HTTP_LINE_SEPARATOR) (rs_headers r, rs_setCookie r)
      in r\<lparr>rs_headers := fst st, rs_setCookie := snd st\<rparr>)"

definition AppendCookies :: "HttpClientResponse \<Rightarrow> string \<Rightarrow> HttpClientResponse" where
  "AppendCookies r data = r\<lparr>rs_cookies := rs_cookies r @ data\<rparr>"

definition SetWarning :: "HttpClientResponse \<Rightarrow> string \<Rightarrow> HttpClientResponse" where
  "SetWarning r val = r\<lparr>rs_headers := smap_put WARNING val (rs_headers r)\<rparr>"

definition Response_ClearHeaderCache :: "HttpClientResponse \<Rightarrow> HttpClientResponse" where
  "Response_ClearHeaderCache r = r\<lparr>rs_headers := [], rs_setCookie := []\<rparr>"

definition Response_Reset :: "HttpClientResponse \<Rightarrow> HttpClientResponse" where
  "Response_Reset r =
     r\<lparr>rs_result := [], rs_rawHeader := [], rs_headers := [], rs_setCookie := [], rs_cookies := [],
       rs_responseCode := RC_NONE, rs_requestTime := [], rs_responseTime := [], rs_serverIpAddress := None\<rparr>"

definition AppendResult :: "HttpClientResponse \<Rightarrow> string \<Rightarrow> HttpClientResponse" where
  "AppendResult r data = r\<lparr>rs_result := rs_result r @ data\<rparr>"

definition SetNetAddress :: "HttpClientResponse \<Rightarrow> NetAddress \<Rightarrow> HttpClientResponse" where
  "SetNetAddress r netAddress = r\<lparr>rs_serverIpAddress := Some netAddress\<rparr>"

definition SetResponseCode :: "HttpClientResponse \<Rightarrow> ResponseCode \<Rightarrow> HttpClientResponse" where
  "SetResponseCode r code = r\<lparr>rs_responseCode := code\<rparr>"

definition Response_SetRequestTime :: "HttpClientResponse \<Rightarrow> string \<Rightarrow> HttpClientResponse" where
  "Response_SetRequestTime r time = r\<lparr>rs_requestTime := time\<rparr>"

definition Response_SetResponseTime :: "HttpClientResponse \<Rightarrow> string \<Rightarrow> HttpClientResponse" where
  "Response_SetResponseTime r time = r\<lparr>rs_responseTime := time\<rparr>"

definition Response_SetRawHeader :: "HttpClientResponse \<Rightarrow> string \<Rightarrow> HttpClientResponse" where
  "Response_SetRawHeader r header = r\<lparr>rs_rawHeader := header\<rparr>"

definition SetCookies :: "HttpClientResponse \<Rightarrow> string \<Rightarrow> HttpClientResponse" where
  "SetCookies r cookies = r\<lparr>rs_cookies := cookies\<rparr>"

definition SetResult :: "HttpClientResponse \<Rightarrow> string \<Rightarrow> HttpClientResponse" where
  "SetResult r res = r\<lparr>rs_result := res\<rparr>"

definition Response_SetExpectDataType :: "HttpClientResponse \<Rightarrow> HttpDataType \<Rightarrow> HttpClientResponse" where
  "Response_SetExpectDataType r type = r\<lparr>rs_dataType := type\<rparr>"

lemmas response_setters =
  SetResponseCode_def Response_SetRequestTime_def Response_SetResponseTime_def Response_SetRawHeader_def
  SetCookies_def SetResult_def Response_SetExpectDataType_def AppendHeader_def AppendResult_def

section \<open>Errors\<close>

text \<open>
  A \<open>CURLcode\<close> is one of the enumerators the table names, or another; the error code made of it,
  \<open>HTTP_ERROR_CODE_BASE + code\<close>, is \<open>HTTP_CURL\<close>. The numbers are those of curl and play no role.
\<close>

datatype CURLcode =
    CURLE_OK
  | CURLE_UNSUPPORTED_PROTOCOL
  | CURLE_FAILED_INIT
  | CURLE_URL_MALFORMAT
  | CURLE_COULDNT_RESOLVE_PROXY
  | CURLE_COULDNT_RESOLVE_HOST
  | CURLE_COULDNT_CONNECT
  | CURLE_WEIRD_SERVER_REPLY
  | CURLE_REMOTE_ACCESS_DENIED
  | CURLE_HTTP2
  | CURLE_PARTIAL_FILE
  | CURLE_WRITE_ERROR
  | CURLE_UPLOAD_FAILED
  | CURLE_READ_ERROR
  | CURLE_OUT_OF_MEMORY
  | CURLE_OPERATION_TIMEDOUT
  | CURLE_HTTP_POST_ERROR
  | CURLE_ABORTED_BY_CALLBACK
  | CURLE_TOO_MANY_REDIRECTS
  | CURLE_GOT_NOTHING
  | CURLE_SEND_ERROR
  | CURLE_RECV_ERROR
  | CURLE_SSL_CERTPROBLEM
  | CURLE_SSL_CIPHER
  | CURLE_PEER_FAILED_VERIFICATION
  | CURLE_BAD_CONTENT_ENCODING
  | CURLE_FILESIZE_EXCEEDED
  | CURLE_REMOTE_DISK_FULL
  | CURLE_REMOTE_FILE_EXISTS
  | CURLE_SSL_CACERT_BADFILE
  | CURLE_REMOTE_FILE_NOT_FOUND
  | CURLE_AUTH_ERROR
  | CURLE_SSL_PINNEDPUBKEYNOTMATCH
  | CURLE_RANGE_ERROR
  | CURLE_OTHER nat

datatype HttpErrorCode =
    HTTP_NONE_ERR
  | HTTP_PERMISSION_DENIED_CODE
  | HTTP_PARSE_ERROR_CODE
  | HTTP_CURL CURLcode
  | HTTP_CLEARTEXT_NOT_PERMITTED
  | HTTP_REQUEST_INTERCEPTED
  | HTTP_UNKNOWN_OTHER_ERROR

definition HTTP_ERR_MAP :: "(HttpErrorCode \<times> string) list" where
  "HTTP_ERR_MAP =
    [(HTTP_NONE_ERR, ''No errors occurred''),
     (HTTP_PERMISSION_DENIED_CODE, ''Permission denied''),
     (HTTP_PARSE_ERROR_CODE, ''Parameter error''),
     (HTTP_CURL CURLE_UNSUPPORTED_PROTOCOL, ''Unsupported protocol''),
     (HTTP_CURL CURLE_FAILED_INIT, ''Failed to initialize''),
     (HTTP_CURL CURLE_URL_MALFORMAT, ''Invalid URL format or missing URL''),
     (HTTP_CURL CURLE_COULDNT_RESOLVE_PROXY, ''Failed to resolve the proxy name''),
     (HTTP_CURL CURLE_COULDNT_RESOLVE_HOST, ''Failed to resolve the host name''),
     (HTTP_CURL CURLE_COULDNT_CONNECT, ''Failed to connect to the server''),
     (HTTP_CURL CURLE_WEIRD_SERVER_REPLY, ''Invalid server response''),
     (HTTP_CURL CURLE_REMOTE_ACCESS_DENIED, ''Access to the remote resource denied''),
     (HTTP_CURL CURLE_HTTP2, ''Error in the HTTP2 framing layer''),
     (HTTP_CURL CURLE_PARTIAL_FILE, ''Transferred a partial file''),
     (HTTP_CURL CURLE_WRITE_ERROR, ''Failed to write the received data to the disk or application''),
     (HTTP_CURL CURLE_UPLOAD_FAILED, ''Upload failed''),
     (HTTP_CURL CURLE_READ_ERROR, ''Failed to open or read local data from the file or application''),
     (HTTP_CURL CURLE_OUT_OF_MEMORY, ''Out of memory''),
     (HTTP_CURL CURLE_HTTP_POST_ERROR, ''Post error''),
     (HTTP_CURL CURLE_OPERATION_TIMEDOUT, ''Operation timeout''),
     (HTTP_CURL CURLE_ABORTED_BY_CALLBACK, ''Task was canceled''),
     (HTTP_CURL CURLE_TOO_MANY_REDIRECTS, ''The number of redirections reaches the maximum allowed''),
     (HTTP_CURL CURLE_GOT_NOTHING, ''The server returned nothing (no header or data)''),
     (HTTP_CURL CURLE_SEND_ERROR, ''Failed to send data to the peer''),
     (HTTP_CURL CURLE_RECV_ERROR, ''Failed to receive data from the peer''),
     (HTTP_CURL CURLE_SSL_CERTPROBLEM, ''Local SSL certificate error''),
     (HTTP_CURL CURLE_SSL_CIPHER, ''The specified SSL cipher cannot be used''),
     (HTTP_CURL CURLE_PEER_FAILED_VERIFICATION, ''Invalid SSL peer certificate or SSH remote key''),
     (HTTP_CURL CURLE_BAD_CONTENT_ENCODING, ''Invalid HTTP encoding format''),
     (HTTP_CURL CURLE_FILESIZE_EXCEEDED, ''Maximum file size exceeded''),
     (HTTP_CURL CURLE_REMOTE_DISK_FULL, ''Remote disk full''),
     (HTTP_CURL CURLE_REMOTE_FILE_EXISTS, ''Remote file already exists''),
     (HTTP_CURL CURLE_SSL_CACERT_BADFILE, ''The SSL CA certificate does not exist or is inaccessible''),
     (HTTP_CURL CURLE_REMOTE_FILE_NOT_FOUND, ''Remote file not found''),
     (HTTP_CURL CURLE_AUTH_ERROR, ''Authentication error''),
     (HTTP_CURL CURLE_SSL_PINNEDPUBKEYNOTMATCH, ''Specified pinned public key did not match''),
     (HTTP_CLEARTEXT_NOT_PERMITTED, ''Cleartext traffic not permitted''),
     (HTTP_REQUEST_INTERCEPTED, ''The request was intercepted by the HTTP global interceptor''),
     (HTTP_UNKNOWN_OTHER_ERROR, ''Internal error'')]"

record HttpClientError =
  er_errorCode :: HttpErrorCode

definition new_HttpClientError :: HttpClientError where
  "new_HttpClientError = \<lparr>er_errorCode = HTTP_NONE_ERR\<rparr>"

text \<open>\<open>None\<close>: the end iterator would be dereferenced.\<close>

definition GetErrorMessage :: "HttpClientError \<Rightarrow> string option" where
  "GetErrorMessage e =
     (let err = (if map_of HTTP_ERR_MAP (er_errorCode e) = None then HTTP_UNKNOWN_OTHER_ERROR else er_errorCode e)
      in map_of HTTP_ERR_MAP err)"

definition SetErrorCode :: "HttpClientError \<Rightarrow> HttpErrorCode \<Rightarrow> HttpClientError" where
  "SetErrorCode e code = e\<lparr>er_errorCode := code\<rparr>"

text \<open>\<open>result > CURLE_OK\<close> is \<open>result \<noteq> CURLE_OK\<close>: curl has no negative results.\<close>

definition SetCURLResult :: "HttpClientError \<Rightarrow> CURLcode \<Rightarrow> HttpClientError" where
  "SetCURLResult e result =
     (let err = (if result \<noteq> CURLE_OK
                 then if map_of HTTP_ERR_MAP (HTTP_CURL result) \<noteq> None then HTTP_CURL result
                      else HTTP_UNKNOWN_OTHER_ERROR
                 else HTTP_NONE_ERR)
      in SetErrorCode e err)"

section \<open>Requests that a caller can build\<close>

inductive request_reach :: "HttpClientRequest \<Rightarrow> bool" where
  rq_new: "request_reach new_HttpClientRequest"
| rq_SetHeader: "request_reach r \<Longrightarrow> request_reach (SetHeader r k v)"
| rq_SetCertsPath: "request_reach r \<Longrightarrow> request_reach (SetCertsPath r ps f)"
| rq_ParseHeaders: "request_reach r \<Longrightarrow> request_reach (ParseHeaders r)"
| rq_ClearHeaderCache: "request_reach r \<Longrightarrow> request_reach (ClearHeaderCache r)"
| rq_SetURL: "request_reach r \<Longrightarrow> request_reach (SetURL r u)"
| rq_SetMethod: "request_reach r \<Longrightarrow> request_reach (SetMethod r m)"
| rq_SetBody: "request_reach r \<Longrightarrow> request_reach (SetBody r b)"
| rq_ReplaceBody: "request_reach r \<Longrightarrow> request_reach (ReplaceBody r b)"
| rq_SetTimeout: "request_reach r \<Longrightarrow> request_reach (SetTimeout r t)"
| rq_SetConnectTimeout: "request_reach r \<Longrightarrow> request_reach (SetConnectTimeout r t)"
| rq_SetHttpProtocol: "request_reach r \<Longrightarrow> request_reach (SetHttpProtocol r p)"
| rq_SetHttpProxyType: "request_reach r \<Longrightarrow> request_reach (SetHttpProxyType r p)"
| rq_SetMaxLimit: "request_reach r \<Longrightarrow> request_reach (SetMaxLimit r l)"
| rq_SetCaPath: "request_reach r \<Longrightarrow> request_reach (SetCaPath r c)"
| rq_SetPriority: "request_reach r \<Longrightarrow> request_reach (SetPriority r p)"
| rq_SetRawHeader: "request_reach r \<Longrightarrow> request_reach (SetRawHeader r h)"
| rq_SetHttpProxy: "request_reach r \<Longrightarrow> request_reach (SetHttpProxy r p)"
| rq_SetRequestTime: "request_reach r \<Longrightarrow> request_reach (SetRequestTime r t)"
| rq_SetResumeFrom: "request_reach r \<Longrightarrow> request_reach (SetResumeFrom r n)"
| rq_SetResumeTo: "request_reach r \<Longrightarrow> request_reach (SetResumeTo r n)"
| rq_SetClientCert: "request_reach r \<Longrightarrow> request_reach (SetClientCert r c)"
| rq_SetAddressFamily: "request_reach r \<Longrightarrow> request_reach (SetAddressFamily r a)"
| rq_SetSslType: "request_reach r \<Longrightarrow> request_reach (SetSslType r t)"
| rq_SetClientEncCert: "request_reach r \<Longrightarrow> request_reach (SetClientEncCert r c)"
| rq_SetUsingCache: "request_reach r \<Longrightarrow> request_reach (SetUsingCache r u)"
| rq_SetDNSOverHttps: "request_reach r \<Longrightarrow> request_reach (SetDNSOverHttps r d)"
| rq_SetCanSkipCertVerifyFlag: "request_reach r \<Longrightarrow> request_reach (SetCanSkipCertVerifyFlag r f)"
| rq_SetRemoteValidation: "request_reach r \<Longrightarrow> request_reach (SetRemoteValidation r v)"
| rq_SetTLSOptions: "request_reach r \<Longrightarrow> request_reach (SetTLSOptions r t)"
| rq_SetExtraData: "request_reach r \<Longrightarrow> request_reach (SetExtraData r d)"
| rq_SetExpectDataType: "request_reach r \<Longrightarrow> request_reach (SetExpectDataType r d)"
| rq_SetDNSServers: "request_reach r \<Longrightarrow> request_reach (SetDNSServers r d)"
| rq_AddMultiFormData: "request_reach r \<Longrightarrow> request_reach (AddMultiFormData r d)"
| rq_SetServerAuthentication: "request_reach r \<Longrightarrow> request_reach (SetServerAuthentication r a)"
| rq_SetCertificatePinning: "request_reach r \<Longrightarrow> request_reach (SetCertificatePinning r c)"

lemmas request_ops =
  SetHeader_def SetCertsPath_def ParseHeaders_def ClearHeaderCache_def
  SetURL_def SetMethod_def SetBody_def ReplaceBody_def
  SetTimeout_def SetConnectTimeout_def SetHttpProtocol_def SetHttpProxyType_def
  SetMaxLimit_def SetCaPath_def SetPriority_def SetRawHeader_def
  SetHttpProxy_def SetRequestTime_def SetResumeFrom_def SetResumeTo_def
  SetClientCert_def SetAddressFamily_def SetSslType_def SetClientEncCert_def
  SetUsingCache_def SetDNSOverHttps_def SetCanSkipCertVerifyFlag_def SetRemoteValidation_def
  SetTLSOptions_def SetExtraData_def SetExpectDataType_def SetDNSServers_def
  AddMultiFormData_def SetServerAuthentication_def SetCertificatePinning_def

lemma smap_ok_ParseHeaders_loop: "smap_ok hs \<Longrightarrow> smap_ok (ParseHeaders_loop vec hs)"
  by (induction vec hs rule: ParseHeaders_loop.induct) (auto split: option.splits)

definition request_ok :: "HttpClientRequest \<Rightarrow> bool" where
  "request_ok r \<longleftrightarrow>
     (MethodForGet (rq_method r) \<or> MethodForPost (rq_method r) \<or> rq_method r = []) \<and>
     rq_priority r \<noteq> 0 \<and> rq_priority r \<le> 1000 \<and> rq_maxLimit r \<le> 100 * 1024 * 1024 \<and>
     (rq_resumeFrom r = 0 \<or> 1 \<le> rq_resumeFrom r \<and> rq_resumeFrom r \<le> 2 ^ 32) \<and>
     (rq_resumeTo r = 0 \<or> 1 \<le> rq_resumeTo r \<and> rq_resumeTo r \<le> 2 ^ 32) \<and>
     rq_remoteValidation r \<in> {[], ''skip'', ''system''} \<and>
     smap_ok (rq_headers r)"

lemma request_ok_ops:
  assumes "request_ok r"
  shows "request_ok (SetHeader r k v)" and "request_ok (SetCertsPath r ps f)"
    and "request_ok (ParseHeaders r)" and "request_ok (ClearHeaderCache r)"
    and "request_ok (SetURL r x_SetURL)"
    and "request_ok (SetMethod r x_SetMethod)"
    and "request_ok (SetBody r x_SetBody)"
    and "request_ok (ReplaceBody r x_ReplaceBody)"
    and "request_ok (SetTimeout r x_SetTimeout)"
    and "request_ok (SetConnectTimeout r x_SetConnectTimeout)"
    and "request_ok (SetHttpProtocol r x_SetHttpProtocol)"
    and "request_ok (SetHttpProxyType r x_SetHttpProxyType)"
    and "request_ok (SetMaxLimit r x_SetMaxLimit)"
    and "request_ok (SetCaPath r x_SetCaPath)"
    and "request_ok (SetPriority r x_SetPriority)"
    and "request_ok (SetRawHeader r x_SetRawHeader)"
    and "request_ok (SetHttpProxy r x_SetHttpProxy)"
    and "request_ok (SetRequestTime r x_SetRequestTime)"
    and "request_ok (SetResumeFrom r x_SetResumeFrom)"
    and "request_ok (SetResumeTo r x_SetResumeTo)"
    and "request_ok (SetClientCert r x_SetClientCert)"
    and "request_ok (SetAddressFamily r x_SetAddressFamily)"
    and "request_ok (SetSslType r x_SetSslType)"
    and "request_ok (SetClientEncCert r x_SetClientEncCert)"
    and "request_ok (SetUsingCache r x_SetUsingCache)"
    and "request_ok (SetDNSOverHttps r x_SetDNSOverHttps)"
    and "request_ok (SetCanSkipCertVerifyFlag r x_SetCanSkipCertVerifyFlag)"
    and "request_ok (SetRemoteValidation r x_SetRemoteValidation)"
    and "request_ok (SetTLSOptions r x_SetTLSOptions)"
    and "request_ok (SetExtraData r x_SetExtraData)"
    and "request_ok (SetExpectDataType r x_SetExpectDataType)"
    and "request_ok (SetDNSServers r x_SetDNSServers)"
    and "request_ok (AddMultiFormData r x_AddMultiFormData)"
    and "request_ok (SetServerAuthentication r x_SetServerAuthentication)"
    and "request_ok (SetCertificatePinning r x_SetCertificatePinning)"
  using assms unfolding request_ok_def request_ops
  by (auto simp: smap_ok_ParseHeaders_loop MAX_LIMIT_def HTTP_MIN_PRIORITY_def HTTP_MAX_PRIORITY_def
      MIN_RESUM_NUMBER_def MAX_RESUM_NUMBER_def not_less)

lemma request_ok_new: "request_ok new_HttpClientRequest"
  by (simp add: request_ok_def new_HttpClientRequest_def MethodForGet_def HTTP_DEFAULT_PRIORITY_def
      MAX_DATA_LIMIT_def)

section \<open>Reading headers back\<close>

definition header_line :: "string \<times> string \<Rightarrow> string" where
  "header_line kv = fst kv @ '': '' @ snd kv"

definition header_field_ok :: "string \<times> string \<Rightarrow> bool" where
  "header_field_ok kv \<longleftrightarrow>
     fst kv \<noteq> [] \<and> CHR '':'' \<notin> set (fst kv) \<and> CHR 0x0D \<notin> set (fst kv) \<and> CHR 0x0D \<notin> set (snd kv) \<and>
     hd (fst kv) \<noteq> CHR '' '' \<and> last (fst kv) \<noteq> CHR '' '' \<and>
     (snd kv \<noteq> [] \<longrightarrow> hd (snd kv) \<noteq> CHR '' '' \<and> last (snd kv) \<noteq> CHR '' '')"

lemma find_sub_line_separator:
  "CHR 0x0D \<notin> set p \<Longrightarrow> find_sub HTTP_LINE_SEPARATOR (p @ HTTP_LINE_SEPARATOR @ t) = Some (length p)"
  by (induction p) (auto simp: HTTP_LINE_SEPARATOR_def)

lemma Split_loop_lines:
  "\<forall>p \<in> set ps. CHR 0x0D \<notin> set p \<Longrightarrow>
     Split_loop HTTP_LINE_SEPARATOR (concat (map (\<lambda>p. p @ HTTP_LINE_SEPARATOR) ps)) res = res @ ps"
proof (induction ps arbitrary: res)
  case Nil
  then show ?case by (subst Split_loop.simps) simp
next
  case (Cons p ps)
  have "find_sub HTTP_LINE_SEPARATOR (p @ HTTP_LINE_SEPARATOR @ concat (map (\<lambda>p. p @ HTTP_LINE_SEPARATOR) ps)) =
      Some (length p)"
    using Cons.prems by (intro find_sub_line_separator) simp
  then show ?case
    using Cons.IH [of "res @ [p]"] Cons.prems
    by (subst Split_loop.simps) (simp add: HTTP_LINE_SEPARATOR_def)
qed

lemma Split_lines:
  "\<forall>p \<in> set ps. CHR 0x0D \<notin> set p \<Longrightarrow>
     Split (concat (map (\<lambda>p. p @ HTTP_LINE_SEPARATOR) ps)) HTTP_LINE_SEPARATOR = ps"
  using Split_loop_lines [of ps "[]"] by (simp add: Split_def HTTP_LINE_SEPARATOR_def)

lemma Strip_id:
  assumes "s \<noteq> []" and "hd s \<noteq> c" and "last s \<noteq> c"
  shows "Strip s c = s"
proof -
  obtain x xs where s: "s = x # xs" using assms(1) by (cases s) auto
  show ?thesis
    using strip_ref_run [of "[]" "\<lambda>x. x = c" "[]" x xs] assms by (simp add: Strip_eq s)
qed

lemma Strip_lead: "Strip (c # s) c = Strip s c"
  by (simp add: Strip_eq strip_ref_def)

lemma Strip_Nil [simp]: "Strip [] c = []"
  by (simp add: Strip_def)

lemma header_line_parts:
  assumes "header_field_ok kv"
  shows "Strip (header_line kv) (CHR '' '') \<noteq> []"
    and "find_sub HTTP_HEADER_SEPARATOR (header_line kv) = Some (length (fst kv))"
    and "Strip (take (length (fst kv)) (header_line kv)) (CHR '' '') = fst kv"
    and "Strip (drop (length (fst kv) + 1) (header_line kv)) (CHR '' '') = snd kv"
proof -
  have k: "fst kv \<noteq> []" "hd (fst kv) \<noteq> CHR '' ''" "last (fst kv) \<noteq> CHR '' ''" "CHR '':'' \<notin> set (fst kv)"
    using assms by (auto simp: header_field_ok_def)
  show "find_sub HTTP_HEADER_SEPARATOR (header_line kv) = Some (length (fst kv))"
    using k(4) by (simp add: header_line_def HTTP_HEADER_SEPARATOR_def)
  show "Strip (take (length (fst kv)) (header_line kv)) (CHR '' '') = fst kv"
    using k by (simp add: header_line_def Strip_id)
  have "Strip (snd kv) (CHR '' '') = snd kv"
    using assms by (cases "snd kv = []") (auto simp: header_field_ok_def intro: Strip_id)
  then show "Strip (drop (length (fst kv) + 1) (header_line kv)) (CHR '' '') = snd kv"
    by (simp add: header_line_def Strip_lead)
  show "Strip (header_line kv) (CHR '' '') \<noteq> []"
  proof
    assume "Strip (header_line kv) (CHR '' '') = []"
    then have "\<forall>c \<in> set (dropWhile (\<lambda>c. c = CHR '' '') (header_line kv)). c = CHR '' ''"
      unfolding Strip_eq strip_ref_def rev_is_Nil_conv dropWhile_eq_Nil_conv set_rev .
    moreover have "dropWhile (\<lambda>c. c = CHR '' '') (header_line kv) = header_line kv"
      using k by (cases "fst kv") (simp_all add: header_line_def)
    moreover have "CHR '':'' \<in> set (header_line kv)"
      by (simp add: header_line_def)
    ultimately have "CHR '':'' = CHR '' ''"
      by metis
    then show False by simp
  qed
qed

definition put_header :: "string \<times> string \<Rightarrow> headers \<Rightarrow> headers" where
  "put_header kv hs = smap_put (ToLower (fst kv)) (snd kv) hs"

definition is_cookie :: "string \<times> string \<Rightarrow> bool" where
  "is_cookie kv \<longleftrightarrow> ToLower (fst kv) = ''set-cookie''"

lemma ResponseHeaders_loop_lines:
  "\<forall>kv \<in> set kvs. header_field_ok kv \<Longrightarrow>
     ResponseHeaders_loop (map header_line kvs) st =
       (fold put_header (filter (\<lambda>kv. \<not> is_cookie kv) kvs) (fst st), snd st @ map snd (filter is_cookie kvs))"
proof (induction kvs arbitrary: st)
  case (Cons kv kvs)
  then show ?case
    using header_line_parts [of kv]
    by (simp add: is_cookie_def put_header_def RESPONSE_KEY_SET_COOKIE_def)
qed simp

lemma header_line_no_cr: "header_field_ok kv \<Longrightarrow> CHR 0x0D \<notin> set (header_line kv)"
  by (auto simp: header_field_ok_def header_line_def)

definition raw_headers :: "(string \<times> string) list \<Rightarrow> string" where
  "raw_headers kvs = concat (map (\<lambda>kv. header_line kv @ HTTP_LINE_SEPARATOR) kvs)"

lemma Response_ParseHeaders_eq:
  assumes "\<forall>kv \<in> set kvs. header_field_ok kv" and "rs_rawHeader r = raw_headers kvs"
    and "rs_headers r = []" and "rs_setCookie r = []"
  shows "Response_ParseHeaders r =
    r\<lparr>rs_headers := fold put_header (filter (\<lambda>kv. \<not> is_cookie kv) kvs) [],
      rs_setCookie := map snd (filter is_cookie kvs)\<rparr>"
proof -
  have "raw_headers kvs = concat (map (\<lambda>p. p @ HTTP_LINE_SEPARATOR) (map header_line kvs))"
    by (simp add: raw_headers_def comp_def)
  then have "Split (rs_rawHeader r) HTTP_LINE_SEPARATOR = map header_line kvs"
    using Split_lines [of "map header_line kvs"] assms(1,2) header_line_no_cr by auto
  then show ?thesis
    using ResponseHeaders_loop_lines [OF assms(1)] assms(3,4) by (simp add: Response_ParseHeaders_def)
qed

section \<open>Properties\<close>



text \<open>
  Once certificate verification may be skipped, no validation mode set later withdraws that:
  choosing \<open>system\<close> after \<open>skip\<close> leaves the flag set.
\<close>

lemma skip_is_sticky:
  assumes "rq_canSkipCertVerify r"
  shows "rq_canSkipCertVerify (SetRemoteValidation r v) \<and>
    rq_canSkipCertVerify (SetRemoteValidation (SetRemoteValidation r2 ''skip'') ''system'') \<and>
    rq_remoteValidation (SetRemoteValidation (SetRemoteValidation r2 ''skip'') ''system'') = ''system''"
  using assms by (simp add: SetRemoteValidation_def SetCanSkipCertVerifyFlag_def)

text \<open>
  C23. Headers written one per line as \<open>name: value\<close> are read back exactly: names in lower case,
  values unchanged, the value of the last line of a name, and every \<open>set-cookie\<close> in a list of
  its own in the order received.
\<close>

theorem response_headers_roundtrip:
  assumes "\<forall>kv \<in> set kvs. header_field_ok kv"
  shows "let r = Response_ParseHeaders (AppendHeader new_HttpClientResponse (raw_headers kvs)) in
    (\<forall>k. map_of (rs_headers r) k =
       map_of (rev (map (\<lambda>kv. (ToLower (fst kv), snd kv)) (filter (\<lambda>kv. \<not> is_cookie kv) kvs))) k) \<and>
    rs_setCookie r = map snd (filter is_cookie kvs)"
proof -
  have "map_of (fold put_header hs m) = map_of m ++ map_of (rev (map (\<lambda>kv. (ToLower (fst kv), snd kv)) hs))" for hs m
    by (induction hs arbitrary: m) (simp_all add: put_header_def)
  then show ?thesis
    using Response_ParseHeaders_eq [OF assms, of "AppendHeader new_HttpClientResponse (raw_headers kvs)"]
    by (simp add: AppendHeader_def new_HttpClientResponse_def)
qed

theorem response_headers_roundtrip_witness:
  "map_of (rs_headers (Response_ParseHeaders (AppendHeader new_HttpClientResponse
     (raw_headers [(''ETag'', ''x''), (''Set-Cookie'', ''a=b'')])))) ''etag'' = Some ''x''"
proof -
  have "\<forall>kv \<in> set [(''ETag'', ''x''), (''Set-Cookie'', ''a=b'')]. header_field_ok kv"
    by (simp add: header_field_ok_def)
  moreover have "ToLower ''ETag'' = ''etag''" "ToLower ''Set-Cookie'' = ''set-cookie''"
    by code_simp+
  ultimately show ?thesis
    using response_headers_roundtrip [of "[(''ETag'', ''x''), (''Set-Cookie'', ''a=b'')]"]
    by (simp add: is_cookie_def)
qed

text \<open>
  Every error code has a message, so the lookup never dereferences the end of the table; a
  curl result maps to success exactly when it is \<open>CURLE_OK\<close>, to its own code when the table names
  it and to the unknown error otherwise, which includes \<open>CURLE_RANGE_ERROR\<close>, although an error code
  is declared for it.
\<close>

lemma error_codes:
  "GetErrorMessage e \<noteq> None \<and>
   (er_errorCode (SetCURLResult e result) = HTTP_NONE_ERR) = (result = CURLE_OK) \<and>
   (if result \<noteq> CURLE_OK \<and> HTTP_CURL result \<in> fst ` set HTTP_ERR_MAP
    then er_errorCode (SetCURLResult e result) = HTTP_CURL result
    else er_errorCode (SetCURLResult e result) \<in> {HTTP_NONE_ERR, HTTP_UNKNOWN_OTHER_ERROR}) \<and>
   er_errorCode (SetCURLResult e CURLE_RANGE_ERROR) = HTTP_UNKNOWN_OTHER_ERROR"
proof -
  have "map_of HTTP_ERR_MAP HTTP_UNKNOWN_OTHER_ERROR \<noteq> None"
    by (simp add: HTTP_ERR_MAP_def)
  then have "GetErrorMessage e \<noteq> None"
    by (simp add: GetErrorMessage_def)
  moreover have "map_of HTTP_ERR_MAP (HTTP_CURL CURLE_RANGE_ERROR) = None"
    by (simp add: HTTP_ERR_MAP_def)
  ultimately show ?thesis
    by (auto simp: SetCURLResult_def SetErrorCode_def map_of_eq_None_iff)
qed

end
