(* ===== verification/Http_Cache_Strategy.thy ===== *)
theory Http_Cache_Strategy
  imports Http_Message "HOL-Library.Monad_Syntax"
begin

text \<open>
  The decision whether a cached response may be used
  (\<open>interfaces/innerkits/http_client/cache/cache_strategy\<close>): \<open>HttpCacheRequest\<close> and
  \<open>HttpCacheResponse\<close> hold the parsed headers, \<open>HttpCacheStrategy\<close> computes age and
  freshness lifetime and decides \<open>FRESH\<close>, \<open>STALE\<close> or \<open>DENY\<close>.

  The clock, \<open>std::get_time\<close> and \<open>std::mktime\<close> (which depend on the locale and the time zone of
  the process) are the environment \<open>time_env\<close>. \<open>int64_t\<close> arithmetic that overflows is undefined
  behaviour in C++: such a computation has the value \<open>None\<close>.
\<close>

section \<open>Times\<close>

record tm =
  tm_year :: int
  tm_mon :: int
  tm_mday :: int
  tm_hour :: int
  tm_min :: int
  tm_sec :: int

record time_env =
  te_now :: int
  te_get_time :: "string \<Rightarrow> tm"
  te_mktime :: "tm \<Rightarrow> int"

definition GetNowTimeSeconds :: "time_env \<Rightarrow> int" where
  "GetNowTimeSeconds env = te_now env"

definition StrTimeToTimestamp :: "time_env \<Rightarrow> string \<Rightarrow> int" where
  "StrTimeToTimestamp env time_str = te_mktime env (te_get_time env time_str)"

definition INVALID_TIME :: int where
  "INVALID_TIME = -1"

definition checked :: "int \<Rightarrow> int option" where
  "checked x = (if in_i64 x then Some x else None)"

section \<open>Header constants\<close>

definition SPLIT :: string where "SPLIT = '', ''"
definition EQUAL :: char where "EQUAL = CHR ''=''"
definition NO_CACHE :: string where "NO_CACHE = ''no-cache''"
definition NO_STORE :: string where "NO_STORE = ''no-store''"
definition NO_TRANSFORM :: string where "NO_TRANSFORM = ''no-transform''"
definition ONLY_IF_CACHED :: string where "ONLY_IF_CACHED = ''only-if-cached''"
definition MAX_AGE :: string where "MAX_AGE = ''max-age''"
definition MAX_STALE :: string where "MAX_STALE = ''max-stale''"
definition MIN_FRESH :: string where "MIN_FRESH = ''min-fresh''"
definition CACHE_CONTROL :: string where "CACHE_CONTROL = ''cache-control''"
definition IF_MODIFIED_SINCE :: string where "IF_MODIFIED_SINCE = ''if-modified-since''"
definition IF_NONE_MATCH :: string where "IF_NONE_MATCH = ''if-none-match''"
definition MUST_REVALIDATE :: string where "MUST_REVALIDATE = ''must-revalidate''"
definition PUBLIC :: string where "PUBLIC = ''public''"
definition PRIVATE :: string where "PRIVATE = ''private''"
definition PROXY_REVALIDATE :: string where "PROXY_REVALIDATE = ''proxy-revalidate''"
definition S_MAXAGE :: string where "S_MAXAGE = ''s-maxage''"
definition EXPIRES :: string where "EXPIRES = ''expires''"
definition LAST_MODIFIED :: string where "LAST_MODIFIED = ''last-modified''"
definition ETAG :: string where "ETAG = ''etag''"
definition AGE :: string where "AGE = ''age''"
definition DATE :: string where "DATE = ''date''"

section \<open>\<open>HttpCacheRequest\<close>\<close>

record HttpCacheRequest =
  cq_requestTime :: string
  cq_ifModifiedSince :: string
  cq_ifNoneMatch :: string
  cq_maxAge :: string
  cq_maxStale :: string
  cq_minFresh :: string
  cq_noCache :: bool
  cq_noStore :: bool
  cq_noTransform :: bool
  cq_onlyIfCached :: bool

definition new_HttpCacheRequest :: HttpCacheRequest where
  "new_HttpCacheRequest =
     \<lparr>cq_requestTime = [], cq_ifModifiedSince = [], cq_ifNoneMatch = [], cq_maxAge = [], cq_maxStale = [],
      cq_minFresh = [], cq_noCache = False, cq_noStore = False, cq_noTransform = False, cq_onlyIfCached = False\<rparr>"

definition request_directive :: "string \<Rightarrow> HttpCacheRequest \<Rightarrow> HttpCacheRequest" where
  "request_directive str q =
     (let q1 = (if str = NO_CACHE then q\<lparr>cq_noCache := True\<rparr>
                else if str = NO_STORE then q\<lparr>cq_noStore := True\<rparr>
                else if str = NO_TRANSFORM then q\<lparr>cq_noTransform := True\<rparr>
                else if str = ONLY_IF_CACHED then q\<lparr>cq_onlyIfCached := True\<rparr>
                else q)
      in case find_sub [EQUAL] str of
           None \<Rightarrow> q1
         | Some pos \<Rightarrow>
             let key = take pos str; value = drop (pos + 1) str
             in if key = MAX_AGE then q1\<lparr>cq_maxAge := value\<rparr>
                else if key = MAX_STALE then q1\<lparr>cq_maxStale := value\<rparr>
                else if key = MIN_FRESH then q1\<lparr>cq_minFresh := value\<rparr>
                else q1)"

definition Request_ParseCacheControl :: "HttpCacheRequest \<Rightarrow> string \<Rightarrow> HttpCacheRequest" where
  "Request_ParseCacheControl q cacheControl = fold request_directive (Split cacheControl SPLIT) q"

fun ParseRequestHeader :: "HttpCacheRequest \<Rightarrow> headers \<Rightarrow> HttpCacheRequest" where
  "ParseRequestHeader q [] = q"
| "ParseRequestHeader q (p # hs) =
     (let key = ToLower (fst p); value = snd p
      in ParseRequestHeader
        (if key = CACHE_CONTROL then Request_ParseCacheControl q value
         else if key = IF_MODIFIED_SINCE then q\<lparr>cq_ifModifiedSince := value\<rparr>
         else if key = IF_NONE_MATCH then q\<lparr>cq_ifNoneMatch := value\<rparr>
         else q) hs)"

definition Request_SetRequestTime :: "HttpCacheRequest \<Rightarrow> string \<Rightarrow> HttpCacheRequest" where
  "Request_SetRequestTime q requestTime = q\<lparr>cq_requestTime := requestTime\<rparr>"

definition time_field :: "time_env \<Rightarrow> string \<Rightarrow> int" where
  "time_field env s = (if s = [] then INVALID_TIME else StrTimeToTimestamp env s)"

definition seconds_field :: "string \<Rightarrow> int" where
  "seconds_field s = (if s = [] then INVALID_TIME else strtol10 (c_str s))"

definition Request_GetIfModifiedSince :: "time_env \<Rightarrow> HttpCacheRequest \<Rightarrow> int" where
  "Request_GetIfModifiedSince env q = time_field env (cq_ifModifiedSince q)"

definition Request_GetRequestTime :: "time_env \<Rightarrow> HttpCacheRequest \<Rightarrow> int" where
  "Request_GetRequestTime env q = time_field env (cq_requestTime q)"

definition Request_GetMaxAgeSeconds :: "HttpCacheRequest \<Rightarrow> int" where
  "Request_GetMaxAgeSeconds q = seconds_field (cq_maxAge q)"

definition Request_GetMaxStaleSeconds :: "HttpCacheRequest \<Rightarrow> int" where
  "Request_GetMaxStaleSeconds q = seconds_field (cq_maxStale q)"

definition Request_GetMinFreshSeconds :: "HttpCacheRequest \<Rightarrow> int" where
  "Request_GetMinFreshSeconds q = seconds_field (cq_minFresh q)"

section \<open>\<open>HttpCacheResponse\<close>\<close>

record HttpCacheResponse =
  cs_mustRevalidate :: bool
  cs_noCache :: bool
  cs_noStore :: bool
  cs_publicCache :: bool
  cs_privateCache :: bool
  cs_proxyRevalidate :: bool
  cs_noTransform :: bool
  cs_respCode :: ResponseCode
  cs_maxAge :: string
  cs_sMaxAge :: string
  cs_expires :: string
  cs_lastModified :: string
  cs_etag :: string
  cs_age :: string
  cs_date :: string
  cs_responseTime :: string
  cs_requestTime :: string

definition new_HttpCacheResponse :: HttpCacheResponse where
  "new_HttpCacheResponse =
     \<lparr>cs_mustRevalidate = False, cs_noCache = False, cs_noStore = False, cs_publicCache = False,
      cs_privateCache = False, cs_proxyRevalidate = False, cs_noTransform = False, cs_respCode = 0,
      cs_maxAge = [], cs_sMaxAge = [], cs_expires = [], cs_lastModified = [], cs_etag = [], cs_age = [],
      cs_date = [], cs_responseTime = [], cs_requestTime = []\<rparr>"

definition response_directive :: "string \<Rightarrow> HttpCacheResponse \<Rightarrow> HttpCacheResponse" where
  "response_directive str s =
     (let s1 = (if str = NO_CACHE then s\<lparr>cs_noCache := True\<rparr>
                else if str = NO_STORE then s\<lparr>cs_noStore := True\<rparr>
                else if str = NO_TRANSFORM then s\<lparr>cs_noTransform := True\<rparr>
                else if str = MUST_REVALIDATE then s\<lparr>cs_mustRevalidate := True\<rparr>
                else if str = PUBLIC then s\<lparr>cs_publicCache := True\<rparr>
                else if str = PRIVATE then s\<lparr>cs_privateCache := True\<rparr>
                else if str = PROXY_REVALIDATE then s\<lparr>cs_proxyRevalidate := True\<rparr>
                else s)
      in case find_sub ''='' str of
           None \<Rightarrow> s1
         | Some pos \<Rightarrow>
             let key = take pos str; value = drop (pos + 1) str
             in if key = MAX_AGE then s1\<lparr>cs_maxAge := value\<rparr>
                else if key = S_MAXAGE then s1\<lparr>cs_sMaxAge := value\<rparr>
                else s1)"

definition Response_ParseCacheControl :: "HttpCacheResponse \<Rightarrow> string \<Rightarrow> HttpCacheResponse" where
  "Response_ParseCacheControl s cacheControl = fold response_directive (Split cacheControl SPLIT) s"

fun ParseCacheResponseHeader :: "HttpCacheResponse \<Rightarrow> headers \<Rightarrow> HttpCacheResponse" where
  "ParseCacheResponseHeader s [] = s"
| "ParseCacheResponseHeader s (p # hs) =
     (let key = ToLower (fst p); value = snd p
      in ParseCacheResponseHeader
        (if key = CACHE_CONTROL then Response_ParseCacheControl s value
         else if key = EXPIRES then s\<lparr>cs_expires := value\<rparr>
         else if key = LAST_MODIFIED then s\<lparr>cs_lastModified := value\<rparr>
         else if key = ETAG then s\<lparr>cs_etag := value\<rparr>
         else if key = AGE then s\<lparr>cs_age := value\<rparr>
         else if key = DATE then s\<lparr>cs_date := value\<rparr>
         else s) hs)"

definition Response_GetDate :: "time_env \<Rightarrow> HttpCacheResponse \<Rightarrow> int" where
  "Response_GetDate env s = time_field env (cs_date s)"

definition Response_GetExpires :: "time_env \<Rightarrow> HttpCacheResponse \<Rightarrow> int" where
  "Response_GetExpires env s = time_field env (cs_expires s)"

definition Response_GetLastModified :: "time_env \<Rightarrow> HttpCacheResponse \<Rightarrow> int" where
  "Response_GetLastModified env s = time_field env (cs_lastModified s)"

definition Response_GetAgeSeconds :: "HttpCacheResponse \<Rightarrow> int" where
  "Response_GetAgeSeconds s = seconds_field (cs_age s)"

definition Response_GetMaxAgeSeconds :: "HttpCacheResponse \<Rightarrow> int" where
  "Response_GetMaxAgeSeconds s = seconds_field (cs_maxAge s)"

definition Response_GetSMaxAgeSeconds :: "HttpCacheResponse \<Rightarrow> int" where
  "Response_GetSMaxAgeSeconds s = seconds_field (cs_sMaxAge s)"

definition Response_GetResponseTime :: "time_env \<Rightarrow> HttpCacheResponse \<Rightarrow> int" where
  "Response_GetResponseTime env s = time_field env (cs_responseTime s)"

definition Response_GetRequestTime :: "time_env \<Rightarrow> HttpCacheResponse \<Rightarrow> int" where
  "Response_GetRequestTime env s = time_field env (cs_requestTime s)"

definition CacheResponse_SetResponseTime :: "HttpCacheResponse \<Rightarrow> string \<Rightarrow> HttpCacheResponse" where
  "CacheResponse_SetResponseTime s responseTime = s\<lparr>cs_responseTime := responseTime\<rparr>"

definition SetRespCode :: "HttpCacheResponse \<Rightarrow> ResponseCode \<Rightarrow> HttpCacheResponse" where
  "SetRespCode s respCode = s\<lparr>cs_respCode := respCode\<rparr>"

definition CacheResponse_SetRequestTime :: "HttpCacheResponse \<Rightarrow> string \<Rightarrow> HttpCacheResponse" where
  "CacheResponse_SetRequestTime s requestTime = s\<lparr>cs_requestTime := requestTime\<rparr>"

section \<open>\<open>HttpCacheStrategy\<close>\<close>

datatype CacheStatus = FRESH | STALE | DENY

record HttpCacheStrategy =
  st_requestOptions :: HttpClientRequest
  st_cacheResponse :: HttpCacheResponse
  st_cacheRequest :: HttpCacheRequest

definition ONE_DAY_MILLISECONDS :: int where
  "ONE_DAY_MILLISECONDS = 24 * 60 * 60 * 1000"

definition CONVERT_TO_MILLISECONDS :: int where
  "CONVERT_TO_MILLISECONDS = 1000"

definition KEY_RANGE :: string where
  "KEY_RANGE = ''range''"

definition DECIMAL :: int where
  "DECIMAL = 10"

definition new_HttpCacheStrategy :: "HttpClientRequest \<Rightarrow> HttpCacheStrategy" where
  "new_HttpCacheStrategy requestOptions =
     \<lparr>st_requestOptions = requestOptions, st_cacheResponse = new_HttpCacheResponse,
      st_cacheRequest = Request_SetRequestTime (ParseRequestHeader new_HttpCacheRequest (rq_headers requestOptions))
        (rq_requestTime requestOptions)\<rparr>"

definition CouldUseCache :: "HttpCacheStrategy \<Rightarrow> bool" where
  "CouldUseCache st \<longleftrightarrow>
     rq_method (st_requestOptions st) = HTTP_METHOD_GET \<or>
     rq_method (st_requestOptions st) = HTTP_METHOD_HEAD \<or>
     map_of (rq_headers (st_requestOptions st)) KEY_RANGE \<noteq> None"

definition IsCacheable :: "time_env \<Rightarrow> HttpCacheStrategy \<Rightarrow> HttpCacheResponse \<Rightarrow> bool" where
  "IsCacheable env st s =
     (let code = cs_respCode s
      in if code \<in> {RC_OK, RC_NOT_AUTHORITATIVE, RC_NO_CONTENT, RC_MULT_CHOICE, RC_MOVED_PERM, RC_NOT_FOUND,
                    RC_BAD_METHOD, RC_GONE, RC_REQ_TOO_LONG, RC_NOT_IMPLEMENTED} \<or>
            code = RC_MOVED_TEMP \<and>
            (Response_GetExpires env s \<noteq> INVALID_TIME \<or> Response_GetMaxAgeSeconds s \<noteq> INVALID_TIME \<or>
             cs_publicCache s \<or> cs_privateCache s)
         then \<not> cs_noStore s \<and> \<not> cq_noStore (st_cacheRequest st)
         else False)"

definition IsCacheable_response :: "time_env \<Rightarrow> HttpCacheStrategy \<Rightarrow> HttpClientResponse \<Rightarrow> bool" where
  "IsCacheable_response env st response =
     (if \<not> CouldUseCache st then False
      else IsCacheable env st
        (SetRespCode (ParseCacheResponseHeader new_HttpCacheResponse (rs_headers response))
          (rs_responseCode response)))"

definition CacheResponseAgeMillis :: "time_env \<Rightarrow> HttpCacheStrategy \<Rightarrow> int option" where
  "CacheResponseAgeMillis env st =
     (let s = st_cacheResponse st;
          age = max 0 (Response_GetAgeSeconds s);
          dateTime = max 0 (Response_GetDate env s);
          nowTime = max 0 (GetNowTimeSeconds env);
          requestTime = max 0 (Response_GetRequestTime env s);
          responseTime = max 0 (Response_GetResponseTime env s)
      in do {
        d1 \<leftarrow> checked (responseTime - dateTime);
        d2 \<leftarrow> checked (responseTime - requestTime);
        correctedAgeValue \<leftarrow> checked (age + max 0 d2);
        d3 \<leftarrow> checked (nowTime - responseTime);
        total \<leftarrow> checked (max (max 0 d1) correctedAgeValue + max 0 d3);
        checked (total * CONVERT_TO_MILLISECONDS)
      })"

text \<open>\<open>delta / DECIMAL\<close> truncates towards zero; only non-negative results are kept.\<close>

definition ComputeFreshnessLifetimeSecondsInternal :: "time_env \<Rightarrow> HttpCacheStrategy \<Rightarrow> int option" where
  "ComputeFreshnessLifetimeSecondsInternal env st =
     (let s = st_cacheResponse st
      in if Response_GetSMaxAgeSeconds s \<noteq> INVALID_TIME then Some (Response_GetSMaxAgeSeconds s)
         else if Response_GetMaxAgeSeconds s \<noteq> INVALID_TIME then Some (Response_GetMaxAgeSeconds s)
         else if Response_GetExpires env s \<noteq> INVALID_TIME
         then let responseTime = (if Response_GetDate env s \<noteq> INVALID_TIME then Response_GetDate env s
                                  else Response_GetResponseTime env s)
              in do { delta \<leftarrow> checked (Response_GetExpires env s - responseTime); Some (max delta 0) }
         else if Response_GetLastModified env s \<noteq> INVALID_TIME
         then let requestTime = (if Response_GetDate env s \<noteq> INVALID_TIME then Response_GetDate env s
                                 else Request_GetRequestTime env (st_cacheRequest st))
              in do { delta \<leftarrow> checked (requestTime - Response_GetLastModified env s);
                      Some (max (if delta \<ge> 0 then delta div DECIMAL else - ((- delta) div DECIMAL)) 0) }
         else Some 0)"

definition ComputeFreshnessLifetimeMillis :: "time_env \<Rightarrow> HttpCacheStrategy \<Rightarrow> int option" where
  "ComputeFreshnessLifetimeMillis env st =
     do {
       lifeTime \<leftarrow> ComputeFreshnessLifetimeSecondsInternal env st;
       let reqMaxAge = Request_GetMaxAgeSeconds (st_cacheRequest st);
       let lifeTime = (if reqMaxAge \<noteq> INVALID_TIME then min lifeTime reqMaxAge else lifeTime);
       checked (lifeTime * CONVERT_TO_MILLISECONDS)
     }"

definition UpdateRequestHeader :: "HttpCacheStrategy \<Rightarrow> string \<Rightarrow> string \<Rightarrow> string \<Rightarrow> HttpCacheStrategy" where
  "UpdateRequestHeader st etag lastModified date =
     (if etag \<noteq> [] then st\<lparr>st_requestOptions := SetHeader (st_requestOptions st) IF_NONE_MATCH etag\<rparr>
      else if lastModified \<noteq> []
      then st\<lparr>st_requestOptions := SetHeader (st_requestOptions st) IF_MODIFIED_SINCE lastModified\<rparr>
      else if date \<noteq> [] then st\<lparr>st_requestOptions := SetHeader (st_requestOptions st) IF_MODIFIED_SINCE date\<rparr>
      else st)"

text \<open>Age, minimal freshness, lifetime and admitted staleness, in milliseconds.\<close>

definition GetFreshness :: "time_env \<Rightarrow> HttpCacheStrategy \<Rightarrow> (int \<times> int \<times> int \<times> int) option" where
  "GetFreshness env st =
     do {
       ageMillis \<leftarrow> CacheResponseAgeMillis env st;
       lifeTime \<leftarrow> ComputeFreshnessLifetimeMillis env st;
       minFresh \<leftarrow> checked (Request_GetMinFreshSeconds (st_cacheRequest st) * CONVERT_TO_MILLISECONDS);
       maxStale \<leftarrow> (if \<not> cs_mustRevalidate (st_cacheResponse st)
         then checked (Request_GetMaxStaleSeconds (st_cacheRequest st) * CONVERT_TO_MILLISECONDS)
         else Some 0);
       Some (ageMillis, max 0 minFresh, lifeTime, max 0 maxStale)
     }"

definition RunStrategyInternal ::
  "time_env \<Rightarrow> HttpCacheStrategy \<Rightarrow> HttpClientResponse \<Rightarrow> (CacheStatus \<times> HttpCacheStrategy \<times> HttpClientResponse) option" where
  "RunStrategyInternal env st response =
     (if cq_noCache (st_cacheRequest st) then Some (DENY, st, response)
      else if cs_noCache (st_cacheResponse st) then Some (STALE, st, response)
      else if cq_onlyIfCached (st_cacheRequest st) then Some (FRESH, st, response)
      else if \<not> IsCacheable env st (st_cacheResponse st) then Some (DENY, st, response)
      else if Request_GetIfModifiedSince env (st_cacheRequest st) \<noteq> INVALID_TIME \<or>
              cq_ifNoneMatch (st_cacheRequest st) \<noteq> []
      then Some (DENY, st, response)
      else do {
        (ageMillis, minFreshMillis, lifeTime, maxStaleMillis) \<leftarrow> GetFreshness env st;
        lhs \<leftarrow> checked (ageMillis + minFreshMillis);
        rhs \<leftarrow> checked (lifeTime + maxStaleMillis);
        if lhs < rhs
        then let r1 = (if lhs \<ge> lifeTime then SetWarning response ''110 \"Response is STALE\"'' else response);
                 r2 = (if ageMillis > ONE_DAY_MILLISECONDS \<and>
                          Request_GetMaxAgeSeconds (st_cacheRequest st) = INVALID_TIME \<and>
                          Response_GetExpires env (st_cacheResponse st) = INVALID_TIME
                       then SetWarning r1 ''113 \"Heuristic expiration\"'' else r1)
             in Some (FRESH, st, r2)
        else Some (STALE, UpdateRequestHeader st (cs_etag (st_cacheResponse st))
                     (cs_lastModified (st_cacheResponse st)) (cs_date (st_cacheResponse st)), response)
      })"

definition RunStrategy ::
  "time_env \<Rightarrow> HttpCacheStrategy \<Rightarrow> HttpClientResponse \<Rightarrow> (CacheStatus \<times> HttpCacheStrategy \<times> HttpClientResponse) option" where
  "RunStrategy env st response =
     (let s1 = ParseCacheResponseHeader (st_cacheResponse st) (rs_headers response);
          s2 = SetRespCode s1 (rs_responseCode response);
          s3 = CacheResponse_SetResponseTime s2 (rs_responseTime response);
          s4 = CacheResponse_SetRequestTime s3 (rs_requestTime response)
      in RunStrategyInternal env (st\<lparr>st_cacheResponse := s4\<rparr>) response)"

end
