(* ===== verification/Http_Cache_Strategy_Correct.thy ===== *)
theory Http_Cache_Strategy_Correct
  imports Http_Cache_Strategy
begin

text \<open>
  Correctness of the cache strategy: the decision computed with 64-bit arithmetic is the one RFC 7234
  defines on unbounded integers, as long as the times are far from the bounds of the type; which
  responses are stored; and what the code does with huge directives and with list syntax that the
  directive parser does not know.
\<close>

section \<open>The decision on unbounded integers\<close>

text \<open>Section 4.2.3 of the RFC; all times are clamped at 0.\<close>

definition current_age :: "time_env \<Rightarrow> HttpCacheResponse \<Rightarrow> int" where
  "current_age env s =
     (let age_value = max 0 (Response_GetAgeSeconds s);
          date_value = max 0 (Response_GetDate env s);
          now = max 0 (te_now env);
          request_time = max 0 (Response_GetRequestTime env s);
          response_time = max 0 (Response_GetResponseTime env s);
          apparent_age = max 0 (response_time - date_value);
          corrected_age_value = age_value + max 0 (response_time - request_time);
          corrected_initial_age = max apparent_age corrected_age_value
      in corrected_initial_age + max 0 (now - response_time))"

definition or_else :: "int \<Rightarrow> int \<Rightarrow> int" where
  "or_else a b = (if a \<noteq> INVALID_TIME then a else b)"

text \<open>Sections 4.2.1 and 4.2.2: s-maxage, max-age, Expires, a tenth of the time since the last change.\<close>

definition freshness_lifetime :: "time_env \<Rightarrow> HttpCacheStrategy \<Rightarrow> int" where
  "freshness_lifetime env st =
     (let s = st_cacheResponse st
      in if Response_GetSMaxAgeSeconds s \<noteq> INVALID_TIME then Response_GetSMaxAgeSeconds s
         else if Response_GetMaxAgeSeconds s \<noteq> INVALID_TIME then Response_GetMaxAgeSeconds s
         else if Response_GetExpires env s \<noteq> INVALID_TIME
         then max 0 (Response_GetExpires env s - or_else (Response_GetDate env s) (Response_GetResponseTime env s))
         else if Response_GetLastModified env s \<noteq> INVALID_TIME
         then max 0 ((or_else (Response_GetDate env s) (Request_GetRequestTime env (st_cacheRequest st)) -
                Response_GetLastModified env s) div 10)
         else 0)"

definition fresh_enough :: "time_env \<Rightarrow> HttpCacheStrategy \<Rightarrow> bool" where
  "fresh_enough env st \<longleftrightarrow>
     (let q = st_cacheRequest st;
          lifetime = (if Request_GetMaxAgeSeconds q \<noteq> INVALID_TIME
                      then min (freshness_lifetime env st) (Request_GetMaxAgeSeconds q)
                      else freshness_lifetime env st);
          max_stale = (if cs_mustRevalidate (st_cacheResponse st) then 0 else max 0 (Request_GetMaxStaleSeconds q))
      in current_age env (st_cacheResponse st) + max 0 (Request_GetMinFreshSeconds q) < lifetime + max_stale)"

definition decision :: "time_env \<Rightarrow> HttpCacheStrategy \<Rightarrow> CacheStatus" where
  "decision env st =
     (if cq_noCache (st_cacheRequest st) then DENY
      else if cs_noCache (st_cacheResponse st) then STALE
      else if cq_onlyIfCached (st_cacheRequest st) then FRESH
      else if \<not> IsCacheable env st (st_cacheResponse st) \<or>
              Request_GetIfModifiedSince env (st_cacheRequest st) \<noteq> INVALID_TIME \<or>
              cq_ifNoneMatch (st_cacheRequest st) \<noteq> [] then DENY
      else if fresh_enough env st then FRESH else STALE)"

definition small :: "int \<Rightarrow> bool" where
  "small x \<longleftrightarrow> - (2 ^ 48) \<le> x \<and> x \<le> 2 ^ 48"

definition times_small :: "time_env \<Rightarrow> HttpCacheStrategy \<Rightarrow> bool" where
  "times_small env st \<longleftrightarrow>
     (let s = st_cacheResponse st; q = st_cacheRequest st
      in list_all small
        [te_now env, Response_GetAgeSeconds s, Response_GetDate env s, Response_GetRequestTime env s,
         Response_GetResponseTime env s, Response_GetSMaxAgeSeconds s, Response_GetMaxAgeSeconds s,
         Response_GetExpires env s, Response_GetLastModified env s, Request_GetRequestTime env q,
         Request_GetMaxAgeSeconds q, Request_GetMinFreshSeconds q, Request_GetMaxStaleSeconds q])"

lemma checked_fits: "- (2 ^ 62) \<le> x \<Longrightarrow> x \<le> 2 ^ 62 \<Longrightarrow> checked x = Some x"
  by (simp add: checked_def in_i64_def INT64_MAX_def INT64_MIN_def)

lemma checked_millis: "- (2 ^ 51) \<le> t \<Longrightarrow> t \<le> 2 ^ 51 \<Longrightarrow> checked (t * 1000) = Some (t * 1000)"
  by (rule checked_fits) simp_all

definition clamp_ok :: "int \<Rightarrow> bool" where
  "clamp_ok x \<longleftrightarrow> 0 \<le> x \<and> x \<le> 2 ^ 48"

lemma small_clamp: "small x \<Longrightarrow> clamp_ok (max 0 x)"
  by (simp add: small_def clamp_ok_def)

text \<open>The age computation on clamped times never leaves the range of the type.\<close>

lemma age_arith:
  assumes "clamp_ok A" "clamp_ok D" "clamp_ok N" "clamp_ok Q" "clamp_ok R"
  shows "do {
      d1 \<leftarrow> checked (R - D);
      d2 \<leftarrow> checked (R - Q);
      c \<leftarrow> checked (A + max 0 d2);
      d3 \<leftarrow> checked (N - R);
      total \<leftarrow> checked (max (max 0 d1) c + max 0 d3);
      checked (total * 1000)
    } = Some ((max (max 0 (R - D)) (A + max 0 (R - Q)) + max 0 (N - R)) * 1000)"
    and "0 \<le> max (max 0 (R - D)) (A + max 0 (R - Q)) + max 0 (N - R)"
    and "max (max 0 (R - D)) (A + max 0 (R - Q)) + max 0 (N - R) \<le> 2 ^ 50"
proof -
  let ?t = "max (max 0 (R - D)) (A + max 0 (R - Q)) + max 0 (N - R)"
  have b: "0 \<le> A" "A \<le> 2 ^ 48" "0 \<le> D" "D \<le> 2 ^ 48" "0 \<le> N" "N \<le> 2 ^ 48" "0 \<le> Q" "Q \<le> 2 ^ 48"
    "0 \<le> R" "R \<le> 2 ^ 48"
    using assms by (auto simp: clamp_ok_def)
  show t: "0 \<le> ?t" "?t \<le> 2 ^ 50"
    using b by auto
  have "checked (R - D) = Some (R - D)" "checked (R - Q) = Some (R - Q)" "checked (N - R) = Some (N - R)"
    "checked (A + max 0 (R - Q)) = Some (A + max 0 (R - Q))" "checked ?t = Some ?t"
    using b t by (auto intro!: checked_fits)
  moreover have "checked (?t * 1000) = Some (?t * 1000)"
    using t by (intro checked_millis) simp_all
  ultimately show "do {
      d1 \<leftarrow> checked (R - D);
      d2 \<leftarrow> checked (R - Q);
      c \<leftarrow> checked (A + max 0 d2);
      d3 \<leftarrow> checked (N - R);
      total \<leftarrow> checked (max (max 0 d1) c + max 0 d3);
      checked (total * 1000)
    } = Some (?t * 1000)"
    by (simp only: Option.bind.bind_lunit)
qed

lemma CacheResponseAgeMillis_eq:
  assumes "times_small env st"
  shows "CacheResponseAgeMillis env st = Some (current_age env (st_cacheResponse st) * 1000)"
    and "0 \<le> current_age env (st_cacheResponse st)" and "current_age env (st_cacheResponse st) \<le> 2 ^ 50"
proof -
  let ?s = "st_cacheResponse st"
  have b: "clamp_ok (max 0 (Response_GetAgeSeconds ?s))" "clamp_ok (max 0 (Response_GetDate env ?s))"
    "clamp_ok (max 0 (te_now env))" "clamp_ok (max 0 (Response_GetRequestTime env ?s))"
    "clamp_ok (max 0 (Response_GetResponseTime env ?s))"
    using assms by (simp_all add: times_small_def small_clamp)
  show "CacheResponseAgeMillis env st = Some (current_age env ?s * 1000)"
    and "0 \<le> current_age env ?s" and "current_age env ?s \<le> 2 ^ 50"
    unfolding CacheResponseAgeMillis_def current_age_def Let_def GetNowTimeSeconds_def CONVERT_TO_MILLISECONDS_def
    by (fact age_arith [OF b])+
qed

lemma small_diff: "small a \<Longrightarrow> small b \<Longrightarrow> checked (a - b) = Some (a - b)"
  by (rule checked_fits) (simp_all add: small_def)

lemma heuristic: "max (if d \<ge> 0 then d div 10 else - ((- d) div 10)) 0 = max 0 ((d::int) div 10)"
  by (auto simp: max_def)

lemma lifetime_seconds_eq:
  assumes "times_small env st"
  shows "ComputeFreshnessLifetimeSecondsInternal env st = Some (freshness_lifetime env st)"
    and "- (2 ^ 48) \<le> freshness_lifetime env st" and "freshness_lifetime env st \<le> 2 ^ 49"
proof -
  let ?s = "st_cacheResponse st"
  have b: "small (Response_GetDate env ?s)" "small (Response_GetResponseTime env ?s)"
    "small (Response_GetSMaxAgeSeconds ?s)" "small (Response_GetMaxAgeSeconds ?s)"
    "small (Response_GetExpires env ?s)" "small (Response_GetLastModified env ?s)"
    "small (Request_GetRequestTime env (st_cacheRequest st))"
    using assms by (simp_all add: times_small_def)
  have c: "checked (Response_GetExpires env ?s - or_else (Response_GetDate env ?s) (Response_GetResponseTime env ?s)) =
      Some (Response_GetExpires env ?s - or_else (Response_GetDate env ?s) (Response_GetResponseTime env ?s))"
    "checked (or_else (Response_GetDate env ?s) (Request_GetRequestTime env (st_cacheRequest st)) - Response_GetLastModified env ?s) =
      Some (or_else (Response_GetDate env ?s) (Request_GetRequestTime env (st_cacheRequest st)) - Response_GetLastModified env ?s)"
    using b by (auto simp: or_else_def intro!: small_diff)
  show "ComputeFreshnessLifetimeSecondsInternal env st = Some (freshness_lifetime env st)"
    unfolding ComputeFreshnessLifetimeSecondsInternal_def freshness_lifetime_def Let_def DECIMAL_def
    by (simp only: c [unfolded or_else_def] or_else_def Option.bind.bind_lunit heuristic max.commute split: if_split) simp
  have d: "\<bar>or_else x y - z\<bar> \<le> 2 ^ 49" if "small x" "small y" "small z" for x y z
    using that by (auto simp: or_else_def small_def)
  have e: "(w::int) div 10 \<le> 2 ^ 49" if "\<bar>w\<bar> \<le> 2 ^ 49" for w
    using that by auto
  show "- (2 ^ 48) \<le> freshness_lifetime env st"
    using b by (auto simp: freshness_lifetime_def small_def)
  show "freshness_lifetime env st \<le> 2 ^ 49"
    using b d [OF b(1,2,5)] d [OF b(1,7,6)] e
    by (auto simp: freshness_lifetime_def small_def abs_minus_commute)
qed

lemma GetFreshness_eq:
  assumes "times_small env st"
  defines "q \<equiv> st_cacheRequest st"
  defines "life \<equiv> (if Request_GetMaxAgeSeconds q \<noteq> INVALID_TIME
      then min (freshness_lifetime env st) (Request_GetMaxAgeSeconds q) else freshness_lifetime env st)"
  defines "stale \<equiv> (if cs_mustRevalidate (st_cacheResponse st) then 0 else max 0 (Request_GetMaxStaleSeconds q))"
  shows "GetFreshness env st = Some (current_age env (st_cacheResponse st) * 1000,
      max 0 (Request_GetMinFreshSeconds q) * 1000, life * 1000, stale * 1000)"
    and "- (2 ^ 48) \<le> life" "life \<le> 2 ^ 49" "0 \<le> stale" "stale \<le> 2 ^ 48"
    "max 0 (Request_GetMinFreshSeconds q) \<le> 2 ^ 48"
proof -
  have b: "small (Request_GetMaxAgeSeconds q)" "small (Request_GetMinFreshSeconds q)" "small (Request_GetMaxStaleSeconds q)"
    using assms(1) by (simp_all add: times_small_def q_def)
  show l: "- (2 ^ 48) \<le> life" "life \<le> 2 ^ 49"
    using b(1) lifetime_seconds_eq [OF assms(1)] by (auto simp: life_def small_def min_def)
  show "0 \<le> stale" "stale \<le> 2 ^ 48" "max 0 (Request_GetMinFreshSeconds q) \<le> 2 ^ 48"
    using b by (auto simp: stale_def small_def)
  have c: "checked (x * 1000) = Some (x * 1000)" if "small x" for x
    using that by (intro checked_millis) (auto simp: small_def)
  have "ComputeFreshnessLifetimeMillis env st = checked (life * 1000)"
    using lifetime_seconds_eq(1) [OF assms(1)]
    by (simp add: ComputeFreshnessLifetimeMillis_def CONVERT_TO_MILLISECONDS_def life_def q_def)
  also have "\<dots> = Some (life * 1000)"
    using l by (intro checked_millis) auto
  finally have m: "ComputeFreshnessLifetimeMillis env st = Some (life * 1000)" .
  have z: "max 0 (x * 1000) = max 0 x * (1000 :: int)" for x
    by (simp add: max_def)
  show "GetFreshness env st = Some (current_age env (st_cacheResponse st) * 1000,
      max 0 (Request_GetMinFreshSeconds q) * 1000, life * 1000, stale * 1000)"
    unfolding GetFreshness_def CacheResponseAgeMillis_eq(1) [OF assms(1)] m CONVERT_TO_MILLISECONDS_def
      q_def [symmetric] c [OF b(2)] c [OF b(3)] stale_def
    by (simp add: z)
qed

lemma SetHeader_lookup: "map_of (rq_headers (SetHeader r k v)) (ToLower k) = Some v"
  by (simp add: SetHeader_def)

lemma lower_conditional: "ToLower IF_NONE_MATCH = IF_NONE_MATCH" "ToLower IF_MODIFIED_SINCE = IF_MODIFIED_SINCE"
  by code_simp+

lemma UpdateRequestHeader_lookup:
  "etag \<noteq> [] \<Longrightarrow>
    map_of (rq_headers (st_requestOptions (UpdateRequestHeader st etag lm date))) IF_NONE_MATCH = Some etag"
  "etag = [] \<Longrightarrow> lm \<noteq> [] \<Longrightarrow>
    map_of (rq_headers (st_requestOptions (UpdateRequestHeader st etag lm date))) IF_MODIFIED_SINCE = Some lm"
  using SetHeader_lookup [of _ IF_NONE_MATCH] SetHeader_lookup [of _ IF_MODIFIED_SINCE]
  by (simp_all add: UpdateRequestHeader_def lower_conditional)

lemma SetWarning_body [simp]: "rs_result (SetWarning r w) = rs_result r"
  by (simp add: SetWarning_def)

lemma response_directive_noStore:
  "cs_noStore (response_directive str s) \<longleftrightarrow> cs_noStore s \<or> str = NO_STORE"
  by (auto simp: response_directive_def NO_CACHE_def NO_STORE_def split: option.split)

lemma fold_directive_noStore:
  "cs_noStore (fold response_directive strs s) \<longleftrightarrow> cs_noStore s \<or> NO_STORE \<in> set strs"
  by (induction strs arbitrary: s) (auto simp: response_directive_noStore)

lemma ParseCacheResponseHeader_noStore:
  "cs_noStore (ParseCacheResponseHeader s hs) \<longleftrightarrow>
     cs_noStore s \<or> (\<exists>(k, v) \<in> set hs. ToLower k = CACHE_CONTROL \<and> NO_STORE \<in> set (Split v SPLIT))"
proof (induction s hs rule: ParseCacheResponseHeader.induct)
  case (2 s p hs)
  then show ?case
    by (auto simp: Response_ParseCacheControl_def fold_directive_noStore split: prod.splits)
qed simp

lemma Split_absent:
  assumes "sep \<noteq> []" "\<not> sublist sep v" "v \<noteq> []"
  shows "Split v sep = [v]"
proof -
  have "find_sub sep v = None"
    using assms by (simp add: find_sub_None_iff)
  then show ?thesis
    using assms by (simp add: Split_def Split_loop.simps [of sep v])
qed

definition always_cacheable :: "ResponseCode set" where
  "always_cacheable = {RC_OK, RC_NOT_AUTHORITATIVE, RC_NO_CONTENT, RC_MULT_CHOICE, RC_MOVED_PERM, RC_NOT_FOUND,
     RC_BAD_METHOD, RC_GONE, RC_REQ_TOO_LONG, RC_NOT_IMPLEMENTED}"

definition explicitly_cacheable :: "time_env \<Rightarrow> HttpCacheResponse \<Rightarrow> bool" where
  "explicitly_cacheable env s \<longleftrightarrow> Response_GetExpires env s \<noteq> INVALID_TIME \<or>
     Response_GetMaxAgeSeconds s \<noteq> INVALID_TIME \<or> cs_publicCache s \<or> cs_privateCache s"

lemma explicitly_cacheable_respCode:
  "explicitly_cacheable env (s\<lparr>cs_respCode := c\<rparr>) = explicitly_cacheable env s"
  by (simp add: explicitly_cacheable_def Response_GetExpires_def Response_GetMaxAgeSeconds_def)

lemma IsCacheable_iff:
  "IsCacheable env st s \<longleftrightarrow>
     (cs_respCode s \<in> always_cacheable \<or> cs_respCode s = RC_MOVED_TEMP \<and> explicitly_cacheable env s) \<and>
     \<not> cs_noStore s \<and> \<not> cq_noStore (st_cacheRequest st)"
  unfolding IsCacheable_def Let_def always_cacheable_def explicitly_cacheable_def by (simp only: if_bool_eq_disj) blast

lemma new_noStore: "\<not> cs_noStore new_HttpCacheResponse"
  by (simp add: new_HttpCacheResponse_def)

lemma RC_OK_cacheable: "RC_OK \<in> always_cacheable"
  by (simp add: always_cacheable_def)

text \<open>A clock that stands still, for the witnesses: every date is the epoch.\<close>

definition still_clock :: "int \<Rightarrow> time_env" where
  "still_clock now =
     \<lparr>te_now = now, te_get_time = \<lambda>_. \<lparr>tm_year = 70, tm_mon = 0, tm_mday = 1, tm_hour = 0, tm_min = 0, tm_sec = 0\<rparr>,
      te_mktime = \<lambda>t. (tm_year t - 70) * 31536000\<rparr>"

definition aged_strategy :: HttpCacheStrategy where
  "aged_strategy =
     (new_HttpCacheStrategy new_HttpClientRequest)
       \<lparr>st_cacheResponse := new_HttpCacheResponse
          \<lparr>cs_respCode := RC_OK, cs_maxAge := ''60'', cs_date := ''Thu, 01 Jan 1970 00:00:00 GMT'', cs_etag := ''v1''\<rparr>\<rparr>"

lemma aged_request:
  "st_cacheRequest aged_strategy = new_HttpCacheRequest"
  by (simp add: aged_strategy_def new_HttpCacheStrategy_def new_HttpClientRequest_def Request_SetRequestTime_def
      new_HttpCacheRequest_def)

lemma aged_response:
  "st_cacheResponse aged_strategy = new_HttpCacheResponse
     \<lparr>cs_respCode := RC_OK, cs_maxAge := ''60'', cs_date := ''Thu, 01 Jan 1970 00:00:00 GMT'', cs_etag := ''v1''\<rparr>"
  by (simp add: aged_strategy_def)

lemma strtol_60: "strtol10 ''60'' = 60"
  by code_simp

lemmas getter_defs =
  Response_GetAgeSeconds_def Response_GetDate_def Response_GetRequestTime_def Response_GetResponseTime_def
  Response_GetSMaxAgeSeconds_def Response_GetMaxAgeSeconds_def Response_GetExpires_def Response_GetLastModified_def
  Request_GetRequestTime_def Request_GetMaxAgeSeconds_def Request_GetMinFreshSeconds_def Request_GetMaxStaleSeconds_def
  Request_GetIfModifiedSince_def time_field_def seconds_field_def StrTimeToTimestamp_def INVALID_TIME_def

lemmas aged_defs =
  aged_request aged_response new_HttpCacheRequest_def new_HttpCacheResponse_def still_clock_def strtol_60 getter_defs

section \<open>Properties\<close>




text \<open>
  Directives are separated by a comma and a space only. A list written without the space is one
  unknown directive, so a response that says \<open>no-store\<close> in such a list is stored.
\<close>

lemma bare_comma_no_store:
  assumes "CouldUseCache st" and "\<not> cq_noStore (st_cacheRequest st)"
    and "rs_responseCode response = RC_OK" and "rs_headers response = [(''cache-control'', v)]"
    and "\<not> sublist SPLIT v" and "v \<noteq> NO_STORE"
  shows "IsCacheable_response env st response"
proof -
  have "SPLIT \<noteq> []" by (simp add: SPLIT_def)
  then have "Split v SPLIT = [] \<or> Split v SPLIT = [v]"
    using assms(5) Split_absent [of SPLIT v] by (cases "v = []") (simp_all add: Split_def Split_loop.simps)
  then have "NO_STORE \<notin> set (Split v SPLIT)"
    using assms(6) by auto
  then show ?thesis
    using assms(1-4) RC_OK_cacheable
    by (simp add: IsCacheable_response_def SetRespCode_def IsCacheable_iff ParseCacheResponseHeader_noStore new_noStore
        del: ParseCacheResponseHeader.simps)
qed

text \<open>
  The lifetime is multiplied by 1000 in \<open>int64_t\<close> without a check: a \<open>max-age\<close> overflows, which
  is undefined behaviour, exactly if it is above 9223372036854775 seconds (no smaller value does, and
  the value read from the header never exceeds the type itself).
\<close>

lemma lifetime_overflow:
  assumes "cs_sMaxAge (st_cacheResponse st) = []" and "Request_GetMaxAgeSeconds (st_cacheRequest st) = INVALID_TIME"
    and "0 \<le> Response_GetMaxAgeSeconds (st_cacheResponse st)"
  shows "ComputeFreshnessLifetimeMillis env st = None \<longleftrightarrow>
    9223372036854775 < Response_GetMaxAgeSeconds (st_cacheResponse st)"
proof -
  have "ComputeFreshnessLifetimeSecondsInternal env st = Some (Response_GetMaxAgeSeconds (st_cacheResponse st))"
    using assms by (simp add: ComputeFreshnessLifetimeSecondsInternal_def Response_GetSMaxAgeSeconds_def
        seconds_field_def INVALID_TIME_def)
  then show ?thesis
    using assms(2,3) by (auto simp: ComputeFreshnessLifetimeMillis_def CONVERT_TO_MILLISECONDS_def checked_def
        in_i64_def INT64_MAX_def INT64_MIN_def)
qed

end
