(* ===== verification/C_Api_Types.thy ===== *)
theory C_Api_Types
  imports Netstack_Prelude
begin

text \<open>
  Types shared by the parts of the C interface (\<open>interfaces/kits/c\<close>): the result codes.
\<close>

text \<open>The enumerators of \<open>Http_ErrCode\<close> that the functions of the library return themselves.\<close>

datatype Http_ErrCode =
    OH_HTTP_RESULT_OK
  | OH_HTTP_PARAMETER_ERROR
  | OH_HTTP_PERMISSION_DENIED
  | OH_HTTP_OUT_OF_MEMORY

end
