(* ===== verification/Hash_Map.thy ===== *)
theory Hash_Map
  imports C_Api_Types
begin

text \<open>
  The hash map of the C interface (\<open>interfaces/kits/c/common/netstack_hash_map.cpp\<close>) and the
  contract of a string-keyed map that its clients rely on.

  A \<open>Netstack_HashMapEntry *\<close> is the list of the entries reached through \<open>next\<close>, \<open>nullptr\<close> the
  empty list; \<open>entries\<close> is the list of the chains. A map that exists has its array (\<open>CreateMap\<close>
  frees the map otherwise). A null map or key is \<open>None\<close>. Whether an allocation succeeds is an
  argument. The value of a \<open>char\<close> in arithmetic depends on the platform: \<open>sg\<close> says whether the
  type is signed.
\<close>

section \<open>Data\<close>

record 'v Netstack_HashMapEntry =
  he_key :: string
  he_value :: 'v

type_synonym 'v chain = "'v Netstack_HashMapEntry list"

record 'v Netstack_HashMap =
  hm_entries :: "'v chain list"
  hm_size :: u32
  hm_capacity :: u32

record 'v Netstack_MapIterator =
  mi_map :: "'v Netstack_HashMap"
  mi_currentIdx :: u32
  mi_currentEntry :: "'v chain"

definition DEFAULT_MAP_CAPACITY :: u32 where
  "DEFAULT_MAP_CAPACITY = 16"

definition MAX_MAP_CAPACITY :: u32 where
  "MAX_MAP_CAPACITY = 16384"

definition NETSTACK_HASH_FACTOR :: u32 where
  "NETSTACK_HASH_FACTOR = 31"

text \<open>The outcomes of the allocations of one insertion: the array of a resize, the entry, the copy of the key.\<close>

record put_memory =
  pm_resize :: bool
  pm_entry :: bool
  pm_key :: bool

section \<open>Operations\<close>

definition char_word :: "bool \<Rightarrow> char \<Rightarrow> u32" where
  "char_word sg c = (if sg then signed (of_char c :: byte) else of_char c)"

fun Netstack_Hash_loop :: "bool \<Rightarrow> string \<Rightarrow> u32 \<Rightarrow> u32" where
  "Netstack_Hash_loop sg [] hash = hash"
| "Netstack_Hash_loop sg (c # key) hash = Netstack_Hash_loop sg key (NETSTACK_HASH_FACTOR * hash + char_word sg c)"

definition Netstack_Hash :: "bool \<Rightarrow> string \<Rightarrow> u32 \<Rightarrow> u32" where
  "Netstack_Hash sg key capacity = Netstack_Hash_loop sg key 0 mod capacity"

definition CreateMap :: "bool \<Rightarrow> bool \<Rightarrow> 'v Netstack_HashMap option" where
  "CreateMap malloc_ok calloc_ok =
     (if \<not> malloc_ok then None
      else if \<not> calloc_ok then None
      else Some \<lparr>hm_entries = replicate (unat DEFAULT_MAP_CAPACITY) [], hm_size = 0, hm_capacity = DEFAULT_MAP_CAPACITY\<rparr>)"

fun Netstack_RehashEntry ::
  "bool \<Rightarrow> u32 \<Rightarrow> 'v chain \<Rightarrow> 'v chain list \<Rightarrow> u32 \<Rightarrow> 'v chain list \<times> u32" where
  "Netstack_RehashEntry sg newCapacity [] newEntries n = (newEntries, n)"
| "Netstack_RehashEntry sg newCapacity (currentPtr # nextPtr) newEntries n =
     (let newHash = unat (Netstack_Hash sg (he_key currentPtr) newCapacity)
      in case newEntries ! newHash of
           [] \<Rightarrow> Netstack_RehashEntry sg newCapacity nextPtr (newEntries[newHash := [currentPtr]]) (n + 1)
         | e # es \<Rightarrow> Netstack_RehashEntry sg newCapacity nextPtr (newEntries[newHash := e # currentPtr # es]) n)"

definition NetstackInvalidMap :: "'v Netstack_HashMap option \<Rightarrow> bool" where
  "NetstackInvalidMap map_ptr =
     (case map_ptr of None \<Rightarrow> True
      | Some m \<Rightarrow> hm_capacity m < DEFAULT_MAP_CAPACITY \<or> hm_capacity m > MAX_MAP_CAPACITY)"

fun NetstackResizeMap_loop ::
  "bool \<Rightarrow> u32 \<Rightarrow> 'v chain list \<Rightarrow> 'v chain list \<Rightarrow> u32 \<Rightarrow> 'v chain list \<times> u32" where
  "NetstackResizeMap_loop sg newCapacity [] newEntries n = (newEntries, n)"
| "NetstackResizeMap_loop sg newCapacity (entry # entries) newEntries n =
     (if entry \<noteq> []
      then let (newEntries1, k) = Netstack_RehashEntry sg newCapacity entry newEntries 0
           in NetstackResizeMap_loop sg newCapacity entries newEntries1 (n + k)
      else NetstackResizeMap_loop sg newCapacity entries newEntries n)"

definition NetstackResizeMap ::
  "bool \<Rightarrow> bool \<Rightarrow> 'v Netstack_HashMap \<Rightarrow> Http_ErrCode \<times> 'v Netstack_HashMap" where
  "NetstackResizeMap sg calloc_ok m =
     (if hm_capacity m \<ge> MAX_MAP_CAPACITY then (OH_HTTP_PARAMETER_ERROR, m)
      else let newCapacity = hm_capacity m * 2
           in if \<not> calloc_ok then (OH_HTTP_OUT_OF_MEMORY, m)
              else let (newEntries, n) = NetstackResizeMap_loop sg newCapacity (hm_entries m)
                         (replicate (unat newCapacity) []) 0
                   in (OH_HTTP_RESULT_OK, m\<lparr>hm_entries := newEntries, hm_size := n, hm_capacity := newCapacity\<rparr>))"

text \<open>The search loop of an insertion: \<open>Some\<close> chain in which the value was replaced, or \<open>None\<close>.\<close>

fun replace_exist :: "string \<Rightarrow> 'v \<Rightarrow> 'v chain \<Rightarrow> 'v chain option" where
  "replace_exist key v [] = None"
| "replace_exist key v (ptr # next_ptr) =
     (if he_key ptr = key then Some (ptr\<lparr>he_value := v\<rparr> # next_ptr)
      else map_option (\<lambda>r. ptr # r) (replace_exist key v next_ptr))"

definition Netstack_PutMapEntry ::
  "bool \<Rightarrow> put_memory \<Rightarrow> 'v Netstack_HashMap option \<Rightarrow> string option \<Rightarrow> 'v \<Rightarrow>
   Http_ErrCode \<times> 'v Netstack_HashMap option" where
  "Netstack_PutMapEntry sg mem map_ptr key_ptr v =
     (case (map_ptr, key_ptr) of
        (Some m0, Some key) \<Rightarrow>
          if NetstackInvalidMap map_ptr then (OH_HTTP_PARAMETER_ERROR, map_ptr)
          else let m = (if hm_size m0 \<ge> hm_capacity m0 then snd (NetstackResizeMap sg (pm_resize mem) m0) else m0);
                   idx = unat (Netstack_Hash sg key (hm_capacity m));
                   entry = \<lparr>he_key = key, he_value = v\<rparr>
               in case hm_entries m ! idx of
                    [] \<Rightarrow>
                      if \<not> pm_entry mem then (OH_HTTP_OUT_OF_MEMORY, Some m)
                      else if \<not> pm_key mem then (OH_HTTP_OUT_OF_MEMORY, Some m)
                      else (OH_HTTP_RESULT_OK,
                            Some (m\<lparr>hm_entries := (hm_entries m)[idx := [entry]], hm_size := hm_size m + 1\<rparr>))
                  | e # es \<Rightarrow>
                      case replace_exist key v (e # es) of
                        Some chain \<Rightarrow> (OH_HTTP_RESULT_OK, Some (m\<lparr>hm_entries := (hm_entries m)[idx := chain]\<rparr>))
                      | None \<Rightarrow>
                          if \<not> pm_entry mem then (OH_HTTP_OUT_OF_MEMORY, Some m)
                          else if \<not> pm_key mem then (OH_HTTP_OUT_OF_MEMORY, Some m)
                          else (OH_HTTP_RESULT_OK, Some (m\<lparr>hm_entries := (hm_entries m)[idx := e # entry # es]\<rparr>))
      | _ \<Rightarrow> (OH_HTTP_PARAMETER_ERROR, map_ptr))"

fun find_entry :: "string \<Rightarrow> 'v chain \<Rightarrow> 'v option" where
  "find_entry key [] = None"
| "find_entry key (entry # next_ptr) = (if he_key entry = key then Some (he_value entry) else find_entry key next_ptr)"

text \<open>A null result is \<open>None\<close>; the values stored by the clients are never null.\<close>

definition Netstack_GetMapEntry :: "bool \<Rightarrow> 'v Netstack_HashMap option \<Rightarrow> string option \<Rightarrow> 'v option" where
  "Netstack_GetMapEntry sg map_ptr key_ptr =
     (case (map_ptr, key_ptr) of
        (Some m, Some key) \<Rightarrow>
          if NetstackInvalidMap map_ptr then None
          else find_entry key (hm_entries m ! unat (Netstack_Hash sg key (hm_capacity m)))
      | _ \<Rightarrow> None)"

text \<open>The loop that unlinks an entry behind the first.\<close>

fun unlink :: "string \<Rightarrow> 'v chain \<Rightarrow> 'v chain" where
  "unlink key [] = []"
| "unlink key (entry # next_ptr) = (if he_key entry = key then next_ptr else entry # unlink key next_ptr)"

definition Netstack_DeleteMapEntry ::
  "bool \<Rightarrow> 'v Netstack_HashMap option \<Rightarrow> string option \<Rightarrow> Http_ErrCode \<times> 'v Netstack_HashMap option" where
  "Netstack_DeleteMapEntry sg map_ptr key_ptr =
     (case (map_ptr, key_ptr) of
        (Some m, Some key) \<Rightarrow>
          if NetstackInvalidMap map_ptr then (OH_HTTP_PARAMETER_ERROR, map_ptr)
          else let idx = unat (Netstack_Hash sg key (hm_capacity m))
               in case hm_entries m ! idx of
                    [] \<Rightarrow> (OH_HTTP_RESULT_OK, Some m)
                  | e # es \<Rightarrow>
                      if he_key e = key
                      then let m1 = m\<lparr>hm_entries := (hm_entries m)[idx := es]\<rparr>
                           in (OH_HTTP_RESULT_OK, Some (if es = [] then m1\<lparr>hm_size := hm_size m1 - 1\<rparr> else m1))
                      else (OH_HTTP_RESULT_OK, Some (m\<lparr>hm_entries := (hm_entries m)[idx := e # unlink key es]\<rparr>))
      | _ \<Rightarrow> (OH_HTTP_PARAMETER_ERROR, map_ptr))"

text \<open>Destroying the map: the values handed to \<open>destroyFunction\<close>, in order; afterwards the map is gone.\<close>

fun destroy_entries :: "'v chain list \<Rightarrow> 'v list" where
  "destroy_entries [] = []"
| "destroy_entries (entry # entries) = map he_value entry @ destroy_entries entries"

definition Netstack_DestroyMapWithValue :: "'v Netstack_HashMap option \<Rightarrow> bool \<Rightarrow> 'v list \<times> 'v Netstack_HashMap option" where
  "Netstack_DestroyMapWithValue map_ptr destroyFunction =
     (case map_ptr of
        Some m \<Rightarrow> if NetstackInvalidMap map_ptr then ([], map_ptr)
                  else (if destroyFunction then destroy_entries (hm_entries m) else [], None)
      | None \<Rightarrow> ([], map_ptr))"

definition Netstack_DestroyMap :: "'v Netstack_HashMap option \<Rightarrow> 'v list \<times> 'v Netstack_HashMap option" where
  "Netstack_DestroyMap map_ptr = Netstack_DestroyMapWithValue map_ptr False"

text \<open>The loops over the buckets from index \<open>i\<close>: the first that is not empty.\<close>

fun next_bucket :: "'v chain list \<Rightarrow> u32 \<Rightarrow> (u32 \<times> 'v chain) option" where
  "next_bucket [] i = None"
| "next_bucket (entry # entries) i = (if entry \<noteq> [] then Some (i, entry) else next_bucket entries (i + 1))"

definition Netstack_CreateMapIterator :: "bool \<Rightarrow> 'v Netstack_HashMap option \<Rightarrow> 'v Netstack_MapIterator option" where
  "Netstack_CreateMapIterator malloc_ok map_ptr =
     (case map_ptr of
        None \<Rightarrow> None
      | Some m \<Rightarrow>
          if NetstackInvalidMap map_ptr then None
          else if \<not> malloc_ok then None
          else case next_bucket (hm_entries m) 0 of
                 Some (i, entry) \<Rightarrow> Some \<lparr>mi_map = m, mi_currentIdx = i, mi_currentEntry = entry\<rparr>
               | None \<Rightarrow> None)"

definition Netstack_MapIterateNext :: "'v Netstack_MapIterator \<Rightarrow> 'v Netstack_MapIterator" where
  "Netstack_MapIterateNext ite =
     (if mi_currentEntry ite = [] \<or> NetstackInvalidMap (Some (mi_map ite)) \<or>
         mi_currentIdx ite \<ge> hm_capacity (mi_map ite)
      then ite
      else if tl (mi_currentEntry ite) \<noteq> [] then ite\<lparr>mi_currentEntry := tl (mi_currentEntry ite)\<rparr>
      else case next_bucket (drop (unat (mi_currentIdx ite + 1)) (hm_entries (mi_map ite))) (mi_currentIdx ite + 1) of
             Some (i, entry) \<Rightarrow> ite\<lparr>mi_currentEntry := entry, mi_currentIdx := i\<rparr>
           | None \<Rightarrow> ite\<lparr>mi_currentEntry := [], mi_currentIdx := hm_capacity (mi_map ite)\<rparr>)"

end
