(* ===== verification/Hash_Map_Correct.thy ===== *)
theory Hash_Map_Correct
  imports Hash_Map
begin

text \<open>
  The hash map implements a finite map. The locale \<open>string_map\<close> is the contract a client needs:
  what a look-up returns after insertions and deletions, that a failed insertion leaves the
  content alone, and that the invariant is kept. The hash map of the C interface is interpreted as
  an instance; resizing, which moves every entry, is invisible. The iterator visits every entry once.
\<close>

section \<open>The contract\<close>

locale string_map =
  fixes inv :: "'m \<Rightarrow> bool"
    and content :: "'m \<Rightarrow> string \<Rightarrow> 'v option"
    and put :: "'a \<Rightarrow> 'm \<Rightarrow> string \<Rightarrow> 'v \<Rightarrow> bool \<times> 'm"
    and get :: "'m \<Rightarrow> string \<Rightarrow> 'v option"
    and del :: "'m \<Rightarrow> string \<Rightarrow> 'm"
    and enough :: "'a \<Rightarrow> bool"
  assumes put_inv: "inv m \<Longrightarrow> inv (snd (put a m k v))"
    and put_content: "inv m \<Longrightarrow>
      content (snd (put a m k v)) = (if fst (put a m k v) then (content m)(k \<mapsto> v) else content m)"
    and put_succeeds: "inv m \<Longrightarrow> enough a \<Longrightarrow> fst (put a m k v)"
    and get_content: "inv m \<Longrightarrow> get m k = content m k"
    and del_inv: "inv m \<Longrightarrow> inv (del m k)"
    and del_content: "inv m \<Longrightarrow> content (del m k) = (content m)(k := None)"
begin

lemma get_after_put:
  assumes "inv m" "enough a"
  shows "get (snd (put a m k v)) k' = (if k' = k then Some v else get m k')"
  using assms by (simp add: get_content put_inv put_content put_succeeds)

lemma get_after_failed_put:
  assumes "inv m" "\<not> fst (put a m k v)"
  shows "get (snd (put a m k v)) k' = get m k'"
  using assms by (simp add: get_content put_inv put_content)

lemma get_after_del:
  assumes "inv m"
  shows "get (del m k) k' = (if k' = k then None else get m k')"
  using assms by (simp add: get_content del_inv del_content)

text \<open>A sequence of insertions (\<open>Inl\<close>) and deletions (\<open>Inr\<close>), as the client issues them.\<close>

fun run :: "'m \<Rightarrow> ('a \<times> string \<times> 'v + string) list \<Rightarrow> 'm" where
  "run m [] = m"
| "run m (Inl (a, k, v) # ops) = run (snd (put a m k v)) ops"
| "run m (Inr k # ops) = run (del m k) ops"

fun spec :: "(string \<Rightarrow> 'v option) \<Rightarrow> ('a \<times> string \<times> 'v + string) list \<Rightarrow> string \<Rightarrow> 'v option" where
  "spec c [] = c"
| "spec c (Inl (a, k, v) # ops) = spec (c(k \<mapsto> v)) ops"
| "spec c (Inr k # ops) = spec (c(k := None)) ops"

lemma run_content:
  assumes "inv m" "\<forall>a k v. Inl (a, k, v) \<in> set ops \<longrightarrow> enough a"
  shows "inv (run m ops) \<and> content (run m ops) = spec (content m) ops"
  using assms
proof (induction m ops rule: run.induct)
  case (2 m a k v ops)
  then have "enough a" "\<forall>a k v. Inl (a, k, v) \<in> set ops \<longrightarrow> enough a" by auto
  with 2 show ?case
    by (simp only: run.simps spec.simps put_inv put_content put_succeeds if_True simp_thms)
next
  case (3 m k ops)
  then have "\<forall>a k v. Inl (a, k, v) \<in> set ops \<longrightarrow> enough a" by auto
  with 3 show ?case
    by (simp only: run.simps spec.simps del_inv del_content simp_thms)
qed simp

end

section \<open>Chains and buckets\<close>

definition kv :: "'v Netstack_HashMapEntry \<Rightarrow> string \<times> 'v" where
  "kv e = (he_key e, he_value e)"

lemma kv_simps [simp]: "fst (kv e) = he_key e" "snd (kv e) = he_value e" "fst \<circ> kv = he_key"
  by (auto simp: kv_def)

definition buckets_ok :: "bool \<Rightarrow> u32 \<Rightarrow> 'v chain list \<Rightarrow> bool" where
  "buckets_ok sg cap bs \<longleftrightarrow> cap \<noteq> 0 \<and> length bs = unat cap \<and>
     (\<forall>i < length bs. distinct (map he_key (bs ! i)) \<and> (\<forall>e \<in> set (bs ! i). unat (Netstack_Hash sg (he_key e) cap) = i))"

definition content_of :: "'v chain list \<Rightarrow> string \<Rightarrow> 'v option" where
  "content_of bs = map_of (map kv (concat bs))"

definition used :: "'v chain list \<Rightarrow> nat" where
  "used bs = length (filter (\<lambda>b. b \<noteq> []) bs)"

lemma find_entry_eq: "find_entry k c = map_of (map kv c) k"
  by (induction c) (auto simp: kv_def)

lemma find_entry_None: "find_entry k c = None \<longleftrightarrow> k \<notin> he_key ` set c"
  by (induction c) auto

lemma kv_None: "map_of (map kv c) k = None \<longleftrightarrow> k \<notin> he_key ` set c"
  using find_entry_None [of k c] by (simp add: find_entry_eq)

lemma kv_dom: "dom (map_of (map kv c)) = he_key ` set c"
  by (auto simp: dom_def kv_None)

lemma hash_bound: "cap \<noteq> 0 \<Longrightarrow> unat (Netstack_Hash sg k cap) < unat cap"
  by (simp add: Netstack_Hash_def unat_mod unat_gt_0)

lemma buckets_index: "buckets_ok sg cap bs \<Longrightarrow> unat (Netstack_Hash sg k cap) < length bs"
  by (simp add: buckets_ok_def hash_bound)

lemma content_lookup:
  assumes "buckets_ok sg cap bs"
  shows "content_of bs k = find_entry k (bs ! unat (Netstack_Hash sg k cap))"
proof -
  define h where "h = unat (Netstack_Hash sg k cap)"
  have h: "h < length bs"
    using buckets_index [OF assms] by (simp add: h_def)
  have other: "find_entry k (bs ! i) = None" if "i < length bs" "i \<noteq> h" for i
    using assms that by (auto simp: find_entry_None buckets_ok_def h_def)
  have empty: "map_of (map kv (concat cs)) k = None" if "\<forall>c \<in> set cs. find_entry k c = None" for cs
    using that by (induction cs) (auto simp: find_entry_eq map_add_def)
  have "concat bs = concat (take h bs) @ bs ! h @ concat (drop (Suc h) bs)"
    by (metis append.assoc concat.simps(2) concat_append id_take_nth_drop h)
  moreover have "\<forall>c \<in> set (take h bs). find_entry k c = None"
    using h other by (auto simp: in_set_conv_nth)
  moreover have "\<forall>c \<in> set (drop (Suc h) bs). find_entry k c = None"
    using h other by (auto simp: in_set_conv_nth)
  ultimately have "content_of bs k = find_entry k (bs ! h)"
    using empty [of "take h bs"] empty [of "drop (Suc h) bs"]
    by (simp add: content_of_def find_entry_eq map_add_def split: option.split)
  then show ?thesis by (simp add: h_def)
qed

lemma buckets_update:
  assumes "buckets_ok sg cap bs" "distinct (map he_key c)"
    "\<forall>e \<in> set c. unat (Netstack_Hash sg (he_key e) cap) = i"
  shows "buckets_ok sg cap (bs[i := c])"
  using assms by (cases "i < length bs") (auto simp: buckets_ok_def nth_list_update)

lemma content_update:
  assumes "buckets_ok sg cap bs" "buckets_ok sg cap (bs[i := c])" "i < length bs"
  shows "content_of (bs[i := c]) k =
    (if unat (Netstack_Hash sg k cap) = i then find_entry k c else content_of bs k)"
  using assms by (simp add: content_lookup)

lemma content_change:
  assumes "buckets_ok sg cap bs" "buckets_ok sg cap (bs[unat (Netstack_Hash sg k cap) := c])"
    "\<And>k'. unat (Netstack_Hash sg k' cap) = unat (Netstack_Hash sg k cap) \<Longrightarrow>
       find_entry k' c = (if k' = k then r else find_entry k' (bs ! unat (Netstack_Hash sg k cap)))"
  shows "content_of (bs[unat (Netstack_Hash sg k cap) := c]) = (content_of bs)(k := r)"
proof
  fix k'
  have lk: "content_of bs k' = find_entry k' (bs ! unat (Netstack_Hash sg k' cap))"
    using assms(1) by (rule content_lookup)
  show "content_of (bs[unat (Netstack_Hash sg k cap) := c]) k' = ((content_of bs)(k := r)) k'"
    using content_update [OF assms(1,2) buckets_index [OF assms(1)], of k'] assms(3) [of k'] lk
    by (cases "unat (Netstack_Hash sg k' cap) = unat (Netstack_Hash sg k cap)") auto
qed

lemma used_update:
  assumes "i < length bs"
  shows "used (bs[i := c]) + (if bs ! i = [] then 0 else 1) = used bs + (if c = [] then 0 else 1)"
proof -
  obtain xs y ys where "bs = xs @ y # ys" "length xs = i"
    using id_take_nth_drop [OF assms] assms by (metis length_take min.absorb4)
  then show ?thesis
    by (auto simp: used_def)
qed

lemma used_le: "used bs \<le> length bs"
  by (simp add: used_def)

lemma used_replicate [simp]: "used (replicate n []) = 0"
  by (simp add: used_def)

lemma content_of_replicate [simp]: "content_of (replicate n []) = (\<lambda>_. None)"
  by (induction n) (simp_all add: content_of_def)

lemma buckets_keys_distinct:
  assumes "buckets_ok sg cap bs"
  shows "distinct (map he_key (concat bs))"
proof -
  have "distinct (map he_key (concat cs)) \<and> (\<forall>e \<in> set (concat cs). n \<le> unat (Netstack_Hash sg (he_key e) cap))"
    if "\<forall>i < length cs. distinct (map he_key (cs ! i)) \<and> (\<forall>e \<in> set (cs ! i). unat (Netstack_Hash sg (he_key e) cap) = n + i)"
    for cs :: "'a chain list" and n
    using that
  proof (induction cs arbitrary: n)
    case (Cons c cs)
    have c: "distinct (map he_key c)" "\<forall>e \<in> set c. unat (Netstack_Hash sg (he_key e) cap) = n"
      using Cons.prems [rule_format, of 0] by auto
    have "distinct (map he_key (cs ! i)) \<and> (\<forall>e \<in> set (cs ! i). unat (Netstack_Hash sg (he_key e) cap) = Suc n + i)"
      if "i < length cs" for i
      using Cons.prems [rule_format, of "Suc i"] that by auto
    then have cs: "distinct (map he_key (concat cs))"
      "\<forall>e \<in> set (concat cs). Suc n \<le> unat (Netstack_Hash sg (he_key e) cap)"
      using Cons.IH [of "Suc n"] by blast+
    have "he_key e \<noteq> he_key e'" if "e \<in> set c" "e' \<in> set (concat cs)" for e e'
      using c(2) cs(2) that by force
    then have "he_key ` set c \<inter> he_key ` set (concat cs) = {}"
      by blast
    then have "distinct (map he_key (c @ concat cs))"
      using c(1) cs(1) by (simp only: map_append distinct_append set_map simp_thms)
    moreover have "\<forall>e \<in> set (concat cs). n \<le> unat (Netstack_Hash sg (he_key e) cap)"
      using cs(2) Suc_leD by blast
    then have "\<forall>e \<in> set (c @ concat cs). n \<le> unat (Netstack_Hash sg (he_key e) cap)"
      using c(2) by (simp only: set_append ball_Un) simp
    ultimately show ?case
      by (simp only: concat.simps simp_thms)
  qed simp
  from this [of bs 0] show ?thesis
    using assms by (simp add: buckets_ok_def)
qed

section \<open>The invariant\<close>

definition cap_ok :: "u32 \<Rightarrow> bool" where
  "cap_ok cap \<longleftrightarrow> cap \<in> {16, 32, 64, 128, 256, 512, 1024, 2048, 4096, 8192, 16384}"

definition hm_inv :: "bool \<Rightarrow> 'v Netstack_HashMap \<Rightarrow> bool" where
  "hm_inv sg m \<longleftrightarrow> cap_ok (hm_capacity m) \<and> buckets_ok sg (hm_capacity m) (hm_entries m) \<and>
     hm_size m = of_nat (used (hm_entries m))"

definition hm_content :: "'v Netstack_HashMap \<Rightarrow> string \<Rightarrow> 'v option" where
  "hm_content m = content_of (hm_entries m)"

lemma cap_ok_valid: "cap_ok (hm_capacity m) \<Longrightarrow> \<not> NetstackInvalidMap (Some m)"
  by (auto simp: cap_ok_def NetstackInvalidMap_def DEFAULT_MAP_CAPACITY_def MAX_MAP_CAPACITY_def)

lemma cap_ok_double: "cap_ok cap \<Longrightarrow> \<not> cap \<ge> MAX_MAP_CAPACITY \<Longrightarrow> cap_ok (cap * 2)"
  by (auto simp: cap_ok_def MAX_MAP_CAPACITY_def)

lemma cap_ok_bounds: "cap_ok cap \<Longrightarrow> 0 < unat cap \<and> unat cap \<le> 16384"
  by (auto simp: cap_ok_def)

lemma cap_ok_nonzero: "cap_ok cap \<Longrightarrow> cap \<noteq> 0"
  by (auto simp: cap_ok_def)

lemma buckets_replicate: "cap \<noteq> 0 \<Longrightarrow> buckets_ok sg cap (replicate (unat cap) [])"
  by (simp add: buckets_ok_def)

lemma CreateMap_inv:
  assumes "CreateMap a b = Some m"
  shows "hm_inv sg m" and "hm_content m = (\<lambda>_. None)"
  using assms buckets_replicate [of 16 sg]
  by (auto simp: CreateMap_def DEFAULT_MAP_CAPACITY_def hm_inv_def hm_content_def cap_ok_def split: if_splits)

section \<open>Insertion into a chain\<close>

text \<open>A new entry becomes the second of a chain that is not empty.\<close>

definition link_entry :: "'v Netstack_HashMapEntry \<Rightarrow> 'v chain \<Rightarrow> 'v chain" where
  "link_entry e c = (case c of [] \<Rightarrow> [e] | x # xs \<Rightarrow> x # e # xs)"

lemma link_entry_simps [simp]:
  "set (link_entry e c) = insert e (set c)" "link_entry e c \<noteq> []"
  "he_key e \<notin> he_key ` set c \<Longrightarrow> distinct (map he_key (link_entry e c)) \<longleftrightarrow> distinct (map he_key c)"
  by (auto simp: link_entry_def split: list.split)

lemma find_link_entry:
  "he_key e \<notin> he_key ` set c \<Longrightarrow> find_entry k (link_entry e c) = (if k = he_key e then Some (he_value e) else find_entry k c)"
  by (auto simp: link_entry_def find_entry_None [symmetric] split: list.split)

lemma link_entry_buckets:
  assumes "buckets_ok sg cap bs" "content_of bs (he_key e) = None"
  defines "i \<equiv> unat (Netstack_Hash sg (he_key e) cap)"
  shows "buckets_ok sg cap (bs[i := link_entry e (bs ! i)])"
    and "content_of (bs[i := link_entry e (bs ! i)]) = (content_of bs)(he_key e \<mapsto> he_value e)"
    and "used (bs[i := link_entry e (bs ! i)]) = used bs + (if bs ! i = [] then 1 else 0)"
proof -
  have i: "i < length bs"
    using buckets_index [OF assms(1)] by (simp add: i_def)
  have new: "he_key e \<notin> he_key ` set (bs ! i)"
    using assms(2) content_lookup [OF assms(1)] by (simp add: i_def find_entry_None)
  have chain: "distinct (map he_key (bs ! i))" "\<forall>x \<in> set (bs ! i). unat (Netstack_Hash sg (he_key x) cap) = i"
    using assms(1) i by (auto simp: buckets_ok_def)
  show ok: "buckets_ok sg cap (bs[i := link_entry e (bs ! i)])"
    using chain new by (intro buckets_update [OF assms(1)]) (auto simp: i_def)
  show "content_of (bs[i := link_entry e (bs ! i)]) = (content_of bs)(he_key e \<mapsto> he_value e)"
    using find_link_entry [OF new] ok unfolding i_def by (intro content_change [OF assms(1)]) auto
  show "used (bs[i := link_entry e (bs ! i)]) = used bs + (if bs ! i = [] then 1 else 0)"
    using used_update [OF i, of "link_entry e (bs ! i)"] by (auto split: if_splits)
qed

section \<open>Resizing\<close>

lemma Netstack_RehashEntry_step:
  "Netstack_RehashEntry sg cap (e # c) bs n =
     (let i = unat (Netstack_Hash sg (he_key e) cap)
      in Netstack_RehashEntry sg cap c (bs[i := link_entry e (bs ! i)]) (if bs ! i = [] then n + 1 else n))"
  by (simp add: link_entry_def split: list.split)

declare Netstack_RehashEntry.simps(2) [simp del]

lemma Netstack_RehashEntry_spec:
  assumes "buckets_ok sg cap bs" "distinct (map he_key c)" "\<forall>e \<in> set c. content_of bs (he_key e) = None"
    "Netstack_RehashEntry sg cap c bs n = (bs', n')"
  shows "buckets_ok sg cap bs' \<and> content_of bs' = content_of bs ++ map_of (map kv c) \<and>
    n' + of_nat (used bs) = n + of_nat (used bs')"
  using assms
proof (induction c arbitrary: bs n)
  case (Cons e c)
  define i where "i = unat (Netstack_Hash sg (he_key e) cap)"
  define bs1 where "bs1 = bs[i := link_entry e (bs ! i)]"
  have "content_of bs (he_key e) = None"
    using Cons.prems(3) by simp
  note l = link_entry_buckets [OF Cons.prems(1) this, folded i_def, folded bs1_def]
  have "\<forall>x \<in> set c. content_of bs1 (he_key x) = None"
    using Cons.prems(2,3) unfolding l(2) by (metis distinct.simps(2) fun_upd_other image_eqI list.set_intros(2) list.simps(9) set_map)
  moreover have "Netstack_RehashEntry sg cap c bs1 (if bs ! i = [] then n + 1 else n) = (bs', n')"
    using Cons.prems(4) by (simp add: Netstack_RehashEntry_step i_def bs1_def)
  ultimately have r: "buckets_ok sg cap bs'" "content_of bs' = content_of bs1 ++ map_of (map kv c)"
    "n' + of_nat (used bs1) = (if bs ! i = [] then n + 1 else n) + of_nat (used bs')"
    using Cons.IH l(1) Cons.prems(2) by auto
  have "map_of (map kv c) (he_key e) = None"
    using Cons.prems(2) by (simp add: kv_None)
  then have "content_of bs' = content_of bs ++ map_of (map kv (e # c))"
    unfolding r(2) l(2) by (auto simp: map_add_def kv_def fun_eq_iff split: option.split)
  moreover have "n' + of_nat (used bs) = n + of_nat (used bs')"
    using r(3) l(3) by (auto split: if_splits simp: algebra_simps)
  ultimately show ?case
    using r(1) by blast
qed simp

lemma NetstackResizeMap_loop_spec:
  assumes "buckets_ok sg cap bs" "distinct (map he_key (concat cs))"
    "\<forall>e \<in> set (concat cs). content_of bs (he_key e) = None"
    "NetstackResizeMap_loop sg cap cs bs n = (bs', n')"
  shows "buckets_ok sg cap bs' \<and> content_of bs' = content_of bs ++ content_of cs \<and>
    n' + of_nat (used bs) = n + of_nat (used bs')"
  using assms
proof (induction cs arbitrary: bs n)
  case (Cons c cs)
  obtain bs1 k where r: "Netstack_RehashEntry sg cap c bs 0 = (bs1, k)"
    by fastforce
  have "distinct (map he_key c)" "\<forall>e \<in> set c. content_of bs (he_key e) = None"
    using Cons.prems(2,3) by auto
  note s = Netstack_RehashEntry_spec [OF Cons.prems(1) this r]
  have "c = [] \<Longrightarrow> bs1 = bs \<and> k = 0"
    using r by simp
  then have loop: "NetstackResizeMap_loop sg cap cs bs1 (n + k) = (bs', n')"
    using Cons.prems(4) r by (cases "c = []") simp_all
  have disj: "he_key ` set c \<inter> he_key ` set (concat cs) = {}"
    using Cons.prems(2) by (simp only: concat.simps map_append distinct_append set_map simp_thms)
  then have "map_of (map kv c) (he_key e) = None" if "e \<in> set (concat cs)" for e
    unfolding kv_None using that by blast
  then have "\<forall>e \<in> set (concat cs). content_of bs1 (he_key e) = None"
    using s Cons.prems(3) by (auto simp: map_add_def)
  then have t: "buckets_ok sg cap bs'" "content_of bs' = content_of bs1 ++ content_of cs"
    "n' + of_nat (used bs1) = n + k + of_nat (used bs')"
    using Cons.IH [of bs1 "n + k"] loop s Cons.prems(2) by auto
  have "dom (map_of (map kv c)) \<inter> dom (content_of cs) = {}"
    unfolding content_of_def kv_dom by (rule disj)
  then have "content_of (c # cs) = map_of (map kv c) ++ content_of cs"
    using map_add_comm [of "map_of (map kv c)" "content_of cs"] by (simp add: content_of_def)
  moreover have "n' + of_nat (used bs) = n + of_nat (used bs')"
    using t(3) s by (simp add: algebra_simps) (metis (no_types, lifting) add.left_commute add_left_cancel)
  moreover have "content_of bs' = content_of bs ++ (map_of (map kv c) ++ content_of cs)"
    using t(2) s by (simp only: map_add_assoc)
  ultimately show ?case
    using t(1) by simp
qed (simp add: content_of_def)

lemma NetstackResizeMap_spec:
  assumes "hm_inv sg m"
  shows "hm_inv sg (snd (NetstackResizeMap sg ok m)) \<and> hm_content (snd (NetstackResizeMap sg ok m)) = hm_content m"
proof (cases "hm_capacity m \<ge> MAX_MAP_CAPACITY \<or> \<not> ok")
  case True
  then show ?thesis
    using assms by (auto simp: NetstackResizeMap_def)
next
  case False
  define cap where "cap = hm_capacity m * 2"
  obtain bs n where r: "NetstackResizeMap_loop sg cap (hm_entries m) (replicate (unat cap) []) 0 = (bs, n)"
    by fastforce
  have m: "cap_ok (hm_capacity m)" "buckets_ok sg (hm_capacity m) (hm_entries m)"
    using assms by (auto simp: hm_inv_def)
  have cap: "cap_ok cap"
    unfolding cap_def using m(1) False by (intro cap_ok_double) auto
  have "buckets_ok sg cap bs \<and> content_of bs = content_of (replicate (unat cap) []) ++ content_of (hm_entries m) \<and>
    n + of_nat (used (replicate (unat cap) ([] :: 'a chain))) = 0 + of_nat (used bs)"
    using r buckets_keys_distinct [OF m(2)] buckets_replicate [OF cap_ok_nonzero [OF cap]]
    by (intro NetstackResizeMap_loop_spec) auto
  then have "buckets_ok sg cap bs" "content_of bs = content_of (hm_entries m)" "n = of_nat (used bs)"
    by (auto simp: map_add_def fun_eq_iff split: option.splits)
  moreover have "snd (NetstackResizeMap sg ok m) = m\<lparr>hm_entries := bs, hm_size := n, hm_capacity := cap\<rparr>"
    using False r by (simp add: NetstackResizeMap_def cap_def)
  ultimately show ?thesis
    using cap by (simp add: hm_inv_def hm_content_def)
qed

section \<open>Insertion and deletion\<close>

lemma replace_exist_spec:
  "case replace_exist k v c of
     None \<Rightarrow> find_entry k c = None
   | Some c' \<Rightarrow> map he_key c' = map he_key c \<and> find_entry k c \<noteq> None \<and> find_entry k c' = Some v \<and>
       (\<forall>k'. k' \<noteq> k \<longrightarrow> find_entry k' c' = find_entry k' c)"
  by (induction k v c rule: replace_exist.induct) (auto split: option.splits)

lemma keys_same_placed:
  assumes "map he_key c' = map he_key c" "\<forall>e \<in> set c. P (he_key e)"
  shows "\<forall>e \<in> set c'. P (he_key e)"
  using assms by (metis (mono_tags, lifting) image_iff list.set_map)

definition put_entry :: "bool \<Rightarrow> put_memory \<Rightarrow> 'v Netstack_HashMap \<Rightarrow> string \<Rightarrow> 'v \<Rightarrow> bool \<times> 'v Netstack_HashMap" where
  "put_entry sg mem m k v =
     (let r = Netstack_PutMapEntry sg mem (Some m) (Some k) v in (fst r = OH_HTTP_RESULT_OK, the (snd r)))"

definition delete_entry :: "bool \<Rightarrow> 'v Netstack_HashMap \<Rightarrow> string \<Rightarrow> 'v Netstack_HashMap" where
  "delete_entry sg m k = the (snd (Netstack_DeleteMapEntry sg (Some m) (Some k)))"

definition enough_memory :: "put_memory \<Rightarrow> bool" where
  "enough_memory mem \<longleftrightarrow> pm_entry mem \<and> pm_key mem"

text \<open>The insertion behind the resize, on the chain of the key.\<close>

definition put_resized :: "bool \<Rightarrow> put_memory \<Rightarrow> 'v Netstack_HashMap \<Rightarrow> string \<Rightarrow> 'v \<Rightarrow> bool \<times> 'v Netstack_HashMap" where
  "put_resized sg mem m k v =
     (let i = unat (Netstack_Hash sg k (hm_capacity m)); c = hm_entries m ! i
      in case replace_exist k v c of
           Some c' \<Rightarrow> (True, m\<lparr>hm_entries := (hm_entries m)[i := c']\<rparr>)
         | None \<Rightarrow>
             if enough_memory mem
             then (True, m\<lparr>hm_entries := (hm_entries m)[i := link_entry \<lparr>he_key = k, he_value = v\<rparr> c],
                           hm_size := hm_size m + (if c = [] then 1 else 0)\<rparr>)
             else (False, m))"

lemma put_entry_eq:
  assumes "hm_inv sg m"
  shows "put_entry sg mem m k v =
    put_resized sg mem (if hm_size m \<ge> hm_capacity m then snd (NetstackResizeMap sg (pm_resize mem) m) else m) k v"
proof -
  have "\<not> NetstackInvalidMap (Some m)"
    using assms by (simp add: cap_ok_valid hm_inv_def)
  then show ?thesis
    unfolding put_entry_def Netstack_PutMapEntry_def put_resized_def enough_memory_def link_entry_def
    by (simp split: list.split option.split)
qed

lemma put_resized_spec:
  assumes "hm_inv sg m"
  shows "hm_inv sg (snd (put_resized sg mem m k v)) \<and>
    hm_content (snd (put_resized sg mem m k v)) =
      (if fst (put_resized sg mem m k v) then (hm_content m)(k \<mapsto> v) else hm_content m) \<and>
    (enough_memory mem \<longrightarrow> fst (put_resized sg mem m k v))"
proof -
  let ?cap = "hm_capacity m" and ?bs = "hm_entries m"
  define i where "i = unat (Netstack_Hash sg k ?cap)"
  have b: "buckets_ok sg ?cap ?bs" "cap_ok ?cap" "hm_size m = of_nat (used ?bs)"
    using assms by (auto simp: hm_inv_def)
  have i: "i < length ?bs"
    using buckets_index [OF b(1)] by (simp add: i_def)
  have chain: "distinct (map he_key (?bs ! i))" "\<forall>x \<in> set (?bs ! i). unat (Netstack_Hash sg (he_key x) ?cap) = i"
    using b(1) i by (auto simp: buckets_ok_def)
  show ?thesis
  proof (cases "replace_exist k v (?bs ! i)")
    case None
    then have "content_of ?bs k = None"
      using replace_exist_spec [where k = k and v = v and c = "?bs ! i"] content_lookup [OF b(1)] by (simp add: i_def)
    then have "content_of ?bs (he_key \<lparr>he_key = k, he_value = v\<rparr>) = None"
      by simp
    note l = link_entry_buckets [OF b(1) this, simplified, folded i_def]
    show ?thesis
      using None l b(2,3) assms by (auto simp: put_resized_def i_def [symmetric] hm_inv_def hm_content_def)
  next
    case (Some c')
    then have s: "map he_key c' = map he_key (?bs ! i)" "find_entry k (?bs ! i) \<noteq> None" "find_entry k c' = Some v"
      "\<forall>k'. k' \<noteq> k \<longrightarrow> find_entry k' c' = find_entry k' (?bs ! i)"
      using replace_exist_spec [where k = k and v = v and c = "?bs ! i"] by auto
    have ok: "buckets_ok sg ?cap (?bs[i := c'])"
      using keys_same_placed [OF s(1), of "\<lambda>x. unat (Netstack_Hash sg x ?cap) = i"] chain s(1)
      by (intro buckets_update [OF b(1)]) auto
    have "content_of (?bs[i := c']) = (content_of ?bs)(k \<mapsto> v)"
      using ok s(3,4) unfolding i_def by (intro content_change [OF b(1)]) auto
    moreover have "used (?bs[i := c']) = used ?bs"
    proof -
      have "c' \<noteq> []" "?bs ! i \<noteq> []"
        using s(1,2) by (cases c'; auto)+
      then show ?thesis
        using used_update [OF i, of c'] by simp
    qed
    ultimately show ?thesis
      using Some ok b(2,3) by (simp add: put_resized_def i_def [symmetric] hm_inv_def hm_content_def)
  qed
qed

lemma unlink_spec:
  "distinct (map he_key c) \<Longrightarrow> set (unlink k c) \<subseteq> set c \<and> distinct (map he_key (unlink k c)) \<and>
     find_entry k' (unlink k c) = (if k' = k then None else find_entry k' c)"
  by (induction c) (auto simp: find_entry_None)

lemma of_nat_pred: "Suc a = b \<Longrightarrow> (of_nat b :: u32) - 1 = of_nat a"
  by auto

lemma delete_entry_spec:
  assumes "hm_inv sg m"
  shows "hm_inv sg (delete_entry sg m k) \<and> hm_content (delete_entry sg m k) = (hm_content m)(k := None)"
proof -
  let ?cap = "hm_capacity m" and ?bs = "hm_entries m"
  define i where "i = unat (Netstack_Hash sg k ?cap)"
  have b: "buckets_ok sg ?cap ?bs" "cap_ok ?cap" "hm_size m = of_nat (used ?bs)"
    using assms by (auto simp: hm_inv_def)
  have i: "i < length ?bs"
    using buckets_index [OF b(1)] by (simp add: i_def)
  have chain: "distinct (map he_key (?bs ! i))" "\<forall>x \<in> set (?bs ! i). unat (Netstack_Hash sg (he_key x) ?cap) = i"
    using b(1) i by (auto simp: buckets_ok_def)
  have e: "?bs[i := []] = ?bs" if "?bs ! i = []"
    using that by (metis list_update_id)
  have d: "delete_entry sg m k =
      m\<lparr>hm_entries := ?bs[i := unlink k (?bs ! i)],
        hm_size := hm_size m - (if ?bs ! i \<noteq> [] \<and> unlink k (?bs ! i) = [] then 1 else 0)\<rparr>"
    using cap_ok_valid [OF b(2)]
    by (cases "?bs ! i") (auto simp: delete_entry_def Netstack_DeleteMapEntry_def i_def [symmetric] e)
  note u = unlink_spec [OF chain(1), of k]
  have ok: "buckets_ok sg ?cap (?bs[i := unlink k (?bs ! i)])"
    using u chain(2) by (intro buckets_update [OF b(1)]) blast+
  moreover have "content_of (?bs[i := unlink k (?bs ! i)]) = (content_of ?bs)(k := None)"
    using ok u unfolding i_def by (intro content_change [OF b(1)]) auto
  moreover have "of_nat (used ?bs) - (if ?bs ! i \<noteq> [] \<and> unlink k (?bs ! i) = [] then 1 else 0) =
      (of_nat (used (?bs[i := unlink k (?bs ! i)])) :: u32)"
    using used_update [OF i, of "unlink k (?bs ! i)"] by (cases "?bs ! i = []") (auto split: if_splits intro: of_nat_pred)
  ultimately show ?thesis
    using b(2,3) by (simp add: d hm_inv_def hm_content_def)
qed

lemma Get_content:
  assumes "hm_inv sg m"
  shows "Netstack_GetMapEntry sg (Some m) (Some k) = hm_content m k"
  using assms cap_ok_valid [of m] content_lookup [of sg "hm_capacity m" "hm_entries m" k]
  by (simp add: Netstack_GetMapEntry_def hm_inv_def hm_content_def)

interpretation hm: string_map "hm_inv sg" hm_content "put_entry sg"
  "\<lambda>m k. Netstack_GetMapEntry sg (Some m) (Some k)" "delete_entry sg" enough_memory for sg
proof unfold_locales
  fix m :: "'a Netstack_HashMap" and a :: put_memory and k v
  assume "hm_inv sg m"
  moreover from this have "hm_inv sg (if hm_size m \<ge> hm_capacity m then snd (NetstackResizeMap sg (pm_resize a) m) else m)"
    "hm_content (if hm_size m \<ge> hm_capacity m then snd (NetstackResizeMap sg (pm_resize a) m) else m) = hm_content m"
    using NetstackResizeMap_spec by auto
  ultimately show "hm_inv sg (snd (put_entry sg a m k v))"
    "hm_content (snd (put_entry sg a m k v)) = (if fst (put_entry sg a m k v) then (hm_content m)(k \<mapsto> v) else hm_content m)"
    "enough_memory a \<Longrightarrow> fst (put_entry sg a m k v)"
    using put_resized_spec by (metis put_entry_eq)+
qed (simp_all add: Get_content delete_entry_spec)

section \<open>Reachable maps\<close>

inductive hm_reach :: "bool \<Rightarrow> 'v Netstack_HashMap \<Rightarrow> bool" for sg where
  created: "CreateMap a b = Some m \<Longrightarrow> hm_reach sg m"
| put: "hm_reach sg m \<Longrightarrow> Netstack_PutMapEntry sg mem (Some m) key v = (r, Some m') \<Longrightarrow> hm_reach sg m'"
| deleted: "hm_reach sg m \<Longrightarrow> Netstack_DeleteMapEntry sg (Some m) key = (r, Some m') \<Longrightarrow> hm_reach sg m'"

lemma Put_shape: "Netstack_PutMapEntry sg mem (Some m) (Some k) v =
    (r, p) \<Longrightarrow> hm_inv sg m \<Longrightarrow> p = Some (snd (put_entry sg mem m k v)) \<and> (r = OH_HTTP_RESULT_OK \<longleftrightarrow> fst (put_entry sg mem m k v))"
  by (auto simp: put_entry_def Netstack_PutMapEntry_def split: list.splits option.splits if_splits)

lemma Delete_shape: "hm_inv sg m \<Longrightarrow>
    Netstack_DeleteMapEntry sg (Some m) (Some k) = (OH_HTTP_RESULT_OK, Some (delete_entry sg m k))"
  using cap_ok_valid [of m]
  by (auto simp: delete_entry_def Netstack_DeleteMapEntry_def hm_inv_def split: list.splits)

lemma null_key: "Netstack_PutMapEntry sg mem p None v = (OH_HTTP_PARAMETER_ERROR, p)"
  "Netstack_DeleteMapEntry sg p None = (OH_HTTP_PARAMETER_ERROR, p)"
  by (cases p; simp add: Netstack_PutMapEntry_def Netstack_DeleteMapEntry_def)+

lemma hm_reach_inv: "hm_reach sg m \<Longrightarrow> hm_inv sg m"
proof (induction rule: hm_reach.induct)
  case (put m mem key v r m')
  then show ?case
    using Put_shape [of sg mem m _ v r "Some m'"] hm.put_inv [of sg m mem]
    by (cases key) (auto simp: null_key)
next
  case (deleted m key r m')
  then show ?case
    using Delete_shape [of sg m] delete_entry_spec [of sg m] by (cases key) (auto simp: null_key)
qed (simp add: CreateMap_inv)

section \<open>Iteration\<close>

lemma next_bucket_spec:
  "case next_bucket bs i of
     None \<Rightarrow> concat bs = []
   | Some (j, c) \<Rightarrow> \<exists>n < length bs. j = i + of_nat n \<and> c = bs ! n \<and> c \<noteq> [] \<and> concat (take n bs) = []"
proof (induction bs i rule: next_bucket.induct)
  case (2 c bs i)
  show ?case
  proof (cases "c = []")
    case True
    show ?thesis
    proof (cases "next_bucket bs (i + 1)")
      case None
      then show ?thesis using 2 True by simp
    next
      case (Some r)
      obtain j d where "r = (j, d)" by fastforce
      then obtain n where "n < length bs" "j = i + 1 + of_nat n" "d = bs ! n" "d \<noteq> []" "concat (take n bs) = []"
        using 2 True Some by auto
      then have "Suc n < length (c # bs) \<and> j = i + of_nat (Suc n) \<and> d = (c # bs) ! Suc n \<and> d \<noteq> [] \<and>
          concat (take (Suc n) (c # bs)) = []"
        using True by simp
      then show ?thesis
        using True Some \<open>r = (j, d)\<close> by (simp only: next_bucket.simps simp_thms if_False option.case prod.case) blast
    qed
  next
    case False
    then show ?thesis by (auto intro!: exI [of _ 0])
  qed
qed simp

text \<open>What an iterator has still to visit.\<close>

definition pending :: "'v Netstack_MapIterator \<Rightarrow> 'v chain" where
  "pending ite = mi_currentEntry ite @ concat (drop (Suc (unat (mi_currentIdx ite))) (hm_entries (mi_map ite)))"

definition ite_ok :: "bool \<Rightarrow> 'v Netstack_MapIterator \<Rightarrow> bool" where
  "ite_ok sg ite \<longleftrightarrow> hm_inv sg (mi_map ite) \<and>
     (if mi_currentEntry ite = [] then mi_currentIdx ite = hm_capacity (mi_map ite)
      else mi_currentIdx ite < hm_capacity (mi_map ite))"

lemma hm_inv_length: "hm_inv sg m \<Longrightarrow> length (hm_entries m) = unat (hm_capacity m) \<and> unat (hm_capacity m) \<le> 16384"
  using cap_ok_bounds by (auto simp: hm_inv_def buckets_ok_def)

lemma pending_Nil_iff: "ite_ok sg ite \<Longrightarrow> pending ite = [] \<longleftrightarrow> mi_currentEntry ite = []"
  using hm_inv_length [of sg "mi_map ite"] by (auto simp: pending_def ite_ok_def split: if_splits)

lemma next_bucket_at:
  assumes "hm_inv sg m" "unat k \<le> length (hm_entries m)"
  shows "case next_bucket (drop (unat k) (hm_entries m)) k of
     None \<Rightarrow> concat (drop (unat k) (hm_entries m)) = []
   | Some (j, c) \<Rightarrow> c \<noteq> [] \<and> j < hm_capacity m \<and>
       concat (drop (unat k) (hm_entries m)) = c @ concat (drop (Suc (unat j)) (hm_entries m))"
proof (cases "next_bucket (drop (unat k) (hm_entries m)) k")
  case None
  then show ?thesis
    using next_bucket_spec [of "drop (unat k) (hm_entries m)" k] by simp
next
  case (Some r)
  obtain j c where r: "r = (j, c)" by fastforce
  let ?es = "hm_entries m"
  note l = hm_inv_length [OF assms(1)]
  obtain n where n: "n < length ?es - unat k" "j = k + of_nat n" "c = drop (unat k) ?es ! n" "c \<noteq> []"
    "concat (take n (drop (unat k) ?es)) = []"
    using next_bucket_spec [of "drop (unat k) ?es" k] Some r by auto
  have lt: "unat k + n < length ?es"
    using n(1) by linarith
  then have "unat j = unat k + n"
    using n(2) l by (simp add: unat_word_ariths unat_of_nat)
  then have j: "unat j = unat k + n" "j < hm_capacity m"
    using lt l by (simp_all add: word_less_nat_alt)
  have "drop (unat k) ?es = take n (drop (unat k) ?es) @ drop (unat j) ?es"
    by (metis add.commute append_take_drop_id drop_drop j(1))
  then have "concat (drop (unat k) ?es) = concat (drop (unat j) ?es)"
    using n(5) by (metis append_Nil concat_append)
  also have "drop (unat j) ?es = c # drop (Suc (unat j)) ?es"
    using n(3) lt j(1) by (simp add: Cons_nth_drop_Suc)
  finally show ?thesis
    using Some r n(4) j(2) by simp
qed

lemma MapIterateNext_step:
  assumes "ite_ok sg ite" "mi_currentEntry ite \<noteq> []"
  shows "ite_ok sg (Netstack_MapIterateNext ite)" "pending (Netstack_MapIterateNext ite) = tl (pending ite)"
    "mi_map (Netstack_MapIterateNext ite) = mi_map ite"
proof -
  let ?m = "mi_map ite" and ?i = "mi_currentIdx ite"
  have inv: "hm_inv sg ?m" and i: "?i < hm_capacity ?m"
    using assms by (auto simp: ite_ok_def)
  note l = hm_inv_length [OF inv]
  have v: "\<not> NetstackInvalidMap (Some ?m)" "\<not> hm_capacity ?m \<le> ?i"
    using inv i by (auto simp: cap_ok_valid hm_inv_def)
  have s: "unat (?i + 1) = Suc (unat ?i)"
    using i l by (simp add: unat_word_ariths word_less_nat_alt)
  have b: "case next_bucket (drop (unat (?i + 1)) (hm_entries ?m)) (?i + 1) of
     None \<Rightarrow> concat (drop (unat (?i + 1)) (hm_entries ?m)) = []
   | Some (j, c) \<Rightarrow> c \<noteq> [] \<and> j < hm_capacity ?m \<and>
       concat (drop (unat (?i + 1)) (hm_entries ?m)) = c @ concat (drop (Suc (unat j)) (hm_entries ?m))"
    using i l s by (intro next_bucket_at [OF inv]) (simp add: word_less_nat_alt)
  have "ite_ok sg (Netstack_MapIterateNext ite) \<and> pending (Netstack_MapIterateNext ite) = tl (pending ite) \<and>
      mi_map (Netstack_MapIterateNext ite) = mi_map ite"
  proof (cases "tl (mi_currentEntry ite) = []")
    case True
    then have "tl (pending ite) = concat (drop (unat (?i + 1)) (hm_entries ?m))"
      using assms(2) s by (cases "mi_currentEntry ite") (simp_all add: pending_def)
    then show ?thesis
      using True v b l inv assms(2)
      by (auto simp: Netstack_MapIterateNext_def ite_ok_def pending_def split: option.splits prod.splits)
  next
    case False
    then show ?thesis
      using v i inv assms(2) by (simp add: Netstack_MapIterateNext_def ite_ok_def pending_def)
  qed
  then show "ite_ok sg (Netstack_MapIterateNext ite)" "pending (Netstack_MapIterateNext ite) = tl (pending ite)"
    "mi_map (Netstack_MapIterateNext ite) = mi_map ite" by auto
qed

lemma CreateMapIterator_spec:
  assumes "hm_inv sg m"
  shows "case Netstack_CreateMapIterator True (Some m) of
     None \<Rightarrow> concat (hm_entries m) = []
   | Some ite \<Rightarrow> mi_map ite = m \<and> ite_ok sg ite \<and> mi_currentEntry ite \<noteq> [] \<and> pending ite = concat (hm_entries m)"
  using next_bucket_at [OF assms, of 0] assms cap_ok_valid [of m]
  by (auto simp: Netstack_CreateMapIterator_def ite_ok_def pending_def hm_inv_def split: option.splits prod.splits)

lemma iterate_pending:
  assumes "ite_ok sg ite"
  shows "n \<le> length (pending ite) \<Longrightarrow> ite_ok sg ((Netstack_MapIterateNext ^^ n) ite) \<and>
    pending ((Netstack_MapIterateNext ^^ n) ite) = drop n (pending ite)"
proof (induction n)
  case (Suc n)
  let ?it = "(Netstack_MapIterateNext ^^ n) ite"
  have IH: "ite_ok sg ?it" "pending ?it = drop n (pending ite)"
    using Suc by auto
  moreover have "pending ?it \<noteq> []"
    using IH(2) Suc.prems by simp
  ultimately have "mi_currentEntry ?it \<noteq> []"
    using pending_Nil_iff by blast
  note s = MapIterateNext_step [OF IH(1) this]
  show ?case
    using s IH(2) by (simp add: tl_drop drop_Suc)
qed (simp add: assms)

lemma content_iff:
  assumes "hm_inv sg m"
  shows "hm_content m k = Some v \<longleftrightarrow> (\<exists>e \<in> set (concat (hm_entries m)). he_key e = k \<and> he_value e = v)"
proof -
  have "distinct (map fst (map kv (concat (hm_entries m))))"
    using assms buckets_keys_distinct by (auto simp: hm_inv_def)
  then show ?thesis
    unfolding hm_content_def content_of_def by (auto simp: map_of_eq_Some_iff kv_def image_iff simp del: map_map set_concat)
qed

lemma created_reach: "CreateMap True True = Some m \<Longrightarrow> hm_reach sg m"
  by (rule hm_reach.created)

definition new_map :: "'v Netstack_HashMap" where
  "new_map = \<lparr>hm_entries = replicate 16 [], hm_size = 0, hm_capacity = 16\<rparr>"

lemma new_map_reach: "hm_reach sg new_map"
  by (rule created_reach) (simp add: CreateMap_def new_map_def DEFAULT_MAP_CAPACITY_def)

definition all_memory :: put_memory where
  "all_memory = \<lparr>pm_resize = True, pm_entry = True, pm_key = True\<rparr>"

definition one_map :: "nat Netstack_HashMap" where
  "one_map = the (snd (Netstack_PutMapEntry False all_memory (Some new_map) (Some ''a'') 7))"

lemma one_map_reach: "hm_reach False one_map"
proof -
  obtain r p where rp: "Netstack_PutMapEntry False all_memory (Some new_map) (Some ''a'') (7::nat) = (r, p)"
    by fastforce
  have "p = Some one_map"
    using Put_shape [OF rp hm_reach_inv [OF new_map_reach]] rp by (simp add: one_map_def)
  with rp show ?thesis
    by (intro hm_reach.put [OF new_map_reach]) auto
qed

section \<open>Properties\<close>

text \<open>
  C5. In every reachable map an insertion or deletion behaves as on a finite map, whatever keys
  collide and whenever the array is enlarged: a successful insertion sets its key and no other, a
  failed one changes nothing, memory for the entry and its key is enough to succeed, a deletion
  removes its key and no other.
\<close>

theorem hash_map_is_finite_map:
  assumes "hm_reach sg m"
  shows "(let (r, p) = Netstack_PutMapEntry sg mem (Some m) (Some k) v
      in (r = OH_HTTP_RESULT_OK \<longrightarrow>
            Netstack_GetMapEntry sg p (Some k') = (if k' = k then Some v else Netstack_GetMapEntry sg (Some m) (Some k'))) \<and>
         (r \<noteq> OH_HTTP_RESULT_OK \<longrightarrow> Netstack_GetMapEntry sg p (Some k') = Netstack_GetMapEntry sg (Some m) (Some k')) \<and>
         (pm_entry mem \<and> pm_key mem \<longrightarrow> r = OH_HTTP_RESULT_OK)) \<and>
    (let (r, p) = Netstack_DeleteMapEntry sg (Some m) (Some k)
      in r = OH_HTTP_RESULT_OK \<and>
         Netstack_GetMapEntry sg p (Some k') = (if k' = k then None else Netstack_GetMapEntry sg (Some m) (Some k')))"
proof -
  have inv: "hm_inv sg m"
    using assms by (rule hm_reach_inv)
  obtain r p where rp: "Netstack_PutMapEntry sg mem (Some m) (Some k) v = (r, p)"
    by fastforce
  note shape = Put_shape [OF rp inv]
  have inv': "hm_inv sg (snd (put_entry sg mem m k v))"
    using inv by (rule hm.put_inv)
  have "Netstack_GetMapEntry sg p (Some k') =
      (if fst (put_entry sg mem m k v) \<and> k' = k then Some v else Netstack_GetMapEntry sg (Some m) (Some k'))"
    using shape hm.put_content [OF inv, of mem k v] by (simp add: Get_content [OF inv] Get_content [OF inv'])
  moreover have "pm_entry mem \<and> pm_key mem \<Longrightarrow> fst (put_entry sg mem m k v)"
    using hm.put_succeeds [OF inv] by (simp add: enough_memory_def)
  ultimately show ?thesis
    using rp shape Delete_shape [OF inv, of k] hm.get_after_del [OF inv, of k k'] by auto
qed

theorem hash_map_is_finite_map_witness:
  "(let (r, p) = Netstack_PutMapEntry True all_memory (Some new_map) (Some ''a'') (7::nat)
    in r = OH_HTTP_RESULT_OK \<and> Netstack_GetMapEntry True p (Some ''a'') = Some 7)"
  using hash_map_is_finite_map [OF new_map_reach, where mem = all_memory and sg = True and k = "''a''" and v = "7::nat" and k' = "''a''"]
  by (auto simp: all_memory_def split: prod.splits)

text \<open>
  The shape of every reachable map: the capacity is a power of two between 16 and 16384, so that
  no operation ever refuses it as invalid, its array has that many chains, every entry is in the
  chain of its hash, no key occurs twice, and \<open>size\<close> is the number of chains that are not empty.
\<close>

lemma hash_map_shape:
  assumes "hm_reach sg m"
  shows "\<not> NetstackInvalidMap (Some m) \<and> length (hm_entries m) = unat (hm_capacity m) \<and>
    (\<exists>n. 4 \<le> n \<and> n \<le> 14 \<and> unat (hm_capacity m) = 2 ^ n) \<and>
    (\<forall>i < length (hm_entries m). \<forall>e \<in> set (hm_entries m ! i). unat (Netstack_Hash sg (he_key e) (hm_capacity m)) = i) \<and>
    distinct (map he_key (concat (hm_entries m))) \<and>
    unat (hm_size m) = length (filter (\<lambda>c. c \<noteq> []) (hm_entries m)) \<and> hm_size m \<le> hm_capacity m"
proof -
  have inv: "hm_inv sg m"
    using assms by (rule hm_reach_inv)
  then have i: "cap_ok (hm_capacity m)" "buckets_ok sg (hm_capacity m) (hm_entries m)"
    "hm_size m = of_nat (used (hm_entries m))"
    by (auto simp: hm_inv_def)
  note l = hm_inv_length [OF inv]
  have "used (hm_entries m) < 2 ^ 32"
    using used_le [of "hm_entries m"] l by simp
  then have "unat (hm_size m) = used (hm_entries m)"
    using i(3) by (simp add: unat_of_nat)
  moreover have "hm_size m \<le> hm_capacity m"
    using calculation used_le [of "hm_entries m"] l by (simp add: word_le_nat_alt)
  moreover have "unat (hm_capacity m) \<in> (\<lambda>n. 2 ^ n) ` set [4..<15]"
    using i(1) by (auto simp: cap_ok_def upt_conv_Cons)
  then have "\<exists>n. 4 \<le> n \<and> n \<le> (14::nat) \<and> unat (hm_capacity m) = 2 ^ n"
    unfolding image_iff set_upt Bex_def atLeastLessThan_iff by (elim ex_forward) simp
  ultimately show ?thesis
    using cap_ok_valid [OF i(1)] l buckets_keys_distinct [OF i(2)] i(2) by (simp add: used_def buckets_ok_def)
qed

text \<open>
  C17. An iterator over a map that is not modified meanwhile visits every entry exactly once and then
  ends: after as many steps as there are entries it has no current entry, and the entries visited
  are exactly the pairs the look-up knows.
\<close>

theorem iterator_visits_all:
  assumes "hm_reach sg m" and "Netstack_CreateMapIterator True (Some m) = Some ite"
  defines "es \<equiv> concat (hm_entries m)"
  shows "(\<forall>n < length es. hd (mi_currentEntry ((Netstack_MapIterateNext ^^ n) ite)) = es ! n) \<and>
    mi_currentEntry ((Netstack_MapIterateNext ^^ length es) ite) = [] \<and> distinct (map he_key es) \<and>
    (\<forall>k v. Netstack_GetMapEntry sg (Some m) (Some k) = Some v \<longleftrightarrow> \<lparr>he_key = k, he_value = v\<rparr> \<in> set es)"
proof -
  have inv: "hm_inv sg m"
    using assms(1) by (rule hm_reach_inv)
  then have ite: "ite_ok sg ite" "pending ite = es"
    using CreateMapIterator_spec [OF inv] assms(2) by (auto simp: es_def)
  have visit: "hd (mi_currentEntry ((Netstack_MapIterateNext ^^ n) ite)) = es ! n" if "n < length es" for n
  proof -
    let ?it = "(Netstack_MapIterateNext ^^ n) ite"
    have "ite_ok sg ?it" "pending ?it = drop n es"
      using iterate_pending [OF ite(1), of n] ite(2) that by auto
    moreover from this have "mi_currentEntry ?it \<noteq> []"
      using pending_Nil_iff that by (metis drop_eq_Nil not_le)
    ultimately have "hd (mi_currentEntry ?it) = hd (drop n es)"
      by (simp add: pending_def) (metis hd_append2)
    then show ?thesis
      using that by (simp add: hd_drop_conv_nth)
  qed
  have "ite_ok sg ((Netstack_MapIterateNext ^^ length es) ite)" "pending ((Netstack_MapIterateNext ^^ length es) ite) = []"
    using iterate_pending [OF ite(1), of "length es"] ite(2) by auto
  then have "mi_currentEntry ((Netstack_MapIterateNext ^^ length es) ite) = []"
    using pending_Nil_iff by blast
  moreover have "(\<exists>e \<in> set es. he_key e = k \<and> he_value e = v) \<longleftrightarrow> \<lparr>he_key = k, he_value = v\<rparr> \<in> set es" for k v
  proof
    assume "\<exists>e \<in> set es. he_key e = k \<and> he_value e = v"
    then obtain e where "e \<in> set es" "he_key e = k" "he_value e = v" by blast
    moreover from this have "e = \<lparr>he_key = k, he_value = v\<rparr>"
      by (intro Netstack_HashMapEntry.equality) simp_all
    ultimately show "\<lparr>he_key = k, he_value = v\<rparr> \<in> set es" by simp
  qed force
  moreover have "distinct (map he_key es)"
    using inv buckets_keys_distinct by (auto simp: hm_inv_def es_def)
  ultimately show ?thesis
    using visit content_iff [OF inv] Get_content [OF inv] by (simp add: es_def del: set_concat)
qed

theorem iterator_visits_all_witness:
  "let ite = the (Netstack_CreateMapIterator True (Some one_map))
   in hd (mi_currentEntry ite) = \<lparr>he_key = ''a'', he_value = 7\<rparr> \<and> mi_currentEntry (Netstack_MapIterateNext ite) = []"
proof -
  have "Netstack_Hash False ''a'' 16 = 1"
    by code_simp
  moreover have "replicate 16 [] = [] # [] # replicate 14 ([] :: nat chain)"
    by (simp add: numeral_eq_Suc)
  ultimately have e: "hm_entries one_map = [] # [\<lparr>he_key = ''a'', he_value = 7\<rparr>] # replicate 14 []" "hm_capacity one_map = 16"
    by (simp_all add: one_map_def Netstack_PutMapEntry_def NetstackInvalidMap_def DEFAULT_MAP_CAPACITY_def
        MAX_MAP_CAPACITY_def new_map_def all_memory_def)
  then have ite: "Netstack_CreateMapIterator True (Some one_map) =
      Some \<lparr>mi_map = one_map, mi_currentIdx = 1, mi_currentEntry = [\<lparr>he_key = ''a'', he_value = 7\<rparr>]\<rparr>"
    by (simp add: Netstack_CreateMapIterator_def NetstackInvalidMap_def DEFAULT_MAP_CAPACITY_def MAX_MAP_CAPACITY_def)
  show ?thesis
    using iterator_visits_all [OF one_map_reach ite] ite e by simp
qed

end
