(* ===== verification/Cache_Proxy.thy ===== *)
theory Cache_Proxy
  imports Http_Cache_Strategy_Correct LRU_Persist_Correct Base64
begin

text \<open>
  The proxy between the HTTP client and the response cache
  (\<open>interfaces/innerkits/http_client/cache/cache_proxy/src/cache_proxy.cpp\<close>): the key of a request,
  storing and reading a response, and the static operations of the cache. The global variables of
  the file are the record \<open>cache_global\<close>; the interleaving of its worker thread with the callers is
  the subject of \<open>Cache_Thread\<close>.
\<close>

section \<open>Data\<close>

definition RESPONSE_KEY_RESULT :: string where "RESPONSE_KEY_RESULT = ''result''"
definition RESPONSE_KEY_HEADER :: string where "RESPONSE_KEY_HEADER = ''header''"
definition RESPONSE_KEY_COOKIES :: string where "RESPONSE_KEY_COOKIES = ''cookies''"
definition REQUEST_TIME :: string where "REQUEST_TIME = ''requestTime''"
definition RESPONSE_TIME :: string where "RESPONSE_TIME = ''responseTime''"

record cache_global =
  cg_disk :: lru_disk
  cg_isRunning :: bool
  cg_needRun :: bool

record CacheProxy =
  cp_key :: string
  cp_strategy :: HttpCacheStrategy

section \<open>Operations\<close>

fun key_headers :: "headers \<Rightarrow> string" where
  "key_headers [] = []"
| "key_headers (p # hs) =
     (if fst p = IF_NONE_MATCH \<or> fst p = IF_MODIFIED_SINCE then key_headers hs
      else fst p @ HTTP_HEADER_SEPARATOR @ snd p @ HTTP_LINE_SEPARATOR @ key_headers hs)"

definition key_text :: "curl_versions \<Rightarrow> HttpClientRequest \<Rightarrow> string" where
  "key_text cv r =
     rq_url r @ HTTP_LINE_SEPARATOR @ ToLower (rq_method r) @ HTTP_LINE_SEPARATOR @ key_headers (rq_headers r) @
     to_string_nat (unat (GetHttpVersion cv r))"

definition new_CacheProxy :: "curl_versions \<Rightarrow> HttpClientRequest \<Rightarrow> CacheProxy" where
  "new_CacheProxy cv requestOptions =
     \<lparr>cp_key = Encode (key_text cv requestOptions), cp_strategy = new_HttpCacheStrategy requestOptions\<rparr>"

text \<open>\<open>m[k]\<close> of a \<open>std::unordered_map\<close> of strings.\<close>

definition umap_get :: "svmap \<Rightarrow> string \<Rightarrow> string" where
  "umap_get m k = (case map_of m k of None \<Rightarrow> [] | Some v \<Rightarrow> v)"

definition ReadResponseFromCache ::
  "'j cjson \<Rightarrow> cache_global \<Rightarrow> CacheProxy \<Rightarrow> (cache_global \<times> HttpClientResponse option) option" where
  "ReadResponseFromCache J g p =
     (if \<not> cg_isRunning g then Some (g, None)
      else if \<not> CouldUseCache (cp_strategy p) then Some (g, None)
      else case LRUCacheDiskHandler_Get J (cg_disk g) (cp_key p) of
        None \<Rightarrow> None
      | Some (disk, responseFromCache) \<Rightarrow>
          let g1 = g\<lparr>cg_disk := disk\<rparr>
          in if responseFromCache = [] then Some (g1, None)
             else let r0 = new_HttpClientResponse;
                      r1 = Response_SetRawHeader r0 (Decode (umap_get responseFromCache RESPONSE_KEY_HEADER));
                      r2 = SetResult r1 (Decode (umap_get responseFromCache RESPONSE_KEY_RESULT));
                      r3 = SetCookies r2 (Decode (umap_get responseFromCache RESPONSE_KEY_COOKIES));
                      r4 = Response_SetResponseTime r3 (Decode (umap_get responseFromCache RESPONSE_TIME));
                      r5 = Response_SetRequestTime r4 (Decode (umap_get responseFromCache REQUEST_TIME));
                      r6 = SetResponseCode r5 RC_OK
                  in Some (g1, Some (Response_ParseHeaders r6)))"

definition Proxy_RunStrategy ::
  "time_env \<Rightarrow> CacheProxy \<Rightarrow> HttpClientResponse option \<Rightarrow>
   (CacheStatus \<times> CacheProxy \<times> HttpClientResponse option) option" where
  "Proxy_RunStrategy env p cachedResponse =
     (case cachedResponse of
        None \<Rightarrow> Some (DENY, p, None)
      | Some r \<Rightarrow>
          map_option (\<lambda>(status, st, r'). (status, p\<lparr>cp_strategy := st\<rparr>, Some r')) (RunStrategy env (cp_strategy p) r))"

definition cacheResponse :: "HttpClientResponse \<Rightarrow> svmap" where
  "cacheResponse response =
     umap_put REQUEST_TIME (Encode (rs_requestTime response))
       (umap_put RESPONSE_TIME (Encode (rs_responseTime response))
         (umap_put RESPONSE_KEY_COOKIES (Encode (rs_cookies response))
           (umap_put RESPONSE_KEY_RESULT (Encode (rs_result response))
             (umap_put RESPONSE_KEY_HEADER (Encode (rs_rawHeader response)) []))))"

definition WriteResponseToCache ::
  "time_env \<Rightarrow> cache_global \<Rightarrow> CacheProxy \<Rightarrow> HttpClientResponse \<Rightarrow> cache_global option" where
  "WriteResponseToCache env g p response =
     (if \<not> cg_isRunning g then Some g
      else if \<not> IsCacheable_response env (cp_strategy p) response then Some g
      else map_option (\<lambda>disk. g\<lparr>cg_disk := disk\<rparr>) (LRUCacheDiskHandler_Put (cg_disk g) (cp_key p) (cacheResponse response)))"

text \<open>The part of \<open>RunCacheWithSize\<close> before the thread; the flag \<open>g_cacheIsRunning\<close> is set by the thread.\<close>

definition RunCacheWithSize :: "'j cjson \<Rightarrow> cache_global \<Rightarrow> nat \<Rightarrow> cache_global option" where
  "RunCacheWithSize J g capacity =
     (if cg_isRunning g then Some g
      else case SetCapacity J (cg_disk g) capacity of
        None \<Rightarrow> None
      | Some disk \<Rightarrow>
          map_option (\<lambda>disk1. g\<lparr>cg_needRun := True, cg_disk := disk1\<rparr>) (ReadCacheFromJsonFile J disk))"

definition RunCache :: "'j cjson \<Rightarrow> cache_global \<Rightarrow> cache_global option" where
  "RunCache J g = RunCacheWithSize J g MAX_DISK_CACHE_SIZE"

definition FlushCache :: "'j cjson \<Rightarrow> cache_global \<Rightarrow> cache_global option" where
  "FlushCache J g =
     (if \<not> cg_isRunning g then Some g
      else map_option (\<lambda>disk. g\<lparr>cg_disk := disk\<rparr>) (WriteCacheToJsonFile J (cg_disk g)))"

section \<open>Keys\<close>

lemma cut_at:
  assumes "xs @ a # ys = xs' @ a # ys'" "a \<notin> set xs" "a \<notin> set xs'"
  shows "xs = xs'" and "ys = ys'"
proof -
  have "takeWhile (\<lambda>c. c \<noteq> a) (xs @ a # ys) = xs" "takeWhile (\<lambda>c. c \<noteq> a) (xs' @ a # ys') = xs'"
    using assms(2,3) by (auto simp: takeWhile_tail)
  then show "xs = xs'"
    using assms(1) by simp
  then show "ys = ys'"
    using assms(1) by simp
qed

definition key_header_ok :: "string \<times> string \<Rightarrow> bool" where
  "key_header_ok p \<longleftrightarrow> CHR '':'' \<notin> set (fst p) \<and> CHR 0x0D \<notin> set (fst p) \<and> CHR 0x0D \<notin> set (snd p)"

definition key_ok :: "HttpClientRequest \<Rightarrow> bool" where
  "key_ok r \<longleftrightarrow> CHR 0x0D \<notin> set (rq_url r) \<and> CHR 0x0D \<notin> set (ToLower (rq_method r)) \<and> list_all key_header_ok (rq_headers r)"

definition keyed :: "headers \<Rightarrow> headers" where
  "keyed hs = filter (\<lambda>p. fst p \<noteq> IF_NONE_MATCH \<and> fst p \<noteq> IF_MODIFIED_SINCE) hs"

lemma key_headers_keyed:
  "key_headers hs = concat (map (\<lambda>p. fst p @ CHR '':'' # snd p @ CHR 0x0D # [CHR 0x0A]) (keyed hs))"
  by (induction hs) (auto simp: keyed_def HTTP_HEADER_SEPARATOR_def HTTP_LINE_SEPARATOR_def)

lemma digits_no_CR: "CHR 0x0D \<notin> set (to_string_nat n)"
proof (induction n rule: to_string_nat.induct)
  case (1 n)
  have "\<not> is_digit (CHR 0x0D)"
    by code_simp
  then have "CHR 0x0D \<noteq> digit_char d" if "d < 10" for d
    using digit_char_props(1) [OF that] by metis
  then show ?case
    using 1 by (subst to_string_nat.simps) auto
qed

lemma header_block_inj:
  assumes "list_all key_header_ok hs" "list_all key_header_ok hs'"
    "CHR 0x0D \<notin> set t" "CHR 0x0D \<notin> set t'"
    "concat (map (\<lambda>p. fst p @ CHR '':'' # snd p @ CHR 0x0D # [CHR 0x0A]) hs) @ t =
     concat (map (\<lambda>p. fst p @ CHR '':'' # snd p @ CHR 0x0D # [CHR 0x0A]) hs') @ t'"
  shows "hs = hs' \<and> t = t'"
  using assms(1,2,5)
proof (induction hs arbitrary: hs')
  case Nil
  then show ?case
  proof (cases hs')
    case (Cons p' ps')
    then have "CHR 0x0D \<in> set t"
      using Nil.prems by auto
    then show ?thesis using assms(3) by simp
  qed simp
next
  case (Cons p hs)
  show ?case
  proof (cases hs')
    case Nil
    then have "CHR 0x0D \<in> set t'"
      using Cons.prems(3) by (metis (no_types, lifting) append_Nil concat.simps in_set_conv_decomp list.simps(8,9) append_assoc append_Cons)
    then show ?thesis using assms(4) by simp
  next
    fix p' ps'
    assume c: "hs' = p' # ps'"
    have ok: "key_header_ok p" "key_header_ok p'" "list_all key_header_ok hs" "list_all key_header_ok ps'"
      using Cons.prems(1,2) c by auto
    let ?b = "\<lambda>xs t. concat (map (\<lambda>p. fst p @ CHR '':'' # snd p @ CHR 0x0D # [CHR 0x0A]) xs) @ t"
    have "fst p @ CHR '':'' # snd p @ CHR 0x0D # CHR 0x0A # ?b hs t =
        fst p' @ CHR '':'' # snd p' @ CHR 0x0D # CHR 0x0A # ?b ps' t'"
      using Cons.prems(3) c by simp
    note e = this
    have no: "CHR '':'' \<notin> set (fst p)" "CHR '':'' \<notin> set (fst p')" "CHR 0x0D \<notin> set (snd p)" "CHR 0x0D \<notin> set (snd p')"
      using ok(1,2) by (simp_all add: key_header_ok_def)
    note f = cut_at(1) [OF e no(1,2)]
    note r = cut_at(2) [OF e no(1,2)]
    note s = cut_at(1) [OF r no(3,4)]
    have "?b hs t = ?b ps' t'"
      using cut_at(2) [OF r no(3,4)] by (simp only: list.inject)
    then have "hs = ps' \<and> t = t'"
      using Cons.IH [OF ok(3,4)] by blast
    with f s c show ?thesis
      by (simp add: prod_eq_iff)
  qed
qed

lemma keyed_ok: "list_all key_header_ok hs \<Longrightarrow> list_all key_header_ok (keyed hs)"
  by (auto simp: keyed_def list_all_iff)

lemma key_text_inj:
  assumes "key_ok r" "key_ok r'" "key_text cv r = key_text cv r'"
  shows "rq_url r = rq_url r' \<and> ToLower (rq_method r) = ToLower (rq_method r') \<and>
    keyed (rq_headers r) = keyed (rq_headers r') \<and> GetHttpVersion cv r = GetHttpVersion cv r'"
proof -
  let ?v = "to_string_nat (unat (GetHttpVersion cv r))" and ?v' = "to_string_nat (unat (GetHttpVersion cv r'))"
  have e: "rq_url r @ CHR 0x0D # CHR 0x0A # ToLower (rq_method r) @ CHR 0x0D # CHR 0x0A # key_headers (rq_headers r) @ ?v =
      rq_url r' @ CHR 0x0D # CHR 0x0A # ToLower (rq_method r') @ CHR 0x0D # CHR 0x0A # key_headers (rq_headers r') @ ?v'"
    using assms(3) by (simp add: key_text_def HTTP_LINE_SEPARATOR_def)
  have no: "CHR 0x0D \<notin> set (rq_url r)" "CHR 0x0D \<notin> set (rq_url r')"
    "CHR 0x0D \<notin> set (ToLower (rq_method r))" "CHR 0x0D \<notin> set (ToLower (rq_method r'))"
    using assms(1,2) by (simp_all add: key_ok_def)
  note url = cut_at(1) [OF e no(1,2)]
  have e2: "ToLower (rq_method r) @ CHR 0x0D # CHR 0x0A # key_headers (rq_headers r) @ ?v =
      ToLower (rq_method r') @ CHR 0x0D # CHR 0x0A # key_headers (rq_headers r') @ ?v'"
    using cut_at(2) [OF e no(1,2)] by (simp only: list.inject)
  note m = cut_at(1) [OF e2 no(3,4)]
  have e3: "key_headers (rq_headers r) @ ?v = key_headers (rq_headers r') @ ?v'"
    using cut_at(2) [OF e2 no(3,4)] by (simp only: list.inject)
  have "keyed (rq_headers r) = keyed (rq_headers r') \<and> ?v = ?v'"
    using assms(1,2) e3 digits_no_CR unfolding key_headers_keyed key_ok_def
    by (intro header_block_inj) (auto intro: keyed_ok)
  moreover from this have "unat (GetHttpVersion cv r) = unat (GetHttpVersion cv r')"
    by (metis dec_value_to_string_nat)
  then have "GetHttpVersion cv r = GetHttpVersion cv r'"
    by (rule word_unat_eq_iff [THEN iffD2])
  ultimately show ?thesis
    using url m by blast
qed

section \<open>Storing and reading\<close>

definition cached :: "HttpClientResponse \<Rightarrow> HttpClientResponse" where
  "cached r = Response_ParseHeaders
     (new_HttpClientResponse\<lparr>rs_rawHeader := rs_rawHeader r, rs_result := rs_result r, rs_cookies := rs_cookies r,
        rs_responseTime := rs_responseTime r, rs_requestTime := rs_requestTime r, rs_responseCode := RC_OK\<rparr>)"

lemma cacheResponse_eq:
  "cacheResponse r = [(RESPONSE_KEY_HEADER, Encode (rs_rawHeader r)), (RESPONSE_KEY_RESULT, Encode (rs_result r)),
     (RESPONSE_KEY_COOKIES, Encode (rs_cookies r)), (RESPONSE_TIME, Encode (rs_responseTime r)),
     (REQUEST_TIME, Encode (rs_requestTime r))]"
  by (simp add: cacheResponse_def RESPONSE_KEY_HEADER_def RESPONSE_KEY_RESULT_def RESPONSE_KEY_COOKIES_def
      RESPONSE_TIME_def REQUEST_TIME_def)

lemma umap_get_cacheResponse:
  "umap_get (cacheResponse r) RESPONSE_KEY_HEADER = Encode (rs_rawHeader r)"
  "umap_get (cacheResponse r) RESPONSE_KEY_RESULT = Encode (rs_result r)"
  "umap_get (cacheResponse r) RESPONSE_KEY_COOKIES = Encode (rs_cookies r)"
  "umap_get (cacheResponse r) RESPONSE_TIME = Encode (rs_responseTime r)"
  "umap_get (cacheResponse r) REQUEST_TIME = Encode (rs_requestTime r)"
  by (simp_all add: cacheResponse_eq umap_get_def RESPONSE_KEY_HEADER_def RESPONSE_KEY_RESULT_def
      RESPONSE_KEY_COOKIES_def RESPONSE_TIME_def REQUEST_TIME_def)

lemma store_fitting: "valid_value v \<Longrightarrow> map_bytes v \<le> b \<Longrightarrow> map_of (store b k v es) k = Some v"
  by (simp add: store_def)

lemma cache_write_ok:
  assumes "lru_inv (ld_cache (cg_disk g))" "cg_isRunning g" "IsCacheable_response env (cp_strategy p) r"
    "valid_value (cacheResponse r)" "map_bytes (cacheResponse r) \<le> lru_room (ld_cache (cg_disk g))"
  shows "\<exists>g'. WriteResponseToCache env g p r = Some g' \<and> cg_isRunning g' \<and> lru_inv (ld_cache (cg_disk g')) \<and>
    map_of (lru_entries (ld_cache (cg_disk g'))) (cp_key p) = Some (cacheResponse r)"
  using LRUCache_Put_ok [OF assms(1), of "cp_key p" "cacheResponse r"] assms
  by (auto simp: WriteResponseToCache_def LRUCacheDiskHandler_Put_def store_fitting)

lemma cache_read_hit:
  assumes "lru_inv (ld_cache (cg_disk g))" "cg_isRunning g" "CouldUseCache (cp_strategy p)"
    "map_of (lru_entries (ld_cache (cg_disk g))) (cp_key p) = Some (cacheResponse r)"
  shows "\<exists>g'. ReadResponseFromCache J g p = Some (g', Some (cached r)) \<and> cg_isRunning g' \<and>
    lru_inv (ld_cache (cg_disk g'))"
proof -
  have ne: "cacheResponse r \<noteq> []"
    by (simp add: cacheResponse_eq)
  obtain c where "LRUCache_Get (ld_cache (cg_disk g)) (cp_key p) = Some (c, cacheResponse r)" "lru_inv c"
    using LRUCache_Get_ok [OF assms(1), of "cp_key p"] assms(4) by (auto simp: lookup_or_empty_def)
  then show ?thesis
    using assms(2,3) ne
    by (simp add: ReadResponseFromCache_def LRUCacheDiskHandler_Get_def umap_get_cacheResponse Decode_Encode cached_def
        response_setters)
qed

lemma cached_fields [simp]:
  "rs_result (cached r) = rs_result r" "rs_cookies (cached r) = rs_cookies r" "rs_rawHeader (cached r) = rs_rawHeader r"
  "rs_responseTime (cached r) = rs_responseTime r" "rs_requestTime (cached r) = rs_requestTime r"
  "rs_responseCode (cached r) = RC_OK"
  by (simp_all add: cached_def Response_ParseHeaders_def)

text \<open>A small response, for the witnesses.\<close>

definition sample_response :: HttpClientResponse where
  "sample_response = new_HttpClientResponse\<lparr>rs_responseCode := RC_NOT_FOUND, rs_result := ''no such page''\<rparr>"

definition sample_global :: cache_global where
  "sample_global = \<lparr>cg_disk = LRUCacheDiskHandler \<lparr>dh_fileName = ''f'', dh_content = None, dh_can_read = True,
     dh_can_write = True, dh_can_remove = True\<rparr> 0, cg_isRunning = True, cg_needRun = True\<rparr>"

definition sample_versions :: curl_versions where
  "sample_versions = \<lparr>CURL_HTTP_VERSION_3 = 30, CURL_HTTP_VERSION_2_0 = 3, CURL_HTTP_VERSION_1_1 = 2,
     CURL_HTTP_VERSION_NONE = 0\<rparr>"

section \<open>Properties\<close>



text \<open>
  C25. A cacheable response that fits is found again under the same request with the same raw header,
  body, cookies and times. The response code is not stored: whatever it was, 404 and redirections
  included, the cached response says 200.
\<close>

theorem cache_write_then_read:
  assumes "disk_reach J d (cg_disk g)" and "cg_isRunning g"
    and "IsCacheable_response env (new_HttpCacheStrategy r) response"
    and "valid_value (cacheResponse response)"
    and "map_bytes (cacheResponse response) \<le> lru_room (ld_cache (cg_disk g))"
  shows "\<exists>g1 g2 c. WriteResponseToCache env g (new_CacheProxy cv r) response = Some g1 \<and>
    ReadResponseFromCache J g1 (new_CacheProxy cv r) = Some (g2, Some c) \<and>
    rs_result c = rs_result response \<and> rs_rawHeader c = rs_rawHeader response \<and> rs_cookies c = rs_cookies response \<and>
    rs_responseTime c = rs_responseTime response \<and> rs_requestTime c = rs_requestTime response \<and>
    rs_responseCode c = RC_OK"
proof -
  let ?p = "new_CacheProxy cv r"
  have s: "cp_strategy ?p = new_HttpCacheStrategy r"
    by (simp add: new_CacheProxy_def)
  have inv: "lru_inv (ld_cache (cg_disk g))"
    using disk_reach_inv [OF assms(1)] by (simp add: disk_inv_def)
  have "CouldUseCache (cp_strategy ?p)"
    using assms(3) by (simp add: s IsCacheable_response_def split: if_splits)
  moreover obtain g1 where w: "WriteResponseToCache env g ?p response = Some g1" "cg_isRunning g1"
    "lru_inv (ld_cache (cg_disk g1))" "map_of (lru_entries (ld_cache (cg_disk g1))) (cp_key ?p) = Some (cacheResponse response)"
    using cache_write_ok [OF inv assms(2), of env ?p response] assms(3-5) s by auto
  ultimately obtain g2 where "ReadResponseFromCache J g1 ?p = Some (g2, Some (cached response))"
    using cache_read_hit [OF w(3,2) _ w(4)] by blast
  with w(1) show ?thesis by auto
qed

theorem cache_write_then_read_witness:
  "\<exists>g1 g2 c. WriteResponseToCache (still_clock 0) sample_global (new_CacheProxy sample_versions new_HttpClientRequest)
       sample_response = Some g1 \<and>
     ReadResponseFromCache tree_cjson g1 (new_CacheProxy sample_versions new_HttpClientRequest) = Some (g2, Some c) \<and>
     rs_responseCode sample_response = RC_NOT_FOUND \<and> rs_responseCode c = RC_OK \<and> rs_result c = ''no such page''"
proof -
  have d: "disk_reach tree_cjson \<lparr>dh_fileName = ''f'', dh_content = None, dh_can_read = True, dh_can_write = True,
      dh_can_remove = True\<rparr> (cg_disk sample_global)"
    by (simp add: sample_global_def disk_start)
  have "IsCacheable_response (still_clock 0) (new_HttpCacheStrategy new_HttpClientRequest) sample_response"
    by (simp add: IsCacheable_response_def SetRespCode_def IsCacheable_iff CouldUseCache_def new_HttpCacheStrategy_def
        new_HttpClientRequest_def sample_response_def new_HttpClientResponse_def new_noStore always_cacheable_def
        Request_SetRequestTime_def new_HttpCacheRequest_def)
  moreover have "Encode ''no such page'' = ''bm8gc3VjaCBwYWdl''" "Encode [] = []"
    by code_simp+
  then have "map_bytes (cacheResponse sample_response) = 16"
    by (simp add: cacheResponse_eq sample_response_def new_HttpClientResponse_def)
  moreover have "lru_room (ld_cache (cg_disk sample_global)) = MAX_SIZE"
    by (simp add: sample_global_def LRUCacheDiskHandler_def LRUCache_default_def lru_room_def lru_stale_def lru_entries_def)
  ultimately show ?thesis
    using cache_write_then_read [OF d, of "still_clock 0" new_HttpClientRequest sample_response sample_versions]
    by (auto simp: sample_global_def valid_value_def MAX_SIZE_def sample_response_def)
qed

end
