(* ===== verification/Cache_Thread.thy ===== *)
theory Cache_Thread
  imports Cache_Proxy
begin

text \<open>
  The threads of the cache proxy (\<open>RunCacheWithSize\<close> and \<open>StopCacheAndDelete\<close> of
  \<open>cache_proxy/src/cache_proxy.cpp\<close>) as a transition system. A state holds the two atomic flags and
  the program points of every call of the two functions and of every worker thread; one step is one
  access to a flag, one acquisition or release of \<open>g_diskCacheMutex\<close>, or one operation on a condition
  variable, so that all interleavings are runs. The wait of the worker has a time limit and may end
  at any moment. The wait of \<open>StopCacheAndDelete\<close> has none: the call sleeps until it is notified.
\<close>

section \<open>Program points\<close>

datatype starter =
    RunTest      \<comment> \<open>\<open>if (g_cacheIsRunning.load())\<close>\<close>
  | RunStore     \<comment> \<open>\<open>g_cacheNeedRun.store(true)\<close>\<close>
  | RunSpawn     \<comment> \<open>\<open>std::thread(...).detach()\<close>\<close>
  | RunReturned

datatype worker =
    Spawned      \<comment> \<open>\<open>g_cacheIsRunning.store(true)\<close>\<close>
  | LoopTest     \<comment> \<open>\<open>while (g_cacheNeedRun.load())\<close>\<close>
  | Waiting      \<comment> \<open>\<open>g_cacheNeedRunCondition.wait_for\<close>\<close>
  | Writing      \<comment> \<open>\<open>DISK_LRU_CACHE.WriteCacheToJsonFile()\<close>\<close>
  | Stopping     \<comment> \<open>\<open>g_cacheIsRunning.store(false)\<close>\<close>
  | Notifying    \<comment> \<open>\<open>g_cacheThreadCondition.notify_all()\<close>\<close>
  | Finished

datatype stopper =
    StopTest     \<comment> \<open>\<open>if (!g_cacheIsRunning.load())\<close>\<close>
  | Clearing     \<comment> \<open>\<open>g_cacheNeedRun.store(false)\<close>\<close>
  | Locking      \<comment> \<open>notified the worker, about to lock \<open>g_diskCacheMutex\<close>\<close>
  | Checking     \<comment> \<open>holds the mutex, about to evaluate the predicate of the wait\<close>
  | Blocking     \<comment> \<open>holds the mutex, the predicate was false, about to sleep\<close>
  | Asleep
  | Woken        \<comment> \<open>notified, about to lock the mutex again\<close>
  | Deleting     \<comment> \<open>holds the mutex: \<open>DISK_LRU_CACHE.Delete()\<close>\<close>
  | StopReturned

record threads =
  th_needRun :: bool
  th_isRunning :: bool
  th_starters :: "starter list"
  th_workers :: "worker list"
  th_stoppers :: "stopper list"

definition threads_init :: threads where
  "threads_init = \<lparr>th_needRun = False, th_isRunning = False, th_starters = [], th_workers = [], th_stoppers = []\<rparr>"

definition mutex_free :: "threads \<Rightarrow> bool" where
  "mutex_free s \<longleftrightarrow> list_all (\<lambda>p. p \<notin> {Checking, Blocking, Deleting}) (th_stoppers s)"

definition wake_all :: "stopper list \<Rightarrow> stopper list" where
  "wake_all ps = map (\<lambda>p. if p = Asleep then Woken else p) ps"

section \<open>Steps\<close>

inductive thread_step :: "threads \<Rightarrow> threads \<Rightarrow> bool" where
  call_run: "thread_step s (s\<lparr>th_starters := th_starters s @ [RunTest]\<rparr>)"
| run_skip: "i < length (th_starters s) \<Longrightarrow> th_starters s ! i = RunTest \<Longrightarrow> th_isRunning s \<Longrightarrow>
    thread_step s (s\<lparr>th_starters := (th_starters s)[i := RunReturned]\<rparr>)"
| run_go: "i < length (th_starters s) \<Longrightarrow> th_starters s ! i = RunTest \<Longrightarrow> \<not> th_isRunning s \<Longrightarrow>
    thread_step s (s\<lparr>th_starters := (th_starters s)[i := RunStore]\<rparr>)"
| run_store: "i < length (th_starters s) \<Longrightarrow> th_starters s ! i = RunStore \<Longrightarrow>
    thread_step s (s\<lparr>th_needRun := True, th_starters := (th_starters s)[i := RunSpawn]\<rparr>)"
| run_spawn: "i < length (th_starters s) \<Longrightarrow> th_starters s ! i = RunSpawn \<Longrightarrow>
    thread_step s (s\<lparr>th_starters := (th_starters s)[i := RunReturned], th_workers := th_workers s @ [Spawned]\<rparr>)"
| worker_start: "i < length (th_workers s) \<Longrightarrow> th_workers s ! i = Spawned \<Longrightarrow>
    thread_step s (s\<lparr>th_isRunning := True, th_workers := (th_workers s)[i := LoopTest]\<rparr>)"
| worker_loop: "i < length (th_workers s) \<Longrightarrow> th_workers s ! i = LoopTest \<Longrightarrow> th_needRun s \<Longrightarrow>
    thread_step s (s\<lparr>th_workers := (th_workers s)[i := Waiting]\<rparr>)"
| worker_leave: "i < length (th_workers s) \<Longrightarrow> th_workers s ! i = LoopTest \<Longrightarrow> \<not> th_needRun s \<Longrightarrow>
    thread_step s (s\<lparr>th_workers := (th_workers s)[i := Stopping]\<rparr>)"
| worker_wake: "i < length (th_workers s) \<Longrightarrow> th_workers s ! i = Waiting \<Longrightarrow>
    thread_step s (s\<lparr>th_workers := (th_workers s)[i := Writing]\<rparr>)"
| worker_write: "i < length (th_workers s) \<Longrightarrow> th_workers s ! i = Writing \<Longrightarrow>
    thread_step s (s\<lparr>th_workers := (th_workers s)[i := LoopTest]\<rparr>)"
| worker_stop: "i < length (th_workers s) \<Longrightarrow> th_workers s ! i = Stopping \<Longrightarrow>
    thread_step s (s\<lparr>th_isRunning := False, th_workers := (th_workers s)[i := Notifying]\<rparr>)"
| worker_notify: "i < length (th_workers s) \<Longrightarrow> th_workers s ! i = Notifying \<Longrightarrow>
    thread_step s (s\<lparr>th_workers := (th_workers s)[i := Finished], th_stoppers := wake_all (th_stoppers s)\<rparr>)"
| call_stop: "thread_step s (s\<lparr>th_stoppers := th_stoppers s @ [StopTest]\<rparr>)"
| stop_skip: "i < length (th_stoppers s) \<Longrightarrow> th_stoppers s ! i = StopTest \<Longrightarrow> \<not> th_isRunning s \<Longrightarrow>
    thread_step s (s\<lparr>th_stoppers := (th_stoppers s)[i := StopReturned]\<rparr>)"
| stop_go: "i < length (th_stoppers s) \<Longrightarrow> th_stoppers s ! i = StopTest \<Longrightarrow> th_isRunning s \<Longrightarrow>
    thread_step s (s\<lparr>th_stoppers := (th_stoppers s)[i := Clearing]\<rparr>)"
| stop_clear: "i < length (th_stoppers s) \<Longrightarrow> th_stoppers s ! i = Clearing \<Longrightarrow>
    thread_step s (s\<lparr>th_needRun := False, th_stoppers := (th_stoppers s)[i := Locking]\<rparr>)"
| stop_lock: "i < length (th_stoppers s) \<Longrightarrow> th_stoppers s ! i \<in> {Locking, Woken} \<Longrightarrow> mutex_free s \<Longrightarrow>
    thread_step s (s\<lparr>th_stoppers := (th_stoppers s)[i := Checking]\<rparr>)"
| stop_true: "i < length (th_stoppers s) \<Longrightarrow> th_stoppers s ! i = Checking \<Longrightarrow> \<not> th_isRunning s \<Longrightarrow>
    thread_step s (s\<lparr>th_stoppers := (th_stoppers s)[i := Deleting]\<rparr>)"
| stop_false: "i < length (th_stoppers s) \<Longrightarrow> th_stoppers s ! i = Checking \<Longrightarrow> th_isRunning s \<Longrightarrow>
    thread_step s (s\<lparr>th_stoppers := (th_stoppers s)[i := Blocking]\<rparr>)"
| stop_block: "i < length (th_stoppers s) \<Longrightarrow> th_stoppers s ! i = Blocking \<Longrightarrow>
    thread_step s (s\<lparr>th_stoppers := (th_stoppers s)[i := Asleep]\<rparr>)"
| stop_delete: "i < length (th_stoppers s) \<Longrightarrow> th_stoppers s ! i = Deleting \<Longrightarrow>
    thread_step s (s\<lparr>th_stoppers := (th_stoppers s)[i := StopReturned]\<rparr>)"

inductive thread_reach :: "threads \<Rightarrow> threads \<Rightarrow> bool" for s0 where
  reach_start: "thread_reach s0 s0"
| reach_step: "thread_reach s0 s \<Longrightarrow> thread_step s t \<Longrightarrow> thread_reach s0 t"

inductive_cases thread_stepE: "thread_step s t"

section \<open>One call of \<open>RunCacheWithSize\<close>\<close>

text \<open>
  While at most one call was made there is at most one worker, and the flag says whether that worker
  is between its first and its last access to the cache.
\<close>

definition busy :: "worker list \<Rightarrow> bool" where
  "busy ws \<longleftrightarrow> (\<exists>w \<in> set ws. w \<in> {LoopTest, Waiting, Writing, Stopping})"

definition once_inv :: "threads \<Rightarrow> bool" where
  "once_inv s \<longleftrightarrow> length (th_starters s) \<le> 1 \<and> length (th_workers s) \<le> length (th_starters s) \<and>
     (th_workers s \<noteq> [] \<longrightarrow> set (th_starters s) \<subseteq> {RunReturned}) \<and>
     (th_isRunning s \<longleftrightarrow> busy (th_workers s)) \<and>
     ((\<exists>p \<in> set (th_stoppers s). p \<notin> {StopTest, StopReturned}) \<longrightarrow>
        (\<exists>w \<in> set (th_workers s). w \<noteq> Spawned)) \<and>
     (Deleting \<in> set (th_stoppers s) \<longrightarrow> set (th_workers s) \<subseteq> {Notifying, Finished})"

lemma starters_grow: "thread_step s t \<Longrightarrow> length (th_starters s) \<le> length (th_starters t)"
  by (cases rule: thread_step.cases) auto

lemma update_subset_other: "x \<in> set (xs[i := y]) \<Longrightarrow> x = y \<or> x \<in> set xs"
  by (metis in_set_conv_nth length_list_update nth_list_update_eq nth_list_update_neq)

lemma short_cases: "length xs \<le> 1 \<Longrightarrow> i < length xs \<Longrightarrow> \<exists>x. xs = [x] \<and> i = 0"
  by (cases xs) auto

lemma wake_all_set:
  "p \<in> set (wake_all ps) \<Longrightarrow> p \<in> set ps \<or> p = Woken \<and> Asleep \<in> set ps"
  by (auto simp: wake_all_def split: if_splits)

definition active :: "stopper list \<Rightarrow> bool" where
  "active ps \<longleftrightarrow> (\<exists>p \<in> set ps. p \<notin> {StopTest, StopReturned})"

lemma active_update:
  assumes "active (ps[i := q])" "i < length ps" "q \<in> {StopTest, StopReturned} \<or> ps ! i \<notin> {StopTest, StopReturned}"
  shows "active ps"
proof -
  obtain p where p: "p \<in> set (ps[i := q])" "p \<notin> {StopTest, StopReturned}"
    using assms(1) by (auto simp: active_def)
  show ?thesis
  proof (cases "p = q")
    case True
    then show ?thesis using p(2) assms(2,3) by (auto simp: active_def)
  next
    case False
    then show ?thesis using p update_subset_other by (fastforce simp: active_def)
  qed
qed

lemma once_inv_alt:
  "once_inv s \<longleftrightarrow> length (th_starters s) \<le> 1 \<and> length (th_workers s) \<le> length (th_starters s) \<and>
     (th_workers s \<noteq> [] \<longrightarrow> set (th_starters s) \<subseteq> {RunReturned}) \<and>
     (th_isRunning s \<longleftrightarrow> busy (th_workers s)) \<and>
     (active (th_stoppers s) \<longrightarrow> (\<exists>w \<in> set (th_workers s). w \<noteq> Spawned)) \<and>
     (Deleting \<in> set (th_stoppers s) \<longrightarrow> set (th_workers s) \<subseteq> {Notifying, Finished})"
  by (simp add: once_inv_def active_def)

text \<open>A step of a stopper that leaves the flags of the worker alone.\<close>

lemma once_inv_stopper:
  assumes "once_inv s" "i < length (th_stoppers s)"
    and "q \<in> {StopTest, StopReturned} \<or> th_stoppers s ! i \<notin> {StopTest, StopReturned} \<or> th_isRunning s"
    and "q = Deleting \<longrightarrow> \<not> th_isRunning s \<and> th_stoppers s ! i = Checking"
  shows "once_inv (s\<lparr>th_needRun := b, th_stoppers := (th_stoppers s)[i := q]\<rparr>)"
proof -
  let ?ps = "th_stoppers s"
  have run: "\<exists>w \<in> set (th_workers s). w \<noteq> Spawned" if "th_isRunning s"
    using assms(1) that by (auto simp: once_inv_def busy_def)
  have a: "\<exists>w \<in> set (th_workers s). w \<noteq> Spawned" if "active (?ps[i := q])"
    using assms(1-3) that run active_update by (auto simp: once_inv_alt)
  have "set (th_workers s) \<subseteq> {Notifying, Finished}" if "Deleting \<in> set (?ps[i := q])"
  proof (cases "q = Deleting")
    case True
    then have "Checking \<in> set ?ps"
      using assms(2,4) nth_mem by metis
    then have "active ?ps"
      by (auto simp: active_def)
    moreover have p: "\<not> busy (th_workers s)"
      using True assms(1,4) by (simp add: once_inv_def)
    ultimately have "\<exists>w \<in> set (th_workers s). w \<noteq> Spawned" "length (th_workers s) \<le> 1"
      using assms(1) by (auto simp: once_inv_alt)
    then obtain w where "th_workers s = [w]" "w \<noteq> Spawned"
      by (cases "th_workers s") auto
    then show ?thesis
      using p by (cases w) (auto simp: busy_def)
  next
    case False
    then show ?thesis
      using assms(1) that update_subset_other by (fastforce simp: once_inv_def)
  qed
  with a show ?thesis
    using assms(1) by (simp add: once_inv_alt)
qed

text \<open>A step of the only worker.\<close>

lemma once_inv_worker:
  assumes "once_inv s" "i < length (th_workers s)" "th_workers s ! i = w" "w \<noteq> Finished"
    and "w' \<noteq> Spawned" and "r \<longleftrightarrow> w' \<in> {LoopTest, Waiting, Writing, Stopping}"
    and "w = Notifying \<longrightarrow> w' \<in> {Notifying, Finished}" and "ps = th_stoppers s \<or> ps = wake_all (th_stoppers s)"
  shows "once_inv (s\<lparr>th_isRunning := r, th_workers := (th_workers s)[i := w'], th_stoppers := ps\<rparr>)"
proof -
  have "length (th_workers s) \<le> 1"
    using assms(1) by (auto simp: once_inv_def)
  then have w: "th_workers s = [w]" "i = 0"
    using assms(2,3) short_cases by fastforce+
  have "Deleting \<in> set (th_stoppers s)" if "Deleting \<in> set ps"
    using assms(8) that wake_all_set by blast
  then have "w' \<in> {Notifying, Finished}" if "Deleting \<in> set ps"
    using that assms(1,4,7) w by (auto simp: once_inv_def)
  then show ?thesis
    using assms(1,5,6) w by (auto simp: once_inv_def busy_def)
qed

lemma once_inv_worker_same:
  assumes "once_inv s" "i < length (th_workers s)" "th_workers s ! i = w" "w \<noteq> Finished"
    and "w' \<noteq> Spawned" and "th_isRunning s \<longleftrightarrow> w' \<in> {LoopTest, Waiting, Writing, Stopping}"
    and "w = Notifying \<longrightarrow> w' \<in> {Notifying, Finished}" and "ps = th_stoppers s \<or> ps = wake_all (th_stoppers s)"
  shows "once_inv (s\<lparr>th_workers := (th_workers s)[i := w'], th_stoppers := ps\<rparr>)"
proof -
  have "s\<lparr>th_isRunning := th_isRunning s\<rparr> = s" by simp
  then show ?thesis
    using once_inv_worker [OF assms] by simp
qed

lemma once_inv_starter:
  assumes "once_inv s" "i < length (th_starters s)" "th_starters s ! i \<noteq> RunReturned"
  shows "once_inv (s\<lparr>th_needRun := b, th_starters := (th_starters s)[i := x]\<rparr>)"
    and "x = RunReturned \<Longrightarrow>
      once_inv (s\<lparr>th_starters := (th_starters s)[i := x], th_workers := th_workers s @ [Spawned]\<rparr>)"
proof -
  obtain y where "th_starters s = [y]" "i = 0"
    using assms(1,2) short_cases [of "th_starters s" i] by (auto simp: once_inv_def)
  moreover have "th_workers s \<noteq> [] \<Longrightarrow> set (th_starters s) \<subseteq> {RunReturned}"
    using assms(1) by (simp add: once_inv_def)
  then have "th_workers s = []"
    using assms(2,3) nth_mem by blast
  ultimately show "once_inv (s\<lparr>th_needRun := b, th_starters := (th_starters s)[i := x]\<rparr>)"
    and "x = RunReturned \<Longrightarrow>
      once_inv (s\<lparr>th_starters := (th_starters s)[i := x], th_workers := th_workers s @ [Spawned]\<rparr>)"
    using assms(1) by (auto simp: once_inv_def busy_def)
qed

lemma busy_running: "once_inv s \<Longrightarrow> i < length (th_workers s) \<Longrightarrow>
    th_workers s ! i \<in> {LoopTest, Waiting, Writing, Stopping} \<Longrightarrow> th_isRunning s"
  unfolding once_inv_def busy_def using nth_mem by blast

lemma once_inv_step:
  assumes "thread_step s t" "once_inv s" "length (th_starters t) \<le> 1"
  shows "once_inv t"
  using assms(1)
proof (cases rule: thread_step.cases)
  case call_run
  then show ?thesis using assms(2,3) by (auto simp: once_inv_def)
next
  case call_stop
  then show ?thesis using assms(2) by (auto simp: once_inv_def)
next
  case (run_skip i)
  then show ?thesis using once_inv_starter(1) [OF assms(2), where i = i and b = "th_needRun s"] by simp
next
  case (run_go i)
  then show ?thesis using once_inv_starter(1) [OF assms(2), where i = i and b = "th_needRun s"] by simp
next
  case (run_store i)
  then show ?thesis using once_inv_starter(1) [OF assms(2), where i = i and b = True] by simp
next
  case (run_spawn i)
  then show ?thesis using once_inv_starter(2) [OF assms(2), of i RunReturned] by simp
next
  case (worker_start i)
  then show ?thesis using once_inv_worker [OF assms(2), of i Spawned LoopTest True "th_stoppers s"] by simp
next
  case (worker_loop i)
  moreover from this have "th_isRunning s"
    using busy_running [OF assms(2)] by auto
  ultimately show ?thesis using once_inv_worker_same [OF assms(2), of i LoopTest Waiting "th_stoppers s"] by simp
next
  case (worker_leave i)
  moreover from this have "th_isRunning s"
    using busy_running [OF assms(2)] by auto
  ultimately show ?thesis using once_inv_worker_same [OF assms(2), of i LoopTest Stopping "th_stoppers s"] by simp
next
  case (worker_wake i)
  moreover from this have "th_isRunning s"
    using busy_running [OF assms(2)] by auto
  ultimately show ?thesis using once_inv_worker_same [OF assms(2), of i Waiting Writing "th_stoppers s"] by simp
next
  case (worker_write i)
  moreover from this have "th_isRunning s"
    using busy_running [OF assms(2)] by auto
  ultimately show ?thesis using once_inv_worker_same [OF assms(2), of i Writing LoopTest "th_stoppers s"] by simp
next
  case (worker_stop i)
  then show ?thesis using once_inv_worker [OF assms(2), of i Stopping Notifying False "th_stoppers s"] by simp
next
  case (worker_notify i)
  have "length (th_workers s) \<le> 1"
    using assms(2) by (auto simp: once_inv_def)
  then have "th_workers s = [Notifying]"
    using short_cases worker_notify by fastforce
  then have "\<not> th_isRunning s"
    using assms(2) by (auto simp: once_inv_def busy_def)
  then show ?thesis
    using worker_notify once_inv_worker_same [OF assms(2), of i Notifying Finished "wake_all (th_stoppers s)"] by simp
next
  case (stop_clear i)
  then show ?thesis using once_inv_stopper [OF assms(2), of i Locking False] by simp
next
  case (stop_skip i)
  then show ?thesis using once_inv_stopper [OF assms(2), of i StopReturned "th_needRun s"] by simp
next
  case (stop_go i)
  then show ?thesis using once_inv_stopper [OF assms(2), of i Clearing "th_needRun s"] by simp
next
  case (stop_lock i)
  then show ?thesis using once_inv_stopper [OF assms(2), of i Checking "th_needRun s"] by auto
next
  case (stop_true i)
  then show ?thesis using once_inv_stopper [OF assms(2), of i Deleting "th_needRun s"] by simp
next
  case (stop_false i)
  then show ?thesis using once_inv_stopper [OF assms(2), of i Blocking "th_needRun s"] by simp
next
  case (stop_block i)
  then show ?thesis using once_inv_stopper [OF assms(2), of i Asleep "th_needRun s"] by simp
next
  case (stop_delete i)
  then show ?thesis using once_inv_stopper [OF assms(2), of i StopReturned "th_needRun s"] by simp
qed

lemma once_inv_reach: "thread_reach threads_init s \<Longrightarrow> length (th_starters s) \<le> 1 \<Longrightarrow> once_inv s"
proof (induction rule: thread_reach.induct)
  case reach_start
  then show ?case by (simp add: threads_init_def once_inv_def busy_def)
next
  case (reach_step s t)
  then show ?case
    using starters_grow [OF reach_step.hyps(2)] once_inv_step by fastforce
qed

section \<open>Runs\<close>

lemma reach_trans: "thread_reach s0 s \<Longrightarrow> thread_reach s t \<Longrightarrow> thread_reach s0 t"
  by (rotate_tac, induction rule: thread_reach.induct) (auto intro: thread_reach.intros)

text \<open>The part every run below starts with: one call, its worker in the loop, waiting.\<close>

definition started :: threads where
  "started = \<lparr>th_needRun = True, th_isRunning = True, th_starters = [RunReturned], th_workers = [Waiting], th_stoppers = []\<rparr>"

lemma reach_started: "thread_reach threads_init started"
proof -
  have "thread_reach threads_init threads_init"
    by (rule reach_start)
  note r = reach_step [OF this call_run, simplified threads_init_def, simplified]
  note r = reach_step [OF r run_go [of 0], simplified]
  note r = reach_step [OF r run_store [of 0], simplified]
  note r = reach_step [OF r run_spawn [of 0], simplified]
  note r = reach_step [OF r worker_start [of 0], simplified]
  note r = reach_step [OF r worker_loop [of 0], simplified]
  show ?thesis
    using r by (simp add: started_def threads_init_def)
qed

text \<open>The wake-up that is lost: the worker ends between the check of the predicate and the sleep.\<close>

definition stuck :: threads where
  "stuck = \<lparr>th_needRun = False, th_isRunning = False, th_starters = [RunReturned], th_workers = [Finished],
     th_stoppers = [Asleep]\<rparr>"

lemma reach_stuck: "thread_reach threads_init stuck"
proof -
  note r = reach_step [OF reach_started call_stop, simplified started_def, simplified]
  note r = reach_step [OF r stop_go [of 0], simplified]
  note r = reach_step [OF r stop_clear [of 0], simplified]
  note r = reach_step [OF r stop_lock [of 0], simplified mutex_free_def, simplified]
  note r = reach_step [OF r stop_false [of 0], simplified]
  note r = reach_step [OF r worker_wake [of 0], simplified]
  note r = reach_step [OF r worker_write [of 0], simplified]
  note r = reach_step [OF r worker_leave [of 0], simplified]
  note r = reach_step [OF r worker_stop [of 0], simplified]
  note r = reach_step [OF r worker_notify [of 0], simplified wake_all_def, simplified]
  note r = reach_step [OF r stop_block [of 0], simplified]
  show ?thesis
    using r by (simp add: stuck_def)
qed

text \<open>The state of a sleeper that nobody will wake, kept by every step except a new start.\<close>

definition abandoned :: "nat \<Rightarrow> threads \<Rightarrow> bool" where
  "abandoned i s \<longleftrightarrow> set (th_workers s) \<subseteq> {Finished} \<and> set (th_starters s) \<subseteq> {RunReturned} \<and>
     \<not> th_isRunning s \<and> i < length (th_stoppers s) \<and> th_stoppers s ! i = Asleep"

lemma abandoned_step:
  assumes "thread_step s t" "abandoned i s" "length (th_starters t) = length (th_starters s)"
  shows "abandoned i t"
proof -
  have w: "th_workers s ! j = Finished" if "j < length (th_workers s)" for j
    using assms(2) that nth_mem by (auto simp: abandoned_def)
  have r: "th_starters s ! j = RunReturned" if "j < length (th_starters s)" for j
    using assms(2) that nth_mem by (auto simp: abandoned_def)
  show ?thesis
    using assms(1)
    by (cases rule: thread_step.cases)
      (use assms(2,3) w r in \<open>auto simp: abandoned_def nth_append nth_list_update\<close>)
qed

inductive quiet_reach :: "threads \<Rightarrow> threads \<Rightarrow> bool" for s0 where
  quiet_start: "quiet_reach s0 s0"
| quiet_step: "quiet_reach s0 s \<Longrightarrow> thread_step s t \<Longrightarrow> length (th_starters t) = length (th_starters s) \<Longrightarrow>
    quiet_reach s0 t"

text \<open>Two calls that both pass the test: two workers, one of which deletes under the other.\<close>

definition raced :: threads where
  "raced = \<lparr>th_needRun = False, th_isRunning = False, th_starters = [RunReturned, RunReturned],
     th_workers = [Finished, Writing], th_stoppers = [Deleting]\<rparr>"

lemma reach_raced: "thread_reach threads_init raced"
proof -
  have "thread_reach threads_init threads_init"
    by (rule reach_start)
  note r = reach_step [OF this call_run, simplified threads_init_def, simplified]
  note r = reach_step [OF r call_run, simplified]
  note r = reach_step [OF r run_go [of 0], simplified]
  note r = reach_step [OF r run_go [of 1], simplified]
  note r = reach_step [OF r run_store [of 0], simplified]
  note r = reach_step [OF r run_store [of 1], simplified]
  note r = reach_step [OF r run_spawn [of 0], simplified]
  note r = reach_step [OF r run_spawn [of 1], simplified]
  note r = reach_step [OF r worker_start [of 0], simplified]
  note r = reach_step [OF r worker_start [of 1], simplified]
  note r = reach_step [OF r worker_loop [of 1], simplified]
  note r = reach_step [OF r worker_wake [of 1], simplified]
  note r = reach_step [OF r call_stop, simplified]
  note r = reach_step [OF r stop_go [of 0], simplified]
  note r = reach_step [OF r stop_clear [of 0], simplified]
  note r = reach_step [OF r worker_leave [of 0], simplified]
  note r = reach_step [OF r worker_stop [of 0], simplified]
  note r = reach_step [OF r worker_notify [of 0], simplified wake_all_def, simplified]
  note r = reach_step [OF r stop_lock [of 0], simplified mutex_free_def, simplified]
  note r = reach_step [OF r stop_true [of 0], simplified]
  show ?thesis
    using r by (simp add: raced_def threads_init_def)
qed

section \<open>Properties\<close>

text \<open>
  C8. If \<open>RunCacheWithSize\<close> was called at most once, then in every interleaving there is at most one
  worker, the flag \<open>g_cacheIsRunning\<close> tells whether it is at work, and the cache file is deleted only
  after the worker wrote it for the last time.
\<close>

theorem delete_after_last_write:
  assumes "thread_reach threads_init s" and "length (th_starters s) \<le> 1"
  shows "length (th_workers s) \<le> 1 \<and>
    (th_isRunning s \<longleftrightarrow> (\<exists>w \<in> set (th_workers s). w \<in> {LoopTest, Waiting, Writing, Stopping})) \<and>
    (Deleting \<in> set (th_stoppers s) \<longrightarrow> set (th_workers s) \<subseteq> {Notifying, Finished})"
  using once_inv_reach [OF assms] by (auto simp: once_inv_def busy_def)

theorem delete_after_last_write_witness:
  "length (th_starters stuck) \<le> 1 \<and> length (th_workers stuck) \<le> 1"
proof -
  have "length (th_starters stuck) \<le> 1"
    by (simp add: stuck_def)
  with delete_after_last_write [OF reach_stuck] show ?thesis by simp
qed

text \<open>
  The flag is set by the thread and not by the call that starts it, so two overlapping calls of
  \<open>RunCacheWithSize\<close> start two workers; then \<open>StopCacheAndDelete\<close> can delete the cache file while a
  worker is writing it.
\<close>

lemma two_starts_race:
  "\<exists>s. thread_reach threads_init s \<and> length (th_starters s) = 2 \<and> length (th_workers s) = 2 \<and>
     Deleting \<in> set (th_stoppers s) \<and> Writing \<in> set (th_workers s)"
  by (rule exI [of _ raced]) (simp add: reach_raced, simp add: raced_def)

text \<open>
  C26. The worker clears the flag and notifies without holding \<open>g_diskCacheMutex\<close>, so the notification
  can fall between the evaluation of the predicate and the sleep in \<open>StopCacheAndDelete\<close>. There is a run
  with one start and one stop after which the condition the stopper waits for holds, yet, unless the
  cache is started again, no continuation ever lets it return.
\<close>

theorem stop_lost_wakeup:
  "\<exists>s. thread_reach threads_init s \<and> \<not> th_isRunning s \<and> th_stoppers s = [Asleep] \<and>
     (\<forall>t. quiet_reach s t \<longrightarrow> th_stoppers t ! 0 = Asleep)"
proof (intro exI conjI allI impI)
  show "thread_reach threads_init stuck"
    by (rule reach_stuck)
  show "\<not> th_isRunning stuck" "th_stoppers stuck = [Asleep]"
    by (simp_all add: stuck_def)
  fix t
  assume "quiet_reach stuck t"
  then have "abandoned 0 t"
    by (induction rule: quiet_reach.induct) (simp_all add: abandoned_step, simp add: abandoned_def stuck_def)
  then show "th_stoppers t ! 0 = Asleep"
    by (simp add: abandoned_def)
qed

text \<open>Such a continuation exists, and the run can be continued for ever with calls that return at once.\<close>

theorem stop_lost_wakeup_witness:
  "quiet_reach stuck (stuck\<lparr>th_stoppers := [Asleep, StopTest]\<rparr>) \<and>
   (\<exists>s. thread_reach threads_init s \<and> \<not> th_isRunning s \<and> th_stoppers s = [Asleep])"
proof -
  have "thread_step stuck (stuck\<lparr>th_stoppers := [Asleep, StopTest]\<rparr>)"
    using call_stop [of stuck] by (simp add: stuck_def)
  then show ?thesis
    using quiet_step [OF quiet_start] stop_lost_wakeup by (auto simp: stuck_def)
qed

end
