(* ===== verification/Http_Task.thy ===== *)
theory Http_Task
  imports Cache_Proxy Http_Tls_Config
begin

text \<open>
  The state of one transfer of the HTTP client and its preparation
  (\<open>frameworks/native/http/http_client/http_client_task.cpp\<close>, up to \<open>SetCurlOptions\<close>).

  curl is a parameter. A handle is the sequence of the options that were set on it; whether
  \<open>curl_easy_setopt\<close> accepts an option, the numbers of curl's constants, the files, the network
  security configuration, the default proxy of the device and the parsed JSON text are fields of
  \<open>curl_env\<close>, as are the switches of the build. A callback or object handed to curl is \<open>OPtr\<close>.
\<close>

unbundle bit_operations_syntax

section \<open>The environment\<close>

datatype curlopt =
    CURLOPT_HTTPHEADER | CURLOPT_NOBODY | CURLOPT_URL | CURLOPT_CUSTOMREQUEST | CURLOPT_POST | CURLOPT_POSTFIELDS
  | CURLOPT_POSTFIELDSIZE | CURLOPT_READDATA | CURLOPT_INFILESIZE | CURLOPT_UPLOAD
  | CURLOPT_RESOLVER_START_DATA | CURLOPT_RESOLVER_START_FUNCTION | CURLOPT_SOCKOPTDATA | CURLOPT_SOCKOPTFUNCTION
  | CURLOPT_SSL_CTX_DATA | CURLOPT_SSL_CTX_FUNCTION | CURLOPT_PREREQDATA | CURLOPT_PREREQFUNCTION
  | CURLOPT_XFERINFOFUNCTION | CURLOPT_XFERINFODATA | CURLOPT_NOPROGRESS | CURLOPT_WRITEFUNCTION | CURLOPT_WRITEDATA
  | CURLOPT_HEADERFUNCTION | CURLOPT_HEADERDATA | CURLOPT_FOLLOWLOCATION | CURLOPT_COOKIEFILE | CURLOPT_NOSIGNAL
  | CURLOPT_HTTP_VERSION | CURLOPT_TIMEOUT_MS | CURLOPT_CONNECTTIMEOUT_MS | CURLOPT_RANGE | CURLOPT_USERAGENT
  | CURLOPT_DOH_URL | CURLOPT_PINNEDPUBLICKEY | CURLOPT_DNS_SERVERS | CURLOPT_CAINFO | CURLOPT_SSL_VERIFYPEER
  | CURLOPT_SSL_VERIFYHOST | CURLOPT_SSLCERT | CURLOPT_SSLKEY | CURLOPT_SSLCERTTYPE | CURLOPT_KEYPASSWD
  | CURLOPT_MIMEPOST | CURLOPT_DNS_CACHE_TIMEOUT | CURLOPT_IPRESOLVE | CURLOPT_PROXY | CURLOPT_PROXYPORT
  | CURLOPT_HTTPPROXYTUNNEL | CURLOPT_PROXYTYPE | CURLOPT_SSLVERSION | CURLOPT_SSL_CIPHER_LIST | CURLOPT_TLS13_CIPHERS
  | CURLOPT_ACCEPT_ENCODING | CURLOPT_SSLENCCERT | CURLOPT_SSLENCKEY | CURLOPT_HTTPAUTH | CURLOPT_USERNAME
  | CURLOPT_PASSWORD | CURLOPT_VERBOSE

datatype optval = OLong int | OStr string | OList "string list" | ONull | OPtr

text \<open>A parsed cJSON item; a number is the text \<open>operator<<\<close> prints for it.\<close>

datatype cJSON =
    cJSON_Object "(string \<times> cJSON) list"
  | cJSON_Array "cJSON list"
  | cJSON_String string
  | cJSON_Number string
  | cJSON_True
  | cJSON_False
  | cJSON_NULL

record curl_consts = curl_versions +
  CURL_SSLVERSION_DEFAULT :: "64 word"
  CURL_SSLVERSION_TLSv1_0 :: "64 word"
  CURL_SSLVERSION_TLSv1_1 :: "64 word"
  CURL_SSLVERSION_TLSv1_2 :: "64 word"
  CURL_SSLVERSION_TLSv1_3 :: "64 word"
  CURL_SSLVERSION_MAX_TLSv1_0 :: "64 word"
  CURL_SSLVERSION_MAX_TLSv1_1 :: "64 word"
  CURL_SSLVERSION_MAX_TLSv1_2 :: "64 word"
  CURL_SSLVERSION_MAX_TLSv1_3 :: "64 word"
  CURL_SSLVERSION_TLCPv1_1 :: int
  CURL_IPRESOLVE_V4 :: int
  CURL_IPRESOLVE_V6 :: int
  CURLAUTH_ANY :: int
  CURLAUTH_BASIC :: int
  CURLAUTH_NTLM :: int
  CURLAUTH_DIGEST :: int
  CURLPROXY_HTTP :: int
  CURLPROXY_HTTPS :: int

record build_config =
  HTTP_MULTIPATH_CERT_ENABLE :: bool
  WINDOWS_PLATFORM :: bool
  HAS_NETMANAGER_BASE :: bool
  HTTP_CURL_PRINT_VERBOSE :: bool

datatype mime_call = mime_name string | mime_type string | mime_filename string | mime_data string | mime_filedata string

record curl_env =
  cu_build :: build_config
  cu_const :: curl_consts
  cu_setopt :: "curlopt \<Rightarrow> optval \<Rightarrow> CURLcode"
  cu_mime_init :: bool
  cu_mime :: "mime_call \<Rightarrow> CURLcode"
  cu_openssl :: bool
  cu_default_proxy :: "string \<times> int \<times> string list"
  cu_pin_open :: "string \<Rightarrow> bool"
  cu_pin_set :: "string \<Rightarrow> int \<times> string"
  cu_trust_anchors :: "string \<Rightarrow> string list"
  cu_trust_user0 :: bool
  cu_trust_userca :: bool
  cu_uid :: nat
  cu_access :: "string \<Rightarrow> bool"
  cu_ipv6 :: bool
  cu_ipv4 :: bool
  cu_realpath :: "string \<Rightarrow> string option"
  cu_fopen :: "string \<Rightarrow> int option"
  cu_read_file :: "string \<Rightarrow> string option"
  cu_parse :: "string \<Rightarrow> cJSON option"

section \<open>The task\<close>

datatype TaskStatus = IDLE | RUNNING
datatype TaskType = TASK_DEFAULT | TASK_UPLOAD

text \<open>A callback field says whether a function is registered.\<close>

record HttpClientTask =
  ta_taskId :: u32
  ta_request :: HttpClientRequest
  ta_response :: HttpClientResponse
  ta_error :: HttpClientError
  ta_type :: TaskType
  ta_status :: TaskStatus
  ta_canceled :: bool
  ta_filePath :: string
  ta_isHeaderOnce :: bool
  ta_isHeadersOnce :: bool
  ta_isRequestInStream :: bool
  ta_onSucceeded :: bool
  ta_onCanceled :: bool
  ta_onFailed :: bool
  ta_onDataReceive :: bool
  ta_onProgress :: bool
  ta_onHeadersReceive :: bool
  ta_onHeaderReceive :: bool
  ta_options :: "(curlopt \<times> optval) list"

definition HTTP_CONTENT_TYPE :: string where "HTTP_CONTENT_TYPE = ''content-type''"
definition HTTP_CONTENT_TYPE_URL_ENCODE :: string where "HTTP_CONTENT_TYPE_URL_ENCODE = ''application/x-www-form-urlencoded''"
definition HTTP_CONTENT_TYPE_OCTET_STREAM :: string where "HTTP_CONTENT_TYPE_OCTET_STREAM = ''application/octet-stream''"
definition HTTP_CONTENT_TYPE_IMAGE :: string where "HTTP_CONTENT_TYPE_IMAGE = ''image''"
definition HTTP_CONTENT_TYPE_MULTIPART :: string where "HTTP_CONTENT_TYPE_MULTIPART = ''multipart/form-data''"
definition HTTP_HEADER_BLANK_SEPARATOR :: string where "HTTP_HEADER_BLANK_SEPARATOR = '';''"
definition HTTP_RESPONSE_HEADER_SEPARATOR :: string where
  "HTTP_RESPONSE_HEADER_SEPARATOR = [CHR 0x0D, CHR 0x0A, CHR 0x0D, CHR 0x0A]"
definition HTTP_DEFAULT_USER_AGENT :: string where "HTTP_DEFAULT_USER_AGENT = ''libcurl-agent/1.0''"
definition HTTP_URL_PARAM_START :: string where "HTTP_URL_PARAM_START = ''?''"
definition HTTP_URL_PARAM_SEPARATOR :: string where "HTTP_URL_PARAM_SEPARATOR = ''&''"
definition HTTP_URL_NAME_VALUE_SEPARATOR :: string where "HTTP_URL_NAME_VALUE_SEPARATOR = ''=''"
definition HTTP_PREPARE_CA_PATH :: string where "HTTP_PREPARE_CA_PATH = ''/etc/security/certificates''"
definition USER_CERT_BASE_PATH :: string where "USER_CERT_BASE_PATH = ''/data/certificates/user_cacerts/''"
definition USER_CERT_ROOT_PATH :: string where "USER_CERT_ROOT_PATH = ''/data/certificates/user_cacerts/0/''"
definition UID_TRANSFORM_DIVISOR :: nat where "UID_TRANSFORM_DIVISOR = 200000"
definition HTTP_AF_ONLYV4 :: string where "HTTP_AF_ONLYV4 = ''ONLY_V4''"
definition HTTP_AF_ONLYV6 :: string where "HTTP_AF_ONLYV6 = ''ONLY_V6''"
definition TLS12_SECURITY_CIPHER_SUITE :: string where "TLS12_SECURITY_CIPHER_SUITE = ''DEFAULT:!eNULL:!EXPORT''"

text \<open>\<open>NETSTACK_CURL_EASY_SET_OPTION\<close>, one after the other: the first failure is recorded and ends the function.\<close>

fun set_options :: "curl_env \<Rightarrow> (curlopt \<times> optval) list \<Rightarrow> HttpClientTask \<Rightarrow> bool \<times> HttpClientTask" where
  "set_options env [] t = (True, t)"
| "set_options env (p # ps) t =
     (let result = cu_setopt env (fst p) (snd p)
      in if result \<noteq> CURLE_OK then (False, t\<lparr>ta_error := SetCURLResult (ta_error t) result\<rparr>)
         else set_options env ps (t\<lparr>ta_options := ta_options t @ [p]\<rparr>))"

text \<open>Calling \<open>f\<close> after a step unless the step returned false.\<close>

definition unless_false :: "bool \<times> HttpClientTask \<Rightarrow> (HttpClientTask \<Rightarrow> bool \<times> HttpClientTask) \<Rightarrow> bool \<times> HttpClientTask" where
  "unless_false p f = (if fst p then f (snd p) else p)"

definition fail_with :: "HttpErrorCode \<Rightarrow> HttpClientTask \<Rightarrow> bool \<times> HttpClientTask" where
  "fail_with code t = (False, t\<lparr>ta_error := SetErrorCode (ta_error t) code\<rparr>)"

definition Task_GetHttpVersion :: "curl_env \<Rightarrow> HttpProtocol \<Rightarrow> u32" where
  "Task_GetHttpVersion env ptcl =
     (if ptcl = HTTP1_1 then CURL_HTTP_VERSION_1_1 (cu_const env)
      else if ptcl = HTTP2 then CURL_HTTP_VERSION_2_0 (cu_const env)
      else if ptcl = HTTP3 then CURL_HTTP_VERSION_3 (cu_const env)
      else CURL_HTTP_VERSION_NONE (cu_const env))"

definition GetHttpProxyInfo :: "curl_env \<Rightarrow> HttpClientTask \<Rightarrow> string \<times> int \<times> string \<times> bool" where
  "GetHttpProxyInfo env t =
     (if rq_proxyType (ta_request t) = USE_SPECIFIED
      then let proxy = rq_proxy (ta_request t) in (px_host proxy, px_port proxy, px_exclusions proxy, px_tunnel proxy)
      else case cu_default_proxy env of (host, port, exclusions) \<Rightarrow> (host, port, ToString exclusions (CHR '',''), False))"

definition TrustUser0AndUserCa :: "curl_env \<Rightarrow> string list \<Rightarrow> string list" where
  "TrustUser0AndUserCa env certs =
     certs @ (if cu_trust_user0 env then [USER_CERT_ROOT_PATH] else []) @
     (if cu_trust_userca env then [USER_CERT_BASE_PATH @ to_string_nat (cu_uid env div UID_TRANSFORM_DIVISOR)] else [])"

text \<open>
  The result for curl, the directories and the file from which certificates are loaded, and the task;
  failures of loading are only logged. \<open>sslCtx\<close> says that the pointer is not null.
\<close>

definition SslCtxFunction ::
  "curl_env \<Rightarrow> bool \<Rightarrow> HttpClientTask \<Rightarrow> CURLcode \<times> (string list \<times> string list) \<times> HttpClientTask" where
  "SslCtxFunction env sslCtx t =
     (if \<not> HTTP_MULTIPATH_CERT_ENABLE (cu_build env) then (CURLE_OK, ([], []), t)
      else if \<not> sslCtx then (CURLE_SSL_CERTPROBLEM, ([], []), t)
      else let r = ta_request t;
               certs = cu_trust_anchors env (GetHostnameFromURL (rq_url r));
               r1 = (if \<not> rq_canSkipCertVerify r
                     then SetCertsPath r (TrustUser0AndUserCa env certs @ [HTTP_PREPARE_CA_PATH]) (rq_caPath r)
                     else r);
               certsPath = rq_certsPath r1
           in (CURLE_OK,
               (filter (\<lambda>path. path \<noteq> [] \<and> cu_access env path) (cp_certPathList certsPath),
                filter (cu_access env) [cp_certFile certsPath]),
               t\<lparr>ta_request := r1\<rparr>))"

section \<open>TLS and certificates\<close>

definition SetServerSSLCertOption :: "curl_env \<Rightarrow> HttpClientTask \<Rightarrow> bool \<times> HttpClientTask" where
  "SetServerSSLCertOption env t =
     (let hostname = GetHostnameFromURL (rq_url (ta_request t))
      in if \<not> cu_pin_open env hostname
         then let (ret, pins) = cu_pin_set env hostname
              in if ret \<noteq> 0 \<or> pins = [] then (True, t)
                 else set_options env [(CURLOPT_PINNEDPUBLICKEY, OStr (c_str pins))] t
         else (True, t))"

definition verify_options :: "curl_env \<Rightarrow> HttpClientTask \<Rightarrow> (curlopt \<times> optval) list" where
  "verify_options env t =
     (if \<not> WINDOWS_PLATFORM (cu_build env)
      then if HTTP_MULTIPATH_CERT_ENABLE (cu_build env)
           then [(CURLOPT_SSL_CTX_FUNCTION, OPtr), (CURLOPT_SSL_CTX_DATA, OPtr), (CURLOPT_CAINFO, ONull)] @
             (if rq_canSkipCertVerify (ta_request t)
              then [(CURLOPT_SSL_VERIFYPEER, OLong 0), (CURLOPT_SSL_VERIFYHOST, OLong 0)]
              else [(CURLOPT_SSL_VERIFYPEER, OLong 1), (CURLOPT_SSL_VERIFYHOST, OLong 2)])
           else [(CURLOPT_CAINFO, ONull), (CURLOPT_SSL_VERIFYPEER, OLong 0), (CURLOPT_SSL_VERIFYHOST, OLong 0)]
      else [(CURLOPT_SSL_VERIFYPEER, OLong 0), (CURLOPT_SSL_VERIFYHOST, OLong 0)])"

definition SetSSLCertOption :: "curl_env \<Rightarrow> HttpClientTask \<Rightarrow> bool \<times> HttpClientTask" where
  "SetSSLCertOption env t =
     unless_false (set_options env (verify_options env t) t) (\<lambda>t.
       let t = snd (SetServerSSLCertOption env t);
           clientCert = rq_clientCert (ta_request t)
       in if cc_certPath clientCert = [] then (False, t)
          else set_options env
            ([(CURLOPT_SSLCERT, OStr (c_str (cc_certPath clientCert)))] @
             (if cc_keyPath clientCert \<noteq> [] then [(CURLOPT_SSLKEY, OStr (c_str (cc_keyPath clientCert)))] else []) @
             (if cc_certType clientCert \<noteq> [] then [(CURLOPT_SSLCERTTYPE, OStr (c_str (cc_certType clientCert)))] else []) @
             (if 0 < length (cc_keyPassword clientCert)
              then [(CURLOPT_KEYPASSWD, OStr (c_str (cc_keyPassword clientCert)))] else [])) t)"

fun tls_rank :: "TlsVersion \<Rightarrow> nat" where
  "tls_rank DEFAULT = 0"
| "tls_rank TLSv1_0 = 1"
| "tls_rank TLSv1_1 = 2"
| "tls_rank TLSv1_2 = 3"
| "tls_rank TLSv1_3 = 4"

definition GetTlsVersion :: "curl_env \<Rightarrow> TlsVersion \<Rightarrow> TlsVersion \<Rightarrow> 64 word" where
  "GetTlsVersion env tlsVersionMin tlsVersionMax =
     (let c = cu_const env; tlsVersion = CURL_SSLVERSION_DEFAULT c
      in if tlsVersionMin = DEFAULT \<or> tlsVersionMax = DEFAULT then tlsVersion
         else if tls_rank tlsVersionMin > tls_rank tlsVersionMax then tlsVersion
         else let v1 = (if tlsVersionMin = TLSv1_0 then tlsVersion OR CURL_SSLVERSION_TLSv1_0 c
                        else if tlsVersionMin = TLSv1_1 then tlsVersion OR CURL_SSLVERSION_TLSv1_1 c
                        else if tlsVersionMin = TLSv1_2 then tlsVersion OR CURL_SSLVERSION_TLSv1_2 c
                        else if tlsVersionMin = TLSv1_3 then tlsVersion OR CURL_SSLVERSION_TLSv1_3 c
                        else tlsVersion)
              in if tlsVersionMax = TLSv1_0 then v1 OR CURL_SSLVERSION_MAX_TLSv1_0 c
                 else if tlsVersionMax = TLSv1_1 then v1 OR CURL_SSLVERSION_MAX_TLSv1_1 c
                 else if tlsVersionMax = TLSv1_2 then v1 OR CURL_SSLVERSION_MAX_TLSv1_2 c
                 else if tlsVersionMax = TLSv1_3 then v1 OR CURL_SSLVERSION_MAX_TLSv1_3 c
                 else v1)"

definition SetTlsOption :: "curl_env \<Rightarrow> HttpClientTask \<Rightarrow> bool \<times> HttpClientTask" where
  "SetTlsOption env t =
     (let tlsOption = rq_tlsOptions (ta_request t);
          tlsVersion = GetTlsVersion env (to_tlsVersionMin tlsOption) (to_tlsVersionMax tlsOption);
          cipherSuiteString = ConvertCipherSuiteToCipherString (to_cipherSuite tlsOption);
          normalString = ciperSuiteString cipherSuiteString;
          tlsV13String = tlsV13CiperSuiteString cipherSuiteString;
          tls12 = [(CURLOPT_SSLVERSION, OLong (sint (CURL_SSLVERSION_TLSv1_2 (cu_const env)))),
                   (CURLOPT_SSL_CIPHER_LIST, OStr TLS12_SECURITY_CIPHER_SUITE)]
      in set_options env
        ([(CURLOPT_SSLVERSION, OLong (sint tlsVersion))] @
         (if tlsVersion = CURL_SSLVERSION_DEFAULT (cu_const env) then tls12
          else if normalString = [] \<and> tlsV13String = [] then []
          else if normalString \<noteq> [] then [(CURLOPT_SSL_CIPHER_LIST, OStr normalString)] @
            (if tlsV13String \<noteq> [] \<and> cu_openssl env then [(CURLOPT_TLS13_CIPHERS, OStr tlsV13String)] else [])
          else if tlsV13String \<noteq> [] \<and> cu_openssl env then [(CURLOPT_TLS13_CIPHERS, OStr tlsV13String)]
          else tls12)) t)"

definition SetSslTypeAndClientEncCert :: "curl_env \<Rightarrow> HttpClientTask \<Rightarrow> bool \<times> HttpClientTask" where
  "SetSslTypeAndClientEncCert env t =
     (let r = ta_request t; cert = rq_clientEncCert r
      in if rq_sslType r \<noteq> TLCP then (True, t)
         else set_options env
           ([(CURLOPT_SSLVERSION, OLong (CURL_SSLVERSION_TLCPv1_1 (cu_const env)))] @
            (if rq_caPath r \<noteq> [] then [(CURLOPT_CAINFO, OStr (c_str (rq_caPath r)))] else []) @
            (if cc_certPath cert \<noteq> [] then [(CURLOPT_SSLENCCERT, OStr (c_str (cc_certPath cert)))] else []) @
            (if cc_keyPath cert \<noteq> [] then [(CURLOPT_SSLENCKEY, OStr (c_str (cc_keyPath cert)))] else []) @
            (if cc_certType cert \<noteq> [] then [(CURLOPT_SSLCERTTYPE, OStr (c_str (cc_certType cert)))] else []) @
            (if 0 < length (cc_keyPassword cert) then [(CURLOPT_KEYPASSWD, OStr (c_str (cc_keyPassword cert)))] else [])) t)"

definition SetCertPinnerOption :: "curl_env \<Rightarrow> HttpClientTask \<Rightarrow> bool \<times> HttpClientTask" where
  "SetCertPinnerOption env t =
     (let certPIN = rq_certificatePinning (ta_request t)
      in if certPIN = [] then (True, t) else set_options env [(CURLOPT_PINNEDPUBLICKEY, OStr (c_str certPIN))] t)"

section \<open>Range, names, parts\<close>

definition to_string_int :: "int \<Rightarrow> string" where
  "to_string_int i = (if i < 0 then CHR ''-'' # to_string_nat (nat (- i)) else to_string_nat (nat i))"

definition GetRangeString :: "HttpClientTask \<Rightarrow> string" where
  "GetRangeString t =
     (let resumeFrom = rq_resumeFrom (ta_request t); resumeTo = rq_resumeTo (ta_request t);
          isSetFrom = resumeFrom \<ge> MIN_RESUM_NUMBER; isSetTo = resumeTo \<ge> MIN_RESUM_NUMBER
      in if \<not> isSetTo \<and> \<not> isSetFrom then []
         else if \<not> isSetTo \<and> isSetFrom then to_string_int resumeFrom @ ''-''
         else if isSetTo \<and> \<not> isSetFrom then ''-'' @ to_string_int resumeTo
         else if resumeTo \<le> resumeFrom then []
         else to_string_int resumeFrom @ ''-'' @ to_string_int resumeTo)"

definition range_options :: "HttpClientTask \<Rightarrow> (curlopt \<times> optval) list" where
  "range_options t =
     (if GetRangeString t \<noteq> [] then [(CURLOPT_RANGE, OStr (GetRangeString t))]
      else [(CURLOPT_USERAGENT, OStr HTTP_DEFAULT_USER_AGENT)])"

definition range_refused :: "HttpClientTask \<Rightarrow> bool" where
  "range_refused t \<longleftrightarrow> GetRangeString t \<noteq> [] \<and> rq_method (ta_request t) = HTTP_METHOD_PUT"

definition SetDnsOption :: "curl_env \<Rightarrow> HttpClientTask \<Rightarrow> bool \<times> HttpClientTask" where
  "SetDnsOption env t =
     (let dnsServers = rq_dnsServers (ta_request t)
      in if dnsServers = [] then (False, t)
         else set_options env
           [(CURLOPT_DNS_SERVERS, OStr (c_str (butlast (concat (map (\<lambda>server. server @ '','') dnsServers)))))] t)"

definition SetDnsCacheOption :: "curl_env \<Rightarrow> HttpClientTask \<Rightarrow> bool \<times> HttpClientTask" where
  "SetDnsCacheOption env t =
     (if HAS_NETMANAGER_BASE (cu_build env) then set_options env [(CURLOPT_DNS_CACHE_TIMEOUT, OLong 0)] t else (True, t))"

definition SetIpResolve :: "curl_env \<Rightarrow> HttpClientTask \<Rightarrow> bool \<times> HttpClientTask" where
  "SetIpResolve env t =
     (let addressFamily = rq_addressFamily (ta_request t);
          v4 = [(CURLOPT_IPRESOLVE, OLong (CURL_IPRESOLVE_V4 (cu_const env)))];
          v6 = [(CURLOPT_IPRESOLVE, OLong (CURL_IPRESOLVE_V6 (cu_const env)))]
      in if addressFamily = []
         then if HAS_NETMANAGER_BASE (cu_build env)
              then if \<not> cu_ipv6 env then set_options env v4 t
                   else if \<not> cu_ipv4 env then set_options env v6 t
                   else (True, t)
              else (True, t)
         else set_options env ((if addressFamily = HTTP_AF_ONLYV4 then v4 else []) @
                               (if addressFamily = HTTP_AF_ONLYV6 then v6 else [])) t)"

text \<open>The calls on one part of a form, the first failure ends them.\<close>

fun mime_calls :: "curl_env \<Rightarrow> mime_call list \<Rightarrow> HttpClientTask \<Rightarrow> bool \<times> HttpClientTask" where
  "mime_calls env [] t = (True, t)"
| "mime_calls env (c # cs) t =
     (let result = cu_mime env c
      in if result \<noteq> CURLE_OK then (False, t\<lparr>ta_error := SetCURLResult (ta_error t) result\<rparr>)
         else mime_calls env cs t)"

definition SetFormDataOption :: "curl_env \<Rightarrow> HttpMultiFormData \<Rightarrow> HttpClientTask \<Rightarrow> bool \<times> HttpClientTask" where
  "SetFormDataOption env d t =
     mime_calls env
       ([mime_name (c_str (mf_name d))] @
        (if mf_contentType d \<noteq> [] then [mime_type (c_str (mf_contentType d))] else []) @
        (if mf_remoteFileName d \<noteq> [] then [mime_filename (c_str (mf_remoteFileName d))] else []) @
        (if mf_data d \<noteq> [] then [mime_data (mf_data d)]
         else if mf_remoteFileName d \<noteq> []
         then case cu_read_file env (mf_filePath d) of
                Some fileData \<Rightarrow> [mime_data fileData]
              | None \<Rightarrow> [mime_filedata (c_str (mf_filePath d))]
         else [mime_filedata (c_str (mf_filePath d))])) t"

fun multi_parts :: "curl_env \<Rightarrow> HttpMultiFormData list \<Rightarrow> bool \<Rightarrow> HttpClientTask \<Rightarrow> bool \<times> HttpClientTask" where
  "multi_parts env [] hasData t = (hasData, t)"
| "multi_parts env (d # ds) hasData t =
     (if mf_name d = [] then multi_parts env ds hasData t
      else if mf_data d = [] \<and> mf_filePath d = [] then multi_parts env ds hasData t
      else let (ok, t1) = SetFormDataOption env d t in multi_parts env ds (hasData \<or> ok) t1)"

definition header_value :: "headers \<Rightarrow> string \<Rightarrow> string" where
  "header_value hs k = (case map_of hs k of None \<Rightarrow> [] | Some v \<Rightarrow> v)"

definition SetMultiPartOption :: "curl_env \<Rightarrow> HttpClientTask \<Rightarrow> bool \<times> HttpClientTask" where
  "SetMultiPartOption env t =
     (let r = ta_request t
      in if ToLower (header_value (rq_headers r) HTTP_CONTENT_TYPE) \<noteq> HTTP_CONTENT_TYPE_MULTIPART then (True, t)
         else if rq_multiFormDataList r = [] then (True, t)
         else if \<not> cu_mime_init env then (False, t)
         else let (hasData, t1) = multi_parts env (rq_multiFormDataList r) False t
              in if hasData then set_options env [(CURLOPT_MIMEPOST, OPtr)] t1 else (True, t1))"

section \<open>URL parameters\<close>

definition IsUnReserved :: "byte \<Rightarrow> bool" where
  "IsUnReserved c \<longleftrightarrow>
     (0x30 \<le> c \<and> c \<le> 0x39) \<or> (0x61 \<le> c \<and> c \<le> 0x7A) \<or> (0x41 \<le> c \<and> c \<le> 0x5A) \<or> c \<in> {0x2D, 0x2E, 0x5F, 0x7E}"

definition hex_upper :: "nat \<Rightarrow> char" where
  "hex_upper d = (if d < 10 then char_of (48 + d) else char_of (55 + d))"

definition percent :: "byte \<Rightarrow> string" where
  "percent c = CHR ''%'' # [hex_upper (unat c div 16), hex_upper (unat c mod 16)]"

fun EncodeUrlParam_loop :: "string \<Rightarrow> string \<Rightarrow> string" where
  "EncodeUrlParam_loop [] encodeOut = encodeOut"
| "EncodeUrlParam_loop (ch # str) encodeOut =
     (let c = of_char ch :: byte
      in EncodeUrlParam_loop str (encodeOut @ (if IsUnReserved c then [ch] else percent c)))"

text \<open>The result says whether the string was changed.\<close>

definition EncodeUrlParam :: "string \<Rightarrow> bool \<times> string" where
  "EncodeUrlParam str =
     (let encodeOut = EncodeUrlParam_loop (c_str str) []
      in if str = encodeOut then (False, str) else (True, encodeOut))"

definition MakeUrl :: "string \<Rightarrow> string \<Rightarrow> string \<Rightarrow> string" where
  "MakeUrl url param extraParam =
     (let param = (if param = [] then param @ extraParam else param @ HTTP_URL_PARAM_SEPARATOR @ extraParam)
      in if param = [] then url else url @ HTTP_URL_PARAM_START @ param)"

fun GetJsonFieldValue :: "cJSON \<Rightarrow> string" where
  "GetJsonFieldValue (cJSON_String s) = s"
| "GetJsonFieldValue (cJSON_Number s) = s"
| "GetJsonFieldValue cJSON_True = ''true''"
| "GetJsonFieldValue cJSON_False = ''false''"
| "GetJsonFieldValue cJSON_NULL = ''null''"
| "GetJsonFieldValue (cJSON_Object cs) = []"
| "GetJsonFieldValue (cJSON_Array cs) = []"

definition json_pair :: "string \<Rightarrow> string \<Rightarrow> HttpClientRequest \<times> string \<Rightarrow> HttpClientRequest \<times> string" where
  "json_pair key0 value0 st =
     (if key0 = [] \<or> value0 = [] then st
      else let (encodeName, key) = EncodeUrlParam key0;
               (encodeValue, value) = EncodeUrlParam value0;
               r = (if encodeName \<or> encodeValue
                    then SetHeader (fst st) (ToLower HTTP_CONTENT_TYPE) HTTP_CONTENT_TYPE_URL_ENCODE else fst st)
           in (r, snd st @ key @ HTTP_URL_NAME_VALUE_SEPARATOR @ value @ HTTP_URL_PARAM_SEPARATOR))"

fun TraverseJson :: "cJSON \<Rightarrow> HttpClientRequest \<times> string \<Rightarrow> HttpClientRequest \<times> string"
and Traverse_children :: "(string \<times> cJSON) list \<Rightarrow> HttpClientRequest \<times> string \<Rightarrow> HttpClientRequest \<times> string"
and Traverse_items :: "cJSON list \<Rightarrow> HttpClientRequest \<times> string \<Rightarrow> HttpClientRequest \<times> string" where
  "TraverseJson (cJSON_Object children) st = Traverse_children children st"
| "TraverseJson (cJSON_Array items) st = Traverse_items items st"
| "TraverseJson (cJSON_String _) st = st"
| "TraverseJson (cJSON_Number _) st = st"
| "TraverseJson cJSON_True st = st"
| "TraverseJson cJSON_False st = st"
| "TraverseJson cJSON_NULL st = st"
| "Traverse_children [] st = st"
| "Traverse_children ((key, child) # cs) st =
     Traverse_children cs (json_pair key (GetJsonFieldValue child) (TraverseJson child st))"
| "Traverse_items [] st = st"
| "Traverse_items (item # items) st = Traverse_items items (TraverseJson item st)"

definition ParseJsonValueToExtraParam :: "curl_env \<Rightarrow> HttpClientRequest \<Rightarrow> string \<Rightarrow> HttpClientRequest \<times> string" where
  "ParseJsonValueToExtraParam env r jsonStr =
     (case cu_parse env (c_str jsonStr) of None \<Rightarrow> (r, []) | Some root \<Rightarrow> TraverseJson root (r, []))"

definition HandleMethodForGet :: "curl_env \<Rightarrow> HttpClientRequest \<Rightarrow> HttpClientRequest" where
  "HandleMethodForGet env r =
     (let (url, param) = (case find_sub HTTP_URL_PARAM_START (rq_url r) of
                            None \<Rightarrow> (rq_url r, [])
                          | Some index \<Rightarrow> (take index (rq_url r), drop (index + 1) (rq_url r)));
          extraData = rq_extraData r
      in case ed_dataType extraData of
           STRING \<Rightarrow> SetURL r (MakeUrl url param (ed_data extraData))
         | NO_DATA_TYPE \<Rightarrow> r
         | _ \<Rightarrow>
             let (r1, extraParam) = ParseJsonValueToExtraParam env r (ed_data extraData)
             in SetURL r1 (MakeUrl url param (if extraParam \<noteq> [] then butlast extraParam else extraParam)))"

definition GetRequestBody :: "HttpClientRequest \<Rightarrow> HttpClientRequest" where
  "GetRequestBody r = (if ed_data (rq_extraData r) = [] then r else SetBody r (ed_data (rq_extraData r)))"

section \<open>The options of a transfer\<close>

definition header_text :: "string \<times> string \<Rightarrow> string" where
  "header_text h = (if snd h \<noteq> [] then fst h @ HTTP_HEADER_SEPARATOR @ snd h else fst h @ HTTP_HEADER_BLANK_SEPARATOR)"

definition SetHttpHeaders :: "curl_env \<Rightarrow> HttpClientTask \<Rightarrow> bool \<times> HttpClientTask" where
  "SetHttpHeaders env t =
     set_options env [(CURLOPT_HTTPHEADER, OList (map (\<lambda>h. c_str (header_text h)) (rq_headers (ta_request t))))] t"

definition SetTraceOptions :: "curl_env \<Rightarrow> HttpClientTask \<Rightarrow> bool \<times> HttpClientTask" where
  "SetTraceOptions env t =
     set_options env
       [(CURLOPT_RESOLVER_START_DATA, OPtr), (CURLOPT_RESOLVER_START_FUNCTION, OPtr), (CURLOPT_SOCKOPTDATA, OPtr),
        (CURLOPT_SOCKOPTFUNCTION, OPtr), (CURLOPT_SSL_CTX_DATA, OPtr), (CURLOPT_SSL_CTX_FUNCTION, OPtr),
        (CURLOPT_PREREQDATA, OPtr), (CURLOPT_PREREQFUNCTION, OPtr)] t"

definition SetUploadOptions :: "curl_env \<Rightarrow> HttpClientTask \<Rightarrow> bool \<times> HttpClientTask" where
  "SetUploadOptions env t =
     (if ta_filePath t = [] then fail_with (HTTP_CURL CURLE_UPLOAD_FAILED) t
      else case cu_realpath env (c_str (ta_filePath t)) of
        None \<Rightarrow> fail_with (HTTP_CURL CURLE_UPLOAD_FAILED) t
      | Some realPath \<Rightarrow>
          (case cu_fopen env realPath of
             None \<Rightarrow> fail_with (HTTP_CURL CURLE_UPLOAD_FAILED) t
           | Some n \<Rightarrow>
               set_options env [(CURLOPT_READDATA, OPtr), (CURLOPT_INFILESIZE, OLong n), (CURLOPT_UPLOAD, OLong 1)] t))"

definition SetCurlMethod :: "curl_env \<Rightarrow> HttpClientTask \<Rightarrow> bool \<times> HttpClientTask" where
  "SetCurlMethod env t =
     (let m = rq_method (ta_request t)
      in if \<not> MethodForGet m \<and> \<not> MethodForPost m then (False, t)
         else unless_false (set_options env (if m = HTTP_METHOD_HEAD then [(CURLOPT_NOBODY, OLong 1)] else []) t) (\<lambda>t.
           let r = ta_request t; extraData = rq_extraData r;
               r1 = (if ed_dataType extraData \<noteq> NO_DATA_TYPE \<and> ed_data extraData \<noteq> []
                     then if MethodForGet m then HandleMethodForGet env r
                          else if MethodForPost m then GetRequestBody r else r
                     else r);
               t = snd (SetTraceOptions env (t\<lparr>ta_request := r1\<rparr>))
           in unless_false (set_options env [(CURLOPT_URL, OStr (c_str (rq_url r1)))] t) (\<lambda>t.
             if ta_type t = TASK_UPLOAD then SetUploadOptions env t
             else set_options env
               ((if m \<noteq> [] then [(CURLOPT_CUSTOMREQUEST, OStr (c_str (rq_method r1)))] else []) @
                (if (m = [] \<or> m = HTTP_METHOD_POST \<or> m = HTTP_METHOD_PUT \<or> m = HTTP_METHOD_DELETE) \<and> rq_body r1 \<noteq> []
                 then [(CURLOPT_POST, OLong 1), (CURLOPT_POSTFIELDS, OStr (rq_body r1)),
                       (CURLOPT_POSTFIELDSIZE, OLong (int (length (rq_body r1))))]
                 else [])) t)))"

definition SetCallbackFunctions :: "curl_env \<Rightarrow> HttpClientTask \<Rightarrow> bool \<times> HttpClientTask" where
  "SetCallbackFunctions env t =
     set_options env
       [(CURLOPT_XFERINFOFUNCTION, OPtr), (CURLOPT_XFERINFODATA, OPtr), (CURLOPT_NOPROGRESS, OLong 0),
        (CURLOPT_WRITEFUNCTION, OPtr), (CURLOPT_WRITEDATA, OPtr), (CURLOPT_HEADERFUNCTION, OPtr),
        (CURLOPT_HEADERDATA, OPtr)] t"

definition SetRequestOption :: "curl_env \<Rightarrow> HttpClientTask \<Rightarrow> bool \<times> HttpClientTask" where
  "SetRequestOption env t =
     unless_false (set_options env
       [(CURLOPT_TIMEOUT_MS, OLong (uint (rq_timeout (ta_request t)))),
        (CURLOPT_CONNECTTIMEOUT_MS, OLong (uint (rq_connectTimeout (ta_request t))))] t) (\<lambda>t.
       if range_refused t then fail_with (HTTP_CURL CURLE_RANGE_ERROR) t
       else unless_false (set_options env
         (range_options t @
          (if rq_dnsOverHttps (ta_request t) \<noteq> [] then [(CURLOPT_DOH_URL, OStr (c_str (rq_dnsOverHttps (ta_request t))))]
           else [])) t) (\<lambda>t.
           let t = snd (SetCertPinnerOption env t);
               t = snd (SetDnsOption env t);
               t = snd (SetSSLCertOption env t);
               t = snd (SetMultiPartOption env t);
               t = snd (SetDnsCacheOption env t);
               t = snd (SetIpResolve env t)
           in (True, t)))"

text \<open>\<open>IsHostNameExcluded\<close> never throws.\<close>

definition proxy_options :: "curl_env \<Rightarrow> HttpClientTask \<Rightarrow> (curlopt \<times> optval) list" where
  "proxy_options env t =
     (let (host, port, exclusions, tunnel) = GetHttpProxyInfo env t; url = rq_url (ta_request t)
      in if host \<noteq> [] \<and> IsHostNameExcluded url exclusions '','' \<noteq> Some True
         then [(CURLOPT_PROXY, OStr (c_str host)), (CURLOPT_PROXYPORT, OLong port),
               (CURLOPT_HTTPPROXYTUNNEL, OLong (if find_sub ''https://'' url \<noteq> None then 1 else 0)),
               (CURLOPT_PROXYTYPE, OLong (if find_sub ''https://'' host \<noteq> None then CURLPROXY_HTTPS (cu_const env)
                                          else CURLPROXY_HTTP (cu_const env)))]
         else [])"

definition SetOtherCurlOption :: "curl_env \<Rightarrow> HttpClientTask \<Rightarrow> bool \<times> HttpClientTask" where
  "SetOtherCurlOption env t =
     unless_false (set_options env (proxy_options env t) t) (\<lambda>t.
       let t = snd (SetTlsOption env t)
       in if range_refused t then fail_with (HTTP_CURL CURLE_RANGE_ERROR) t
          else unless_false (set_options env (range_options t) t) (\<lambda>t.
            let t = snd (SetSSLCertOption env t);
                t = snd (SetDnsCacheOption env t);
                t = snd (SetIpResolve env t)
            in unless_false (set_options env
                 ((if HTTP_CURL_PRINT_VERBOSE (cu_build env) then [(CURLOPT_VERBOSE, OLong 1)] else []) @
                  (if \<not> WINDOWS_PLATFORM (cu_build env) then [(CURLOPT_ACCEPT_ENCODING, OStr [])] else [])) t)
                 (SetSslTypeAndClientEncCert env)))"

definition SetAuthOptions :: "curl_env \<Rightarrow> HttpClientTask \<Rightarrow> bool \<times> HttpClientTask" where
  "SetAuthOptions env t =
     (let authentication = rq_serverAuth (ta_request t);
          authType = (case sa_authenticationType authentication of
                        BASIC \<Rightarrow> CURLAUTH_BASIC (cu_const env)
                      | NTLM \<Rightarrow> CURLAUTH_NTLM (cu_const env)
                      | DIGEST \<Rightarrow> CURLAUTH_DIGEST (cu_const env)
                      | AUTO \<Rightarrow> CURLAUTH_ANY (cu_const env))
      in set_options env
        ((if sa_username authentication \<noteq> []
          then [(CURLOPT_HTTPAUTH, OLong authType), (CURLOPT_USERNAME, OStr (c_str (sa_username authentication)))] else []) @
         (if sa_password authentication \<noteq> []
          then [(CURLOPT_PASSWORD, OStr (c_str (sa_password authentication)))] else [])) t)"

definition SetCurlOptions :: "curl_env \<Rightarrow> HttpClientTask \<Rightarrow> bool \<times> HttpClientTask" where
  "SetCurlOptions env t =
     unless_false (SetHttpHeaders env t) (\<lambda>t.
       unless_false (SetCurlMethod env t) (\<lambda>t.
         if rq_usingCache (ta_request t) then (False, t)
         else unless_false (SetCallbackFunctions env t) (\<lambda>t.
           unless_false (set_options env
             [(CURLOPT_FOLLOWLOCATION, OLong 1), (CURLOPT_COOKIEFILE, OStr []), (CURLOPT_NOSIGNAL, OLong 1),
              (CURLOPT_HTTP_VERSION, OLong (uint (Task_GetHttpVersion env (rq_protocol (ta_request t)))))] t) (\<lambda>t.
               unless_false (SetRequestOption env t) (\<lambda>t.
                 unless_false (SetOtherCurlOption env t) (SetAuthOptions env))))))"

text \<open>The constructor; the result of \<open>SetCurlOptions\<close> is not looked at.\<close>

definition new_HttpClientTask :: "curl_env \<Rightarrow> u32 \<Rightarrow> HttpClientRequest \<Rightarrow> TaskType \<Rightarrow> string \<Rightarrow> HttpClientTask" where
  "new_HttpClientTask env taskId request type filePath =
     snd (SetCurlOptions env
       \<lparr>ta_taskId = taskId, ta_request = request, ta_response = new_HttpClientResponse, ta_error = new_HttpClientError,
        ta_type = type, ta_status = IDLE, ta_canceled = False, ta_filePath = filePath, ta_isHeaderOnce = False,
        ta_isHeadersOnce = False, ta_isRequestInStream = False, ta_onSucceeded = False, ta_onCanceled = False,
        ta_onFailed = False, ta_onDataReceive = False, ta_onProgress = False, ta_onHeadersReceive = False,
        ta_onHeaderReceive = False, ta_options = []\<rparr>)"

end
