(* ===== verification/Http_Task_Correct.thy ===== *)
theory Http_Task_Correct
  imports Http_Task
begin

text \<open>
  What a prepared transfer has told curl: certificate verification and pinned keys, the options that
  are missing when the cache is used, and the encoding of URL parameters.
\<close>

section \<open>Sequences of options\<close>

definition all_ok :: "curl_env \<Rightarrow> bool" where
  "all_ok env \<longleftrightarrow> (\<forall>opt v. cu_setopt env opt v = CURLE_OK)"

lemma set_options_ok: "all_ok env \<Longrightarrow> set_options env ps t = (True, t\<lparr>ta_options := ta_options t @ ps\<rparr>)"
  by (induction ps arbitrary: t) (simp_all add: all_ok_def)

lemma set_options_frame: "\<exists>ps' e. snd (set_options env ps t) = t\<lparr>ta_options := ta_options t @ ps', ta_error := e\<rparr> \<and> set ps' \<subseteq> set ps"
proof (induction ps arbitrary: t)
  case Nil
  show ?case by (rule exI [of _ "[]"], rule exI [of _ "ta_error t"]) simp
next
  case (Cons p ps)
  show ?case
  proof (cases "cu_setopt env (fst p) (snd p) = CURLE_OK")
    case True
    obtain ps' e where "snd (set_options env ps (t\<lparr>ta_options := ta_options t @ [p]\<rparr>)) =
        (t\<lparr>ta_options := ta_options t @ [p]\<rparr>)\<lparr>ta_options := (ta_options t @ [p]) @ ps', ta_error := e\<rparr>" "set ps' \<subseteq> set ps"
      using Cons.IH [of "t\<lparr>ta_options := ta_options t @ [p]\<rparr>"] by auto
    then show ?thesis
      using True by (intro exI [of _ "p # ps'"] exI [of _ e]) auto
  next
    case False
    show ?thesis
      by (rule exI [of _ "[]"], rule exI [of _ "SetCURLResult (ta_error t) (cu_setopt env (fst p) (snd p))"])
        (simp add: False)
  qed
qed

declare set_options.simps(2) [simp del]

text \<open>The options set by a step, and that it leaves the request and the type of the task alone.\<close>

definition adds :: "curlopt set \<Rightarrow> HttpClientTask \<Rightarrow> HttpClientTask \<Rightarrow> bool" where
  "adds S t t' \<longleftrightarrow> (\<exists>ps. ta_options t' = ta_options t @ ps \<and> fst ` set ps \<subseteq> S) \<and> ta_type t' = ta_type t"

lemma adds_refl [simp]: "adds S t t"
  by (auto simp: adds_def)

lemma adds_trans: "adds S t t1 \<Longrightarrow> adds S t1 t2 \<Longrightarrow> adds S t t2"
  unfolding adds_def by (auto simp: image_Un)

lemma adds_set_options: "fst ` set ps \<subseteq> S \<Longrightarrow> adds S t (snd (set_options env ps t))"
proof -
  assume sub: "fst ` set ps \<subseteq> S"
  obtain ps' e where e: "snd (set_options env ps t) = t\<lparr>ta_options := ta_options t @ ps', ta_error := e\<rparr>" "set ps' \<subseteq> set ps"
    using set_options_frame [of env ps t] by blast
  then have "fst ` set ps' \<subseteq> S"
    using sub by blast
  then show ?thesis
    by (auto simp: adds_def e(1))
qed

lemma adds_request: "adds S t t' \<Longrightarrow> adds S t (t'\<lparr>ta_request := r\<rparr>)" "adds S (t\<lparr>ta_request := r\<rparr>) t' \<Longrightarrow> adds S t t'"
  by (simp_all add: adds_def)

lemma adds_unless_false:
  "adds S t (snd p) \<Longrightarrow> (\<And>u. adds S t u \<Longrightarrow> adds S t (snd (f u))) \<Longrightarrow> adds S t (snd (unless_false p f))"
  by (simp add: unless_false_def)

lemma set_options_request [simp]: "ta_request (snd (set_options env ps t)) = ta_request t"
  using set_options_frame [of env ps t] by auto

lemma unless_false_True: "unless_false p f = (True, t) \<longleftrightarrow> fst p \<and> f (snd p) = (True, t)"
  by (cases p) (auto simp: unless_false_def)

lemma unless_false_request:
  "(\<And>u. ta_request u = ta_request (snd p) \<Longrightarrow> ta_request (snd (f u)) = ta_request (snd p)) \<Longrightarrow>
    ta_request (snd (unless_false p f)) = ta_request (snd p)"
  by (simp add: unless_false_def)

text \<open>The value an option has at the end: that of its last setting.\<close>

definition last_set :: "HttpClientTask \<Rightarrow> curlopt \<Rightarrow> optval option" where
  "last_set t opt = map_of (rev (ta_options t)) opt"

lemma last_set_more:
  "ta_options t' = ta_options t @ ps \<Longrightarrow>
    last_set t' opt = (case map_of (rev ps) opt of None \<Rightarrow> last_set t opt | Some v \<Rightarrow> Some v)"
  by (simp add: last_set_def map_add_def split: option.split)

lemma adds_last_set: "adds S t t' \<Longrightarrow> opt \<notin> S \<Longrightarrow> last_set t' opt = last_set t opt"
proof -
  assume "adds S t t'" "opt \<notin> S"
  then obtain ps where ps: "ta_options t' = ta_options t @ ps" "opt \<notin> fst ` set ps"
    by (auto simp: adds_def)
  then have "map_of (rev ps) opt = None"
    by (simp add: map_of_eq_None_iff)
  then show ?thesis
    by (simp add: last_set_more [OF ps(1)])
qed

section \<open>What preparing the method changes in the request\<close>

definition settings :: "HttpClientRequest \<Rightarrow> HttpClientRequest" where
  "settings r = r\<lparr>rq_url := [], rq_headers := [], rq_body := []\<rparr>"

lemma settings_fields:
  "settings r = settings r' \<Longrightarrow> rq_usingCache r = rq_usingCache r'"
  "settings r = settings r' \<Longrightarrow> rq_canSkipCertVerify r = rq_canSkipCertVerify r'"
  "settings r = settings r' \<Longrightarrow> rq_certificatePinning r = rq_certificatePinning r'"
  by (auto simp: settings_def dest: arg_cong [where f = rq_usingCache] arg_cong [where f = rq_canSkipCertVerify]
      arg_cong [where f = rq_certificatePinning])

lemma settings_setters [simp]:
  "settings (SetHeader r k v) = settings r" "settings (SetURL r u) = settings r" "settings (SetBody r b) = settings r"
  by (simp_all add: settings_def SetHeader_def SetURL_def SetBody_def)

lemma settings_json_pair [simp]: "settings (fst (json_pair k v st)) = settings (fst st)"
  by (simp add: json_pair_def split: prod.split)

lemma settings_traverse [simp]:
  "settings (fst (TraverseJson j st)) = settings (fst st)"
  "settings (fst (Traverse_children cs st)) = settings (fst st)"
  "settings (fst (Traverse_items js st)) = settings (fst st)"
  by (induction j st and cs st and js st rule: TraverseJson_Traverse_children_Traverse_items.induct) simp_all

lemma settings_HandleMethodForGet [simp]: "settings (HandleMethodForGet env r) = settings r"
proof -
  have "settings (fst (ParseJsonValueToExtraParam env r s)) = settings r" for s
    by (simp add: ParseJsonValueToExtraParam_def split: option.split)
  then show ?thesis
    by (auto simp: HandleMethodForGet_def split: HttpDataType.split prod.split option.split) (metis fst_conv)+
qed

lemma settings_GetRequestBody [simp]: "settings (GetRequestBody r) = settings r"
  by (simp add: GetRequestBody_def)

definition method_options :: "curlopt set" where
  "method_options = {CURLOPT_HTTPHEADER, CURLOPT_NOBODY, CURLOPT_URL, CURLOPT_CUSTOMREQUEST, CURLOPT_POST,
     CURLOPT_POSTFIELDS, CURLOPT_POSTFIELDSIZE, CURLOPT_READDATA, CURLOPT_INFILESIZE, CURLOPT_UPLOAD,
     CURLOPT_RESOLVER_START_DATA, CURLOPT_RESOLVER_START_FUNCTION, CURLOPT_SOCKOPTDATA, CURLOPT_SOCKOPTFUNCTION,
     CURLOPT_SSL_CTX_DATA, CURLOPT_SSL_CTX_FUNCTION, CURLOPT_PREREQDATA, CURLOPT_PREREQFUNCTION}"

lemma method_mem [simp]:
  "CURLOPT_HTTPHEADER \<in> method_options" "CURLOPT_NOBODY \<in> method_options" "CURLOPT_URL \<in> method_options" "CURLOPT_CUSTOMREQUEST \<in> method_options" "CURLOPT_POST \<in> method_options"
  "CURLOPT_POSTFIELDS \<in> method_options" "CURLOPT_POSTFIELDSIZE \<in> method_options" "CURLOPT_READDATA \<in> method_options" "CURLOPT_INFILESIZE \<in> method_options" "CURLOPT_UPLOAD \<in> method_options"
  "CURLOPT_RESOLVER_START_DATA \<in> method_options" "CURLOPT_RESOLVER_START_FUNCTION \<in> method_options"
  "CURLOPT_SOCKOPTDATA \<in> method_options" "CURLOPT_SOCKOPTFUNCTION \<in> method_options"
  "CURLOPT_SSL_CTX_DATA \<in> method_options" "CURLOPT_SSL_CTX_FUNCTION \<in> method_options"
  "CURLOPT_PREREQDATA \<in> method_options" "CURLOPT_PREREQFUNCTION \<in> method_options"
  by (simp_all add: method_options_def)

lemma SetHttpHeaders_adds: "adds method_options t (snd (SetHttpHeaders env t))"
  unfolding SetHttpHeaders_def by (rule adds_set_options) simp

lemma fail_with_adds [simp]: "adds S t (snd (fail_with c t))" "ta_request (snd (fail_with c t)) = ta_request t"
  by (auto simp: fail_with_def adds_def)

lemma SetUploadOptions_adds: "adds method_options t (snd (SetUploadOptions env t))"
  unfolding SetUploadOptions_def
  by (auto split: option.split intro!: adds_set_options)

lemma SetUploadOptions_request [simp]: "ta_request (snd (SetUploadOptions env t)) = ta_request t"
  by (auto simp: SetUploadOptions_def split: option.split)

lemma SetTraceOptions_adds: "adds method_options t (snd (SetTraceOptions env t))"
  unfolding SetTraceOptions_def by (rule adds_set_options) simp

lemma SetTraceOptions_request [simp]: "ta_request (snd (SetTraceOptions env t)) = ta_request t"
  by (simp add: SetTraceOptions_def)

lemma SetCurlMethod_adds:
  "adds method_options t (snd (SetCurlMethod env t)) \<and> settings (ta_request (snd (SetCurlMethod env t))) = settings (ta_request t)"
proof -
  let ?m = "rq_method (ta_request t)"
  define body where "body = (\<lambda>u (r1::HttpClientRequest). unless_false (set_options env [(CURLOPT_URL, OStr (c_str (rq_url r1)))] u) (\<lambda>t.
      if ta_type t = TASK_UPLOAD then SetUploadOptions env t
      else set_options env
        ((if ?m \<noteq> [] then [(CURLOPT_CUSTOMREQUEST, OStr (c_str (rq_method r1)))] else []) @
         (if (?m = [] \<or> ?m = HTTP_METHOD_POST \<or> ?m = HTTP_METHOD_PUT \<or> ?m = HTTP_METHOD_DELETE) \<and> rq_body r1 \<noteq> []
          then [(CURLOPT_POST, OLong 1), (CURLOPT_POSTFIELDS, OStr (rq_body r1)),
                (CURLOPT_POSTFIELDSIZE, OLong (int (length (rq_body r1))))]
          else [])) t))"
  have b: "adds method_options u (snd (body u r1))" "ta_request (snd (body u r1)) = ta_request u" for u r1
  proof -
    let ?p = "set_options env [(CURLOPT_URL, OStr (c_str (rq_url r1)))] u"
    have p: "adds method_options u (snd ?p)"
      by (rule adds_set_options) simp
    show "adds method_options u (snd (body u r1))"
      unfolding body_def
      by (rule adds_unless_false [OF p])
        (auto intro!: adds_trans [OF _ adds_set_options] adds_trans [OF _ SetUploadOptions_adds])
    show "ta_request (snd (body u r1)) = ta_request u"
      unfolding body_def by (subst unless_false_request) auto
  qed
  show ?thesis
  proof (cases "\<not> MethodForGet ?m \<and> \<not> MethodForPost ?m")
    case True
    then show ?thesis by (simp add: SetCurlMethod_def)
  next
    case False
    let ?p = "set_options env (if ?m = HTTP_METHOD_HEAD then [(CURLOPT_NOBODY, OLong 1)] else []) t"
    have p: "adds method_options t (snd ?p)"
      by (rule adds_set_options) auto
    show ?thesis
    proof (cases "fst ?p")
      case True
      define r1 where "r1 = (let r = ta_request t; extraData = rq_extraData r
        in if ed_dataType extraData \<noteq> NO_DATA_TYPE \<and> ed_data extraData \<noteq> []
           then if MethodForGet ?m then HandleMethodForGet env r
                else if MethodForPost ?m then GetRequestBody r else r
           else r)"
      define u where "u = snd (SetTraceOptions env ((snd ?p)\<lparr>ta_request := r1\<rparr>))"
      have "settings r1 = settings (ta_request t)"
        by (simp add: r1_def)
      moreover have "ta_request u = r1"
        by (simp add: u_def)
      moreover have "adds method_options (snd ?p) u"
        using SetTraceOptions_adds [of "(snd ?p)\<lparr>ta_request := r1\<rparr>" env] unfolding u_def by (rule adds_request(2))
      moreover have "SetCurlMethod env t = body u r1"
        using False True unfolding SetCurlMethod_def unless_false_def [of ?p] body_def u_def r1_def Let_def
        by (simp only: set_options_request if_True simp_thms if_False)
      ultimately show ?thesis
        using b [of u r1] p by (auto intro: adds_trans)
    next
      case f: False
      then have "SetCurlMethod env t = ?p"
        using False by (simp only: SetCurlMethod_def unless_false_def [of ?p] Let_def if_False simp_thms)
      then show ?thesis
        using p by simp
    qed
  qed
qed

section \<open>Errors are never lost\<close>

text \<open>
  A task without error: every call of \<open>curl_easy_setopt\<close> so far succeeded, since a failure is recorded
  and never taken back.
\<close>

definition clean :: "HttpClientTask \<Rightarrow> bool" where
  "clean t \<longleftrightarrow> er_errorCode (ta_error t) = HTTP_NONE_ERR"

lemma clean_updates [simp]:
  "clean (t\<lparr>ta_options := ps\<rparr>) = clean t" "clean (t\<lparr>ta_request := r\<rparr>) = clean t"
  by (simp_all add: clean_def)

lemma curl_result_not_clean: "c \<noteq> CURLE_OK \<Longrightarrow> \<not> clean (t\<lparr>ta_error := SetCURLResult e c\<rparr>)"
  by (simp add: clean_def SetCURLResult_def SetErrorCode_def)

lemma fail_with_not_clean [simp]: "c \<noteq> HTTP_NONE_ERR \<Longrightarrow> \<not> clean (snd (fail_with c t))"
  by (simp add: fail_with_def clean_def SetErrorCode_def)

lemma set_options_clean:
  "clean (snd (set_options env ps t)) \<Longrightarrow>
    clean t \<and> set_options env ps t = (True, t\<lparr>ta_options := ta_options t @ ps\<rparr>)"
proof (induction ps arbitrary: t)
  case (Cons p ps)
  then show ?case
    using Cons.IH [of "t\<lparr>ta_options := ta_options t @ [p]\<rparr>"]
    by (cases "cu_setopt env (fst p) (snd p) = CURLE_OK") (simp_all add: set_options.simps(2) curl_result_not_clean)
qed simp

lemma mime_calls_frame: "\<exists>e. snd (mime_calls env cs t) = t\<lparr>ta_error := e\<rparr>"
proof (induction cs)
  case Nil
  show ?case by (rule exI [of _ "ta_error t"]) simp
next
  case (Cons c cs)
  then show ?case by auto
qed

lemma mime_calls_clean: "clean (snd (mime_calls env cs t)) \<Longrightarrow> clean t"
  by (induction cs) (auto simp: curl_result_not_clean split: if_splits)

text \<open>The options that decide about the server's certificate, and steps that leave them alone.\<close>

definition watched :: "curlopt set" where
  "watched = {CURLOPT_SSL_VERIFYPEER, CURLOPT_SSL_VERIFYHOST, CURLOPT_PINNEDPUBLICKEY}"

definition quiet :: "HttpClientTask \<Rightarrow> HttpClientTask \<Rightarrow> bool" where
  "quiet t t' \<longleftrightarrow> adds (- watched) t t' \<and> ta_request t' = ta_request t \<and> (clean t' \<longrightarrow> clean t)"

lemma quiet_refl [simp]: "quiet t t"
  by (simp add: quiet_def)

lemma quiet_trans [trans]: "quiet t u \<Longrightarrow> quiet u v \<Longrightarrow> quiet t v"
  unfolding quiet_def by (metis adds_trans)

lemma quiet_set_options: "fst ` set ps \<inter> watched = {} \<Longrightarrow> quiet t (snd (set_options env ps t))"
  unfolding quiet_def using set_options_clean adds_set_options [of ps "- watched"] by (auto simp: disjoint_eq_subset_Compl)

lemma quiet_unless_false:
  "quiet t (snd p) \<Longrightarrow> (\<And>u. quiet u (snd (f u))) \<Longrightarrow> quiet t (snd (unless_false p f))"
  by (metis quiet_trans unless_false_def)

lemma quiet_fail_with: "c \<noteq> HTTP_NONE_ERR \<Longrightarrow> quiet t (snd (fail_with c t))"
  by (simp add: quiet_def)

lemma quiet_multi_parts: "quiet t (snd (multi_parts env ds b t))"
proof (induction ds arbitrary: b t)
  case (Cons d ds)
  obtain cs where cs: "SetFormDataOption env d t = mime_calls env cs t"
    unfolding SetFormDataOption_def by blast
  have "quiet t (snd (mime_calls env cs t))"
    using mime_calls_frame [of env cs t] mime_calls_clean [of env cs t] by (auto simp: quiet_def adds_def)
  then show ?case
    using Cons.IH by (auto simp: cs split: prod.split intro: quiet_trans)
qed simp

lemmas watched_simps = watched_def image_iff

lemma quiet_steps:
  "quiet t (snd (SetDnsOption env t))"
  "quiet t (snd (SetDnsCacheOption env t))"
  "quiet t (snd (SetIpResolve env t))"
  "quiet t (snd (SetAuthOptions env t))"
  "quiet t (snd (SetCallbackFunctions env t))"
  "quiet t (snd (SetHttpHeaders env t))"
  by (auto simp: SetDnsOption_def SetDnsCacheOption_def SetIpResolve_def SetAuthOptions_def SetCallbackFunctions_def
      SetHttpHeaders_def watched_def intro!: quiet_set_options)

lemma quiet_SetTlsOption: "quiet t (snd (SetTlsOption env t))"
  unfolding SetTlsOption_def Let_def by (rule quiet_set_options) (auto simp: watched_def)

lemma quiet_SetSslType: "quiet t (snd (SetSslTypeAndClientEncCert env t))"
  unfolding SetSslTypeAndClientEncCert_def Let_def by (auto simp: watched_def intro!: quiet_set_options)

lemma quiet_SetMultiPartOption: "quiet t (snd (SetMultiPartOption env t))"
proof -
  obtain b u where p: "multi_parts env (rq_multiFormDataList (ta_request t)) False t = (b, u)"
    by (cases "multi_parts env (rq_multiFormDataList (ta_request t)) False t") blast
  have "quiet t u"
    using quiet_multi_parts [of t env "rq_multiFormDataList (ta_request t)" False] by (simp add: p)
  moreover have "quiet u (snd (set_options env [(CURLOPT_MIMEPOST, OPtr)] u))"
    by (rule quiet_set_options) (simp add: watched_def)
  ultimately show ?thesis
    by (auto simp: SetMultiPartOption_def p intro: quiet_trans)
qed

section \<open>Certificate options\<close>

definition config_pins :: "curl_env \<Rightarrow> HttpClientRequest \<Rightarrow> string option" where
  "config_pins env r =
     (let hostname = GetHostnameFromURL (rq_url r); pins = cu_pin_set env hostname
      in if cu_pin_open env hostname \<or> fst pins \<noteq> 0 \<or> snd pins = [] then None else Some (c_str (snd pins)))"

definition pin_options :: "string option \<Rightarrow> (curlopt \<times> optval) list" where
  "pin_options pins = (case pins of None \<Rightarrow> [] | Some p \<Rightarrow> [(CURLOPT_PINNEDPUBLICKEY, OStr p)])"

lemma ServerSSLCert_options:
  "SetServerSSLCertOption env t = set_options env (pin_options (config_pins env (ta_request t))) t"
  by (auto simp: SetServerSSLCertOption_def config_pins_def pin_options_def split: prod.split)

lemma CertPinner_options:
  "SetCertPinnerOption env t =
    set_options env (pin_options (if rq_certificatePinning (ta_request t) = [] then None
      else Some (c_str (rq_certificatePinning (ta_request t))))) t"
  by (simp add: SetCertPinnerOption_def pin_options_def)

lemma SSLCert_options:
  assumes "clean (snd (SetSSLCertOption env t))"
  obtains ps where "clean t" "ta_request (snd (SetSSLCertOption env t)) = ta_request t"
    "ta_type (snd (SetSSLCertOption env t)) = ta_type t"
    "ta_options (snd (SetSSLCertOption env t)) =
      ta_options t @ verify_options env t @ pin_options (config_pins env (ta_request t)) @ ps"
    "fst ` set ps \<inter> watched = {}"
proof -
  let ?p = "set_options env (verify_options env t) t"
  define cert where "cert = (\<lambda>t. let clientCert = rq_clientCert (ta_request t)
       in if cc_certPath clientCert = [] then (False, t)
          else set_options env
            ([(CURLOPT_SSLCERT, OStr (c_str (cc_certPath clientCert)))] @
             (if cc_keyPath clientCert \<noteq> [] then [(CURLOPT_SSLKEY, OStr (c_str (cc_keyPath clientCert)))] else []) @
             (if cc_certType clientCert \<noteq> [] then [(CURLOPT_SSLCERTTYPE, OStr (c_str (cc_certType clientCert)))] else []) @
             (if 0 < length (cc_keyPassword clientCert)
              then [(CURLOPT_KEYPASSWD, OStr (c_str (cc_keyPassword clientCert)))] else [])) t)"
  have cert: "quiet u (snd (cert u))" for u
    unfolding cert_def Let_def by (auto simp: watched_def intro!: quiet_set_options)
  let ?u = "snd (SetServerSSLCertOption env (snd ?p))"
  have eq: "SetSSLCertOption env t = (if fst ?p then cert ?u else ?p)"
    unfolding SetSSLCertOption_def unless_false_def cert_def Let_def by simp
  have prev: "clean ?u \<Longrightarrow> clean (snd ?p)"
    unfolding ServerSSLCert_options using set_options_clean by blast
  have "clean (snd ?p)"
  proof (cases "fst ?p")
    case True
    then have "clean (snd (cert ?u))"
      using assms by (simp only: eq if_True)
    then show ?thesis
      using cert [of ?u] prev by (simp add: quiet_def)
  next
    case False
    then show ?thesis
      using assms by (simp only: eq if_False)
  qed
  then have p: "clean t" "?p = (True, t\<lparr>ta_options := ta_options t @ verify_options env t\<rparr>)"
    using set_options_clean [of env "verify_options env t" t] by auto
  then have q: "SetSSLCertOption env t = cert ?u"
    by (simp add: eq)
  then have "clean ?u"
    using assms cert [of ?u] by (simp add: quiet_def)
  then have u: "?u = t\<lparr>ta_options := (ta_options t @ verify_options env t) @ pin_options (config_pins env (ta_request t))\<rparr>"
    using set_options_clean [of env "pin_options (config_pins env (ta_request t))"
        "t\<lparr>ta_options := ta_options t @ verify_options env t\<rparr>"] by (simp add: ServerSSLCert_options p)
  obtain ps where ps: "ta_options (snd (cert ?u)) = ta_options ?u @ ps" "fst ` set ps \<subseteq> - watched"
    "ta_type (snd (cert ?u)) = ta_type ?u"
    using cert [of ?u] by (auto simp: quiet_def adds_def)
  show thesis
  proof (rule that [of ps])
    show "ta_request (snd (SetSSLCertOption env t)) = ta_request t"
      using cert [of ?u] unfolding q by (simp only: quiet_def) (simp add: u)
    show "ta_type (snd (SetSSLCertOption env t)) = ta_type t"
      using ps(3) unfolding q by (simp add: u)
    show "ta_options (snd (SetSSLCertOption env t)) =
        ta_options t @ verify_options env t @ pin_options (config_pins env (ta_request t)) @ ps"
      using ps(1) unfolding q by (simp add: u)
    show "fst ` set ps \<inter> watched = {}"
      using ps(2) by blast
  qed (rule p(1))
qed

section \<open>All steps of a task without error\<close>

lemma unless_false_clean:
  assumes "clean (snd (unless_false p f))" "clean (snd p) \<Longrightarrow> fst p" "\<And>u. clean (snd (f u)) \<Longrightarrow> clean u"
  shows "clean (snd p)" "unless_false p f = f (snd p)"
  using assms by (cases "fst p"; auto simp: unless_false_def)+

lemma unless_set_options_clean:
  assumes "clean (snd (unless_false (set_options env ps t) f))" "\<And>u. clean (snd (f u)) \<Longrightarrow> clean u"
  shows "clean t" "unless_false (set_options env ps t) f = f (t\<lparr>ta_options := ta_options t @ ps\<rparr>)"
proof -
  have "clean (snd (set_options env ps t)) \<Longrightarrow> fst (set_options env ps t)"
    using set_options_clean [of env ps t] by simp
  note u = unless_false_clean [OF assms(1) this assms(2)]
  from set_options_clean [OF u(1)] u(2) show "clean t" "unless_false (set_options env ps t) f = f (t\<lparr>ta_options := ta_options t @ ps\<rparr>)"
    by simp_all
qed

lemma SetUploadOptions_clean: "clean (snd (SetUploadOptions env t)) \<Longrightarrow> clean t \<and> fst (SetUploadOptions env t)"
  unfolding SetUploadOptions_def
  by (auto split: if_splits option.splits dest: set_options_clean)

lemma SetCurlMethod_clean:
  assumes "clean (snd (SetCurlMethod env t))"
    and "MethodForGet (rq_method (ta_request t)) \<or> MethodForPost (rq_method (ta_request t))"
  shows "clean t \<and> fst (SetCurlMethod env t)"
proof -
  let ?m = "rq_method (ta_request t)"
  define last where "last = (\<lambda>(r1::HttpClientRequest) t. if ta_type t = TASK_UPLOAD then SetUploadOptions env t
      else set_options env
        ((if ?m \<noteq> [] then [(CURLOPT_CUSTOMREQUEST, OStr (c_str (rq_method r1)))] else []) @
         (if (?m = [] \<or> ?m = HTTP_METHOD_POST \<or> ?m = HTTP_METHOD_PUT \<or> ?m = HTTP_METHOD_DELETE) \<and> rq_body r1 \<noteq> []
          then [(CURLOPT_POST, OLong 1), (CURLOPT_POSTFIELDS, OStr (rq_body r1)),
                (CURLOPT_POSTFIELDSIZE, OLong (int (length (rq_body r1))))]
          else [])) t)"
  have l: "clean (snd (last r1 u)) \<Longrightarrow> clean u \<and> fst (last r1 u)" for r1 u
    unfolding last_def using SetUploadOptions_clean [of env u] by (auto dest: set_options_clean split: if_splits)
  define rest where "rest = (\<lambda>t.
    let r = ta_request t; extraData = rq_extraData r;
        r1 = (if ed_dataType extraData \<noteq> NO_DATA_TYPE \<and> ed_data extraData \<noteq> []
              then if MethodForGet ?m then HandleMethodForGet env r
                   else if MethodForPost ?m then GetRequestBody r else r
              else r)
    in unless_false (set_options env [(CURLOPT_URL, OStr (c_str (rq_url r1)))]
         (snd (SetTraceOptions env (t\<lparr>ta_request := r1\<rparr>)))) (last r1))"
  have r: "clean u \<and> fst (rest u)" if c: "clean (snd (rest u))" for u
  proof -
    obtain r1 where e: "rest u = unless_false (set_options env [(CURLOPT_URL, OStr (c_str (rq_url r1)))]
         (snd (SetTraceOptions env (u\<lparr>ta_request := r1\<rparr>)))) (last r1)"
      unfolding rest_def Let_def by blast
    note q = unless_set_options_clean [of env _ "snd (SetTraceOptions env (u\<lparr>ta_request := r1\<rparr>))" "last r1",
        OF c [unfolded e]]
    have "clean (snd (SetTraceOptions env (u\<lparr>ta_request := r1\<rparr>)))" "fst (rest u)"
      using q l c by (simp_all add: e)
    then show ?thesis
      unfolding SetTraceOptions_def using set_options_clean by fastforce
  qed
  have e: "SetCurlMethod env t =
      unless_false (set_options env (if ?m = HTTP_METHOD_HEAD then [(CURLOPT_NOBODY, OLong 1)] else []) t) rest"
  proof -
    have m: "(\<not> MethodForGet ?m \<and> \<not> MethodForPost ?m) = False"
      using assms(2) by simp
    show ?thesis
      by (simp only: SetCurlMethod_def rest_def last_def Let_def m if_False)
  qed
  note q = unless_set_options_clean [OF assms(1) [unfolded e]]
  show ?thesis
    using q [OF conjunct1 [OF r]] r assms(1) by (simp add: e)
qed

section \<open>The certificate options at the end\<close>

definition multipath :: "curl_env \<Rightarrow> bool" where
  "multipath env \<longleftrightarrow> HTTP_MULTIPATH_CERT_ENABLE (cu_build env) \<and> \<not> WINDOWS_PLATFORM (cu_build env)"

definition or_else :: "'a option \<Rightarrow> 'a option \<Rightarrow> 'a option" where
  "or_else x y = (case x of None \<Rightarrow> y | Some v \<Rightarrow> Some v)"

definition request_pins :: "HttpClientRequest \<Rightarrow> string option" where
  "request_pins r = (if rq_certificatePinning r = [] then None else Some (c_str (rq_certificatePinning r)))"

lemma quiet_last_set: "quiet t t' \<Longrightarrow> opt \<in> watched \<Longrightarrow> last_set t' opt = last_set t opt"
  by (auto simp: quiet_def intro!: adds_last_set)

lemma quiet_clean: "quiet t t' \<Longrightarrow> clean t' \<Longrightarrow> clean t"
  by (simp add: quiet_def)

lemma quiet_request: "quiet t t' \<Longrightarrow> ta_request t' = ta_request t"
  by (simp add: quiet_def)

lemma SSLCert_last_set:
  assumes "clean (snd (SetSSLCertOption env t))"
  shows "clean t" "ta_request (snd (SetSSLCertOption env t)) = ta_request t"
    "last_set (snd (SetSSLCertOption env t)) CURLOPT_PINNEDPUBLICKEY =
      or_else (map_option OStr (config_pins env (ta_request t))) (last_set t CURLOPT_PINNEDPUBLICKEY)"
    "multipath env \<Longrightarrow> last_set (snd (SetSSLCertOption env t)) CURLOPT_SSL_VERIFYPEER =
      Some (OLong (if rq_canSkipCertVerify (ta_request t) then 0 else 1))"
    "multipath env \<Longrightarrow> last_set (snd (SetSSLCertOption env t)) CURLOPT_SSL_VERIFYHOST =
      Some (OLong (if rq_canSkipCertVerify (ta_request t) then 0 else 2))"
proof -
  obtain ps where ps: "clean t" "ta_request (snd (SetSSLCertOption env t)) = ta_request t"
    and o: "ta_options (snd (SetSSLCertOption env t)) =
      ta_options t @ verify_options env t @ pin_options (config_pins env (ta_request t)) @ ps"
    and w: "fst ` set ps \<inter> watched = {}"
    by (rule SSLCert_options [OF assms])
  have n: "map_of (rev ps) opt = None" if "opt \<in> watched" for opt
    using w that by (auto simp: map_of_eq_None_iff)
  show "clean t" "ta_request (snd (SetSSLCertOption env t)) = ta_request t"
    by (fact ps)+
  show "last_set (snd (SetSSLCertOption env t)) CURLOPT_PINNEDPUBLICKEY =
      or_else (map_option OStr (config_pins env (ta_request t))) (last_set t CURLOPT_PINNEDPUBLICKEY)"
    unfolding last_set_more [OF o]
    using n [of CURLOPT_PINNEDPUBLICKEY]
    by (auto simp: watched_def verify_options_def pin_options_def or_else_def map_add_def split: option.split)
  show "last_set (snd (SetSSLCertOption env t)) CURLOPT_SSL_VERIFYPEER =
      Some (OLong (if rq_canSkipCertVerify (ta_request t) then 0 else 1))" if "multipath env"
    unfolding last_set_more [OF o]
    using n [of CURLOPT_SSL_VERIFYPEER] that
    by (auto simp: watched_def verify_options_def pin_options_def multipath_def map_add_def split: option.split)
  show "last_set (snd (SetSSLCertOption env t)) CURLOPT_SSL_VERIFYHOST =
      Some (OLong (if rq_canSkipCertVerify (ta_request t) then 0 else 2))" if "multipath env"
    unfolding last_set_more [OF o]
    using n [of CURLOPT_SSL_VERIFYHOST] that
    by (auto simp: watched_def verify_options_def pin_options_def multipath_def map_add_def split: option.split)
qed

text \<open>The steps of \<open>SetRequestOption\<close> and \<open>SetOtherCurlOption\<close> before and after the certificate options.\<close>

definition after_cert :: "curl_env \<Rightarrow> HttpClientTask \<Rightarrow> HttpClientTask" where
  "after_cert env t = snd (SetIpResolve env (snd (SetDnsCacheOption env (snd (SetMultiPartOption env t)))))"

lemma quiet_after_cert: "quiet t (after_cert env t)"
  unfolding after_cert_def by (meson quiet_SetMultiPartOption quiet_steps quiet_trans)

lemma CertPinner_clean:
  assumes "clean (snd (SetCertPinnerOption env t))"
  shows "clean t" "ta_request (snd (SetCertPinnerOption env t)) = ta_request t"
    "last_set (snd (SetCertPinnerOption env t)) CURLOPT_PINNEDPUBLICKEY =
      or_else (map_option OStr (request_pins (ta_request t))) (last_set t CURLOPT_PINNEDPUBLICKEY)"
proof -
  have e: "SetCertPinnerOption env t = set_options env (pin_options (request_pins (ta_request t))) t"
    by (simp add: CertPinner_options request_pins_def)
  have c: "clean t" "set_options env (pin_options (request_pins (ta_request t))) t =
      (True, t\<lparr>ta_options := ta_options t @ pin_options (request_pins (ta_request t))\<rparr>)"
    using set_options_clean assms [unfolded e] by blast+
  then show "clean t" "ta_request (snd (SetCertPinnerOption env t)) = ta_request t"
    by (simp_all add: e)
  show "last_set (snd (SetCertPinnerOption env t)) CURLOPT_PINNEDPUBLICKEY =
      or_else (map_option OStr (request_pins (ta_request t))) (last_set t CURLOPT_PINNEDPUBLICKEY)"
    unfolding e c(2) snd_conv
    by (cases "request_pins (ta_request t)") (simp_all add: last_set_def pin_options_def or_else_def)
qed

lemma SetRequestOption_clean:
  assumes "clean (snd (SetRequestOption env t))"
  shows "clean t" "fst (SetRequestOption env t)" "ta_request (snd (SetRequestOption env t)) = ta_request t"
    "last_set (snd (SetRequestOption env t)) CURLOPT_PINNEDPUBLICKEY =
      or_else (map_option OStr (config_pins env (ta_request t)))
        (or_else (map_option OStr (request_pins (ta_request t))) (last_set t CURLOPT_PINNEDPUBLICKEY))"
proof -
  define certs where "certs = (\<lambda>t. (True, after_cert env (snd (SetSSLCertOption env (snd (SetDnsOption env
    (snd (SetCertPinnerOption env t))))))))"
  have certs: "clean t" "ta_request (snd (certs t)) = ta_request t"
    "last_set (snd (certs t)) CURLOPT_PINNEDPUBLICKEY =
      or_else (map_option OStr (config_pins env (ta_request t)))
        (or_else (map_option OStr (request_pins (ta_request t))) (last_set t CURLOPT_PINNEDPUBLICKEY))"
    if c: "clean (snd (certs t))" for t
  proof -
    let ?d = "snd (SetDnsOption env (snd (SetCertPinnerOption env t)))" let ?s = "snd (SetSSLCertOption env ?d)"
    have s: "clean ?s"
      using c quiet_clean [OF quiet_after_cert] by (simp add: certs_def)
    note ss = SSLCert_last_set [OF s]
    have p: "clean (snd (SetCertPinnerOption env t))"
      using ss(1) quiet_clean [OF quiet_steps(1)] by blast
    note pp = CertPinner_clean [OF p]
    have d: "quiet (snd (SetCertPinnerOption env t)) ?d"
      by (rule quiet_steps)
    show "clean t"
      by (rule pp)
    show "ta_request (snd (certs t)) = ta_request t"
      using quiet_request [OF quiet_after_cert] ss(2) quiet_request [OF d] pp(2) by (simp add: certs_def)
    have "CURLOPT_PINNEDPUBLICKEY \<in> watched"
      by (simp add: watched_def)
    then show "last_set (snd (certs t)) CURLOPT_PINNEDPUBLICKEY =
      or_else (map_option OStr (config_pins env (ta_request t)))
        (or_else (map_option OStr (request_pins (ta_request t))) (last_set t CURLOPT_PINNEDPUBLICKEY))"
      using quiet_last_set [OF quiet_after_cert] ss(3) quiet_last_set [OF d] pp(2,3) quiet_request [OF d]
      by (simp add: certs_def)
  qed
  define more where "more = (\<lambda>t. if range_refused t then fail_with (HTTP_CURL CURLE_RANGE_ERROR) t
       else unless_false (set_options env
         (range_options t @
          (if rq_dnsOverHttps (ta_request t) \<noteq> [] then [(CURLOPT_DOH_URL, OStr (c_str (rq_dnsOverHttps (ta_request t))))]
           else [])) t) certs)"
  have more: "clean t \<and> (\<exists>u. quiet t u \<and> more t = certs u)" if c: "clean (snd (more t))" for t
  proof -
    let ?ps = "range_options t @ (if rq_dnsOverHttps (ta_request t) \<noteq> []
      then [(CURLOPT_DOH_URL, OStr (c_str (rq_dnsOverHttps (ta_request t))))] else [])"
    have e: "more t = unless_false (set_options env ?ps t) certs"
      using c by (auto simp: more_def split: if_splits)
    note q = unless_set_options_clean [OF c [unfolded e], OF certs(1)]
    have "quiet t (t\<lparr>ta_options := ta_options t @ ?ps\<rparr>)"
      by (auto simp: quiet_def adds_def watched_def range_options_def)
    then show ?thesis
      using q e by (metis)
  qed
  have e: "SetRequestOption env t = unless_false (set_options env
       [(CURLOPT_TIMEOUT_MS, OLong (uint (rq_timeout (ta_request t)))),
        (CURLOPT_CONNECTTIMEOUT_MS, OLong (uint (rq_connectTimeout (ta_request t))))] t) more"
    by (simp only: SetRequestOption_def more_def certs_def after_cert_def Let_def)
  let ?u = "t\<lparr>ta_options := ta_options t @
       [(CURLOPT_TIMEOUT_MS, OLong (uint (rq_timeout (ta_request t)))),
        (CURLOPT_CONNECTTIMEOUT_MS, OLong (uint (rq_connectTimeout (ta_request t))))]\<rparr>"
  note q = unless_set_options_clean [OF assms [unfolded e], OF conjunct1 [OF more]]
  have q2: "SetRequestOption env t = more ?u"
    using q(2) by (simp only: e)
  have "clean (snd (more ?u))"
    using assms by (simp only: q2)
  then obtain v where v: "quiet ?u v" "more ?u = certs v"
    using more by blast
  have "quiet t ?u"
    by (auto simp: quiet_def adds_def watched_def)
  then have tv: "quiet t v"
    using v(1) by (rule quiet_trans)
  have r: "SetRequestOption env t = certs v"
    by (simp only: q2 v(2))
  have c: "clean (snd (certs v))"
    using assms r by simp
  show "clean t"
    by (rule quiet_clean [OF tv certs(1) [OF c]])
  show "fst (SetRequestOption env t)"
    unfolding r by (simp add: certs_def)
  show "ta_request (snd (SetRequestOption env t)) = ta_request t"
    using certs(2) [OF c] quiet_request [OF tv] r by simp
  have "CURLOPT_PINNEDPUBLICKEY \<in> watched"
    by (simp add: watched_def)
  then show "last_set (snd (SetRequestOption env t)) CURLOPT_PINNEDPUBLICKEY =
      or_else (map_option OStr (config_pins env (ta_request t)))
        (or_else (map_option OStr (request_pins (ta_request t))) (last_set t CURLOPT_PINNEDPUBLICKEY))"
    using certs(3) [OF c] quiet_request [OF tv] quiet_last_set [OF tv] r by simp
qed

lemma SetOtherCurlOption_clean:
  assumes "clean (snd (SetOtherCurlOption env t))"
  shows "clean t" "ta_request (snd (SetOtherCurlOption env t)) = ta_request t"
    "last_set (snd (SetOtherCurlOption env t)) CURLOPT_PINNEDPUBLICKEY =
      or_else (map_option OStr (config_pins env (ta_request t))) (last_set t CURLOPT_PINNEDPUBLICKEY)"
    "multipath env \<Longrightarrow> last_set (snd (SetOtherCurlOption env t)) CURLOPT_SSL_VERIFYPEER =
      Some (OLong (if rq_canSkipCertVerify (ta_request t) then 0 else 1))"
    "multipath env \<Longrightarrow> last_set (snd (SetOtherCurlOption env t)) CURLOPT_SSL_VERIFYHOST =
      Some (OLong (if rq_canSkipCertVerify (ta_request t) then 0 else 2))"
proof -
  let ?more = "(if HTTP_CURL_PRINT_VERBOSE (cu_build env) then [(CURLOPT_VERBOSE, OLong 1)] else []) @
    (if \<not> WINDOWS_PLATFORM (cu_build env) then [(CURLOPT_ACCEPT_ENCODING, OStr [])] else [])"
  define certs where "certs = (\<lambda>t. unless_false (set_options env ?more
      (snd (SetIpResolve env (snd (SetDnsCacheOption env (snd (SetSSLCertOption env t)))))))
    (SetSslTypeAndClientEncCert env))"
  have certs: "quiet (snd (SetSSLCertOption env t)) (snd (certs t))" for t
  proof -
    have "quiet (snd (SetSSLCertOption env t))
        (snd (SetIpResolve env (snd (SetDnsCacheOption env (snd (SetSSLCertOption env t))))))"
      by (meson quiet_steps quiet_trans)
    also have "quiet (snd (SetIpResolve env (snd (SetDnsCacheOption env (snd (SetSSLCertOption env t)))))) (snd (certs t))"
      unfolding certs_def
      by (rule quiet_unless_false [OF quiet_set_options quiet_SetSslType]) (auto simp: watched_def)
    finally show ?thesis .
  qed
  have certs_clean: "clean (snd (SetSSLCertOption env t))" "clean t" if "clean (snd (certs t))" for t
    using quiet_clean [OF certs that] SSLCert_last_set(1) by blast+
  define range where "range = (\<lambda>t. if range_refused t then fail_with (HTTP_CURL CURLE_RANGE_ERROR) t
    else unless_false (set_options env (range_options t) t) certs)"
  have rng: "clean t \<and> (\<exists>u. quiet t u \<and> range t = certs u)" if c: "clean (snd (range t))" for t
  proof -
    have e: "range t = unless_false (set_options env (range_options t) t) certs"
      using c by (auto simp: range_def split: if_splits)
    note q = unless_set_options_clean [OF c [unfolded e], OF certs_clean(2)]
    have "quiet t (t\<lparr>ta_options := ta_options t @ range_options t\<rparr>)"
      by (auto simp: quiet_def adds_def watched_def range_options_def)
    then show ?thesis
      using q e by metis
  qed
  have e: "SetOtherCurlOption env t =
      unless_false (set_options env (proxy_options env t) t) (\<lambda>t. range (snd (SetTlsOption env t)))"
    by (simp only: SetOtherCurlOption_def range_def certs_def Let_def)
  have tls: "clean u" if "clean (snd (range (snd (SetTlsOption env u))))" for u
    using rng [OF that] quiet_clean [OF quiet_SetTlsOption] by blast
  note q = unless_set_options_clean [OF assms [unfolded e], OF tls]
  let ?u = "t\<lparr>ta_options := ta_options t @ proxy_options env t\<rparr>"
  have q2: "SetOtherCurlOption env t = range (snd (SetTlsOption env ?u))"
    using q(2) by (simp only: e)
  obtain v where v: "quiet (snd (SetTlsOption env ?u)) v" "range (snd (SetTlsOption env ?u)) = certs v"
    using rng assms unfolding q2 by blast
  have "quiet t ?u"
    by (auto simp: quiet_def adds_def watched_def proxy_options_def split: prod.splits if_splits)
  then have tv: "quiet t v"
    using v(1) quiet_SetTlsOption by (meson quiet_trans)
  have eq: "SetOtherCurlOption env t = certs v"
    by (simp only: q2 v(2))
  have s: "clean (snd (SetSSLCertOption env v))"
    using assms eq certs_clean(1) by simp
  note ss = SSLCert_last_set [OF s]
  have w: "CURLOPT_PINNEDPUBLICKEY \<in> watched" "CURLOPT_SSL_VERIFYPEER \<in> watched" "CURLOPT_SSL_VERIFYHOST \<in> watched"
    by (simp_all add: watched_def)
  show "clean t"
    by (rule quiet_clean [OF tv ss(1)])
  show "ta_request (snd (SetOtherCurlOption env t)) = ta_request t"
    unfolding eq quiet_request [OF certs] ss(2) by (rule quiet_request [OF tv])
  show "last_set (snd (SetOtherCurlOption env t)) CURLOPT_PINNEDPUBLICKEY =
      or_else (map_option OStr (config_pins env (ta_request t))) (last_set t CURLOPT_PINNEDPUBLICKEY)"
    unfolding eq quiet_last_set [OF certs w(1)] ss(3) quiet_request [OF tv] quiet_last_set [OF tv w(1)] ..
  show "last_set (snd (SetOtherCurlOption env t)) CURLOPT_SSL_VERIFYPEER =
      Some (OLong (if rq_canSkipCertVerify (ta_request t) then 0 else 1))" if "multipath env"
    unfolding eq quiet_last_set [OF certs w(2)] ss(4) [OF that] quiet_request [OF tv] ..
  show "last_set (snd (SetOtherCurlOption env t)) CURLOPT_SSL_VERIFYHOST =
      Some (OLong (if rq_canSkipCertVerify (ta_request t) then 0 else 2))" if "multipath env"
    unfolding eq quiet_last_set [OF certs w(3)] ss(5) [OF that] quiet_request [OF tv] ..
qed

lemma or_else_simps [simp]: "or_else None y = y" "or_else (Some x) y = Some x" "or_else z None = z"
  "or_else z (or_else z y) = or_else z y"
  by (auto simp: or_else_def split: option.split)

text \<open>\<open>SetCurlOptions\<close> in nested parts.\<close>

definition other_part :: "curl_env \<Rightarrow> HttpClientTask \<Rightarrow> bool \<times> HttpClientTask" where
  "other_part env t = unless_false (SetOtherCurlOption env t) (SetAuthOptions env)"

definition request_part :: "curl_env \<Rightarrow> HttpClientTask \<Rightarrow> bool \<times> HttpClientTask" where
  "request_part env t = unless_false (SetRequestOption env t) (other_part env)"

definition version_part :: "curl_env \<Rightarrow> HttpClientTask \<Rightarrow> bool \<times> HttpClientTask" where
  "version_part env t = unless_false (set_options env
     [(CURLOPT_FOLLOWLOCATION, OLong 1), (CURLOPT_COOKIEFILE, OStr []), (CURLOPT_NOSIGNAL, OLong 1),
      (CURLOPT_HTTP_VERSION, OLong (uint (Task_GetHttpVersion env (rq_protocol (ta_request t)))))] t) (request_part env)"

definition transfer_part :: "curl_env \<Rightarrow> HttpClientTask \<Rightarrow> bool \<times> HttpClientTask" where
  "transfer_part env t = unless_false (SetCallbackFunctions env t) (version_part env)"

definition method_part :: "curl_env \<Rightarrow> HttpClientTask \<Rightarrow> bool \<times> HttpClientTask" where
  "method_part env t = unless_false (SetCurlMethod env t) (\<lambda>t.
     if rq_usingCache (ta_request t) then (False, t) else transfer_part env t)"

lemma SetCurlOptions_parts: "SetCurlOptions env t = unless_false (SetHttpHeaders env t) (method_part env)"
  unfolding SetCurlOptions_def
  by (simp only: method_part_def [abs_def] transfer_part_def [abs_def] version_part_def [abs_def]
      request_part_def [abs_def] other_part_def [abs_def])

lemma other_part_quiet: "quiet (snd (SetOtherCurlOption env t)) (snd (other_part env t))"
  unfolding other_part_def by (rule quiet_unless_false [OF quiet_refl quiet_steps(4)])

lemma other_part_clean: "clean (snd (other_part env t)) \<Longrightarrow> clean t"
  by (rule SetOtherCurlOption_clean(1) [OF quiet_clean [OF other_part_quiet]])

lemma request_part_clean:
  assumes "clean (snd (request_part env t))"
  shows "clean t" "request_part env t = other_part env (snd (SetRequestOption env t))" "clean (snd (SetRequestOption env t))"
proof -
  note q = unless_false_clean [OF assms [unfolded request_part_def] SetRequestOption_clean(2) other_part_clean [of env]]
  show "clean t" "request_part env t = other_part env (snd (SetRequestOption env t))" "clean (snd (SetRequestOption env t))"
    using SetRequestOption_clean(1) [OF q(1)] q by (simp_all add: request_part_def)
qed

lemma version_part_clean:
  assumes "clean (snd (version_part env t))"
  shows "clean t \<and> (\<exists>u. quiet t u \<and> version_part env t = request_part env u)"
proof -
  note q = unless_set_options_clean [OF assms [unfolded version_part_def] request_part_clean(1) [of env]]
  let ?u = "t\<lparr>ta_options := ta_options t @ [(CURLOPT_FOLLOWLOCATION, OLong 1), (CURLOPT_COOKIEFILE, OStr []),
    (CURLOPT_NOSIGNAL, OLong 1),
    (CURLOPT_HTTP_VERSION, OLong (uint (Task_GetHttpVersion env (rq_protocol (ta_request t)))))]\<rparr>"
  have "quiet t ?u"
    by (auto simp: quiet_def adds_def watched_def)
  moreover have "version_part env t = request_part env ?u"
    unfolding version_part_def by (rule q(2))
  ultimately show ?thesis
    using q(1) by blast
qed

lemma transfer_part_clean:
  assumes "clean (snd (transfer_part env t))"
  shows "clean t \<and> (\<exists>u. quiet t u \<and> transfer_part env t = request_part env u)"
proof -
  have prev: "clean u" if "clean (snd (version_part env u))" for u
    using version_part_clean [OF that] by blast
  have fst: "fst (SetCallbackFunctions env t)" if "clean (snd (SetCallbackFunctions env t))"
    using that set_options_clean unfolding SetCallbackFunctions_def by fastforce
  note q = unless_false_clean [OF assms [unfolded transfer_part_def] fst prev]
  have e: "transfer_part env t = version_part env (snd (SetCallbackFunctions env t))"
    unfolding transfer_part_def by (rule q(2))
  have "clean (snd (version_part env (snd (SetCallbackFunctions env t))))"
    using assms by (simp only: e)
  then obtain u where "quiet (snd (SetCallbackFunctions env t)) u" "transfer_part env t = request_part env u"
    using version_part_clean unfolding e by blast
  then show ?thesis
    using quiet_steps(5) [of t env] q(1) quiet_clean by (meson quiet_trans)
qed

lemma SetCurlOptions_transfer:
  assumes "clean (snd (SetCurlOptions env t))" "\<not> rq_usingCache (ta_request t)"
    and m: "MethodForGet (rq_method (ta_request t)) \<or> MethodForPost (rq_method (ta_request t))"
  obtains u where "SetCurlOptions env t = transfer_part env u" "settings (ta_request u) = settings (ta_request t)"
    "last_set u CURLOPT_PINNEDPUBLICKEY = last_set t CURLOPT_PINNEDPUBLICKEY"
proof -
  let ?t1 = "snd (SetHttpHeaders env t)" let ?t2 = "snd (SetCurlMethod env ?t1)"
  have h: "quiet t ?t1"
    by (rule quiet_steps)
  have m1: "MethodForGet (rq_method (ta_request ?t1)) \<or> MethodForPost (rq_method (ta_request ?t1))"
    using m quiet_request [OF h] by simp
  have "fst (SetHttpHeaders env t)"
  proof (rule ccontr)
    assume f: "\<not> fst (SetHttpHeaders env t)"
    then have "clean (snd (SetHttpHeaders env t))"
      using assms(1) by (simp add: SetCurlOptions_parts unless_false_def)
    then show False
      using f set_options_clean unfolding SetHttpHeaders_def by fastforce
  qed
  then have e1: "SetCurlOptions env t = method_part env ?t1"
    by (simp add: SetCurlOptions_parts unless_false_def)
  have c: "clean (snd (method_part env ?t1))"
    using assms(1) by (simp only: e1)
  have st: "settings (ta_request ?t2) = settings (ta_request t)" "adds method_options ?t1 ?t2"
    using SetCurlMethod_adds [of ?t1 env] quiet_request [OF h] by simp_all
  have "clean ?t2"
    using c transfer_part_clean [of env ?t2] unfolding method_part_def unless_false_def by (auto split: if_splits)
  then have "fst (SetCurlMethod env ?t1)"
    using SetCurlMethod_clean [of env ?t1] m1 by blast
  moreover have "\<not> rq_usingCache (ta_request ?t2)"
    using settings_fields(1) [OF st(1)] assms(2) by simp
  ultimately have e2: "SetCurlOptions env t = transfer_part env ?t2"
    unfolding e1 method_part_def unless_false_def by simp
  have "last_set ?t2 CURLOPT_PINNEDPUBLICKEY = last_set ?t1 CURLOPT_PINNEDPUBLICKEY"
    using adds_last_set [OF st(2), of CURLOPT_PINNEDPUBLICKEY] by (simp add: method_options_def)
  also have "\<dots> = last_set t CURLOPT_PINNEDPUBLICKEY"
    using quiet_last_set [OF h, of CURLOPT_PINNEDPUBLICKEY] by (simp add: watched_def)
  finally show thesis
    using that [OF e2 st(1)] by blast
qed

lemma SetCurlOptions_certificates:
  assumes "clean (snd (SetCurlOptions env t))" "\<not> rq_usingCache (ta_request t)"
    and m: "MethodForGet (rq_method (ta_request t)) \<or> MethodForPost (rq_method (ta_request t))"
    and "ta_options t = []"
  shows "settings (ta_request (snd (SetCurlOptions env t))) = settings (ta_request t)"
    "last_set (snd (SetCurlOptions env t)) CURLOPT_PINNEDPUBLICKEY = map_option OStr
      (or_else (config_pins env (ta_request (snd (SetCurlOptions env t)))) (request_pins (ta_request t)))"
    "multipath env \<Longrightarrow> last_set (snd (SetCurlOptions env t)) CURLOPT_SSL_VERIFYPEER =
      Some (OLong (if rq_canSkipCertVerify (ta_request t) then 0 else 1))"
    "multipath env \<Longrightarrow> last_set (snd (SetCurlOptions env t)) CURLOPT_SSL_VERIFYHOST =
      Some (OLong (if rq_canSkipCertVerify (ta_request t) then 0 else 2))"
proof -
  obtain v where v: "SetCurlOptions env t = transfer_part env v" "settings (ta_request v) = settings (ta_request t)"
    "last_set v CURLOPT_PINNEDPUBLICKEY = last_set t CURLOPT_PINNEDPUBLICKEY"
    by (rule SetCurlOptions_transfer [OF assms(1-3)])
  have "clean (snd (transfer_part env v))"
    using assms(1) by (simp only: v(1))
  then obtain u where u: "quiet v u" "transfer_part env v = request_part env u"
    using transfer_part_clean by blast
  let ?t3 = "snd (SetRequestOption env u)" let ?t4 = "snd (SetOtherCurlOption env ?t3)"
  have "clean (snd (request_part env u))"
    using assms(1) by (simp only: v(1) u(2))
  note rr = request_part_clean [OF this]
  note ro = SetRequestOption_clean [OF rr(3)]
  have fin: "SetCurlOptions env t = other_part env ?t3"
    by (simp only: v(1) u(2) rr(2))
  have "clean (snd (other_part env ?t3))"
    using assms(1) by (simp only: fin)
  note oo = SetOtherCurlOption_clean [OF quiet_clean [OF other_part_quiet this]]
  have w: "CURLOPT_PINNEDPUBLICKEY \<in> watched" "CURLOPT_SSL_VERIFYPEER \<in> watched" "CURLOPT_SSL_VERIFYHOST \<in> watched"
    by (simp_all add: watched_def)
  have r: "ta_request ?t3 = ta_request v" "ta_request (snd (SetCurlOptions env t)) = ta_request v"
    using ro(3) quiet_request [OF u(1)] quiet_request [OF other_part_quiet [of env ?t3]] oo(2) by (simp_all add: fin)
  have none: "last_set u CURLOPT_PINNEDPUBLICKEY = None"
    using quiet_last_set [OF u(1) w(1)] v(3) by (simp add: last_set_def assms(4))
  have pins: "request_pins (ta_request v) = request_pins (ta_request t)"
    using settings_fields(3) [OF v(2)] by (simp add: request_pins_def)
  have skip: "rq_canSkipCertVerify (ta_request ?t3) = rq_canSkipCertVerify (ta_request t)"
    using settings_fields(2) [OF v(2)] r(1) by simp
  show "settings (ta_request (snd (SetCurlOptions env t))) = settings (ta_request t)"
    using r v(2) by simp
  show "last_set (snd (SetCurlOptions env t)) CURLOPT_PINNEDPUBLICKEY = map_option OStr
      (or_else (config_pins env (ta_request (snd (SetCurlOptions env t)))) (request_pins (ta_request t)))"
    unfolding r(2) unfolding fin quiet_last_set [OF other_part_quiet w(1)] oo(3) ro(4) r(1) quiet_request [OF u(1)] none
    using pins by (cases "config_pins env (ta_request v)") simp_all
  show "last_set (snd (SetCurlOptions env t)) CURLOPT_SSL_VERIFYPEER =
      Some (OLong (if rq_canSkipCertVerify (ta_request t) then 0 else 1))" if "multipath env"
    unfolding fin quiet_last_set [OF other_part_quiet w(2)] oo(4) [OF that] skip ..
  show "last_set (snd (SetCurlOptions env t)) CURLOPT_SSL_VERIFYHOST =
      Some (OLong (if rq_canSkipCertVerify (ta_request t) then 0 else 2))" if "multipath env"
    unfolding fin quiet_last_set [OF other_part_quiet w(3)] oo(5) [OF that] skip ..
qed

section \<open>Encoding of URL parameters\<close>

definition hex_value :: "char \<Rightarrow> nat option" where
  "hex_value c = (let n = of_char c :: nat
     in if 48 \<le> n \<and> n \<le> 57 then Some (n - 48) else if 65 \<le> n \<and> n \<le> 70 then Some (n - 55) else None)"

text \<open>A decoder of percent-encoded text, as the reference.\<close>

fun percent_decode :: "string \<Rightarrow> string option" where
  "percent_decode [] = Some []"
| "percent_decode (c # s) =
     (if c = CHR ''%''
      then case s of
          h # l # rest \<Rightarrow>
            (case (hex_value h, hex_value l) of
               (Some a, Some b) \<Rightarrow> map_option ((#) (char_of (16 * a + b))) (percent_decode rest)
             | _ \<Rightarrow> None)
        | _ \<Rightarrow> None
      else map_option ((#) c) (percent_decode s))"

lemma hex_value_upper: "d < 16 \<Longrightarrow> hex_value (hex_upper d) = Some d"
  by (simp add: hex_value_def hex_upper_def)

lemma unat_of_char: "unat (of_char ch :: byte) = of_char ch"
  by (simp add: of_char_def unat_of_nat)

lemma percent_decode_percent:
  "percent_decode (percent (of_char ch) @ rest) = map_option ((#) ch) (percent_decode rest)"
proof -
  let ?n = "unat (of_char ch :: byte)"
  have n: "?n = of_char ch"
    by (rule unat_of_char)
  then have "?n < 256"
    by simp
  then have "?n div 16 < 16" "?n mod 16 < 16"
    by auto
  then show ?thesis
    by (simp add: percent_def hex_value_upper) (simp add: n)
qed

lemma percent_decode_unreserved:
  "IsUnReserved (of_char ch) \<Longrightarrow> percent_decode (ch # rest) = map_option ((#) ch) (percent_decode rest)"
  by (auto simp: IsUnReserved_def)

definition encode_char :: "char \<Rightarrow> string" where
  "encode_char ch = (if IsUnReserved (of_char ch) then [ch] else percent (of_char ch))"

lemma EncodeUrlParam_loop_eq: "EncodeUrlParam_loop s out = out @ concat (map encode_char s)"
  by (induction s arbitrary: out) (simp_all add: encode_char_def)

lemma percent_decode_encode: "percent_decode (concat (map encode_char s)) = Some s"
  by (induction s)
    (simp_all add: encode_char_def percent_decode_unreserved percent_decode_percent del: percent_decode.simps(2))

lemma hex_upper_unreserved: "d < 16 \<Longrightarrow> IsUnReserved (of_char (hex_upper d))"
  by (auto simp: hex_upper_def IsUnReserved_def word_le_nat_alt unat_of_char)

lemma encode_char_shape: "c \<in> set (encode_char ch) \<Longrightarrow> IsUnReserved (of_char c) \<or> c = CHR ''%''"
proof -
  assume c: "c \<in> set (encode_char ch)"
  have "unat (of_char ch :: byte) < 256"
    by (simp add: unat_of_char)
  then have "unat (of_char ch :: byte) div 16 < 16" "unat (of_char ch :: byte) mod 16 < 16"
    by auto
  then show ?thesis
    using c by (auto simp: encode_char_def percent_def hex_upper_unreserved split: if_splits)
qed

section \<open>When curl accepts every option\<close>

lemma all_ok_errors:
  assumes "all_ok env"
  shows "ta_error (snd (SetCertPinnerOption env t)) = ta_error t" "ta_error (snd (SetDnsOption env t)) = ta_error t"
    "ta_error (snd (SetSSLCertOption env t)) = ta_error t" "ta_error (snd (SetDnsCacheOption env t)) = ta_error t"
    "ta_error (snd (SetIpResolve env t)) = ta_error t" "ta_error (snd (SetTlsOption env t)) = ta_error t"
    "ta_error (snd (SetSslTypeAndClientEncCert env t)) = ta_error t" "ta_error (snd (SetAuthOptions env t)) = ta_error t"
    "rq_multiFormDataList (ta_request t) = [] \<Longrightarrow> SetMultiPartOption env t = (True, t)"
  using assms
  by (simp_all add: SetCertPinnerOption_def SetDnsOption_def SetSSLCertOption_def SetDnsCacheOption_def SetIpResolve_def
      SetTlsOption_def SetSslTypeAndClientEncCert_def SetAuthOptions_def SetMultiPartOption_def ServerSSLCert_options
      set_options_ok unless_false_def)

lemma CertPinner_request [simp]: "ta_request (snd (SetCertPinnerOption env t)) = ta_request t"
  by (simp add: SetCertPinnerOption_def)

lemma SSLCert_request [simp]: "ta_request (snd (SetSSLCertOption env t)) = ta_request t"
  by (simp add: SetSSLCertOption_def ServerSSLCert_options unless_false_def)

lemmas quiet_requests [simp] =
  quiet_request [OF quiet_steps(1)] quiet_request [OF quiet_steps(2)] quiet_request [OF quiet_steps(3)]
  quiet_request [OF quiet_SetTlsOption]

lemma all_ok_request:
  assumes "all_ok env" "rq_method (ta_request t) \<noteq> HTTP_METHOD_PUT" "rq_multiFormDataList (ta_request t) = []"
  shows "fst (SetRequestOption env t) \<and> ta_error (snd (SetRequestOption env t)) = ta_error t \<and>
    ta_request (snd (SetRequestOption env t)) = ta_request t"
  using assms
  by (simp add: SetRequestOption_def unless_false_def set_options_ok range_refused_def all_ok_errors)

lemma all_ok_other:
  assumes "all_ok env" "rq_method (ta_request t) \<noteq> HTTP_METHOD_PUT"
  shows "ta_error (snd (SetOtherCurlOption env t)) = ta_error t"
  using assms
  by (simp add: SetOtherCurlOption_def unless_false_def set_options_ok range_refused_def all_ok_errors)

lemma all_ok_method:
  assumes "all_ok env" "MethodForGet (rq_method (ta_request t))" "ed_dataType (rq_extraData (ta_request t)) = NO_DATA_TYPE"
    "ta_type t = TASK_DEFAULT"
  shows "fst (SetCurlMethod env t) \<and> ta_error (snd (SetCurlMethod env t)) = ta_error t \<and>
    ta_request (snd (SetCurlMethod env t)) = ta_request t"
  using assms
  by (simp add: SetCurlMethod_def SetTraceOptions_def unless_false_def set_options_ok)

lemma all_ok_clean:
  assumes "all_ok env" "MethodForGet (rq_method r)" "ed_dataType (rq_extraData r) = NO_DATA_TYPE"
    "rq_multiFormDataList r = []" "\<not> rq_usingCache r"
  shows "er_errorCode (ta_error (new_HttpClientTask env i r TASK_DEFAULT path)) = HTTP_NONE_ERR"
proof -
  have m: "rq_method r \<noteq> HTTP_METHOD_PUT"
    using assms(2) by (auto simp: MethodForGet_def HTTP_METHOD_PUT_def HTTP_METHOD_HEAD_def HTTP_METHOD_OPTIONS_def
        HTTP_METHOD_TRACE_def HTTP_METHOD_GET_def HTTP_METHOD_CONNECT_def)
  have "ta_error (snd (SetCurlOptions env t)) = ta_error t" if r: "ta_request t = r" "ta_type t = TASK_DEFAULT" for t
  proof -
    obtain t1 where h: "SetHttpHeaders env t = (True, t1)" "ta_error t1 = ta_error t" "ta_request t1 = r"
      "ta_type t1 = TASK_DEFAULT"
      using r by (auto simp: SetHttpHeaders_def set_options_ok [OF assms(1)])
    note me = all_ok_method [OF assms(1), of t1, unfolded h, OF assms(2,3) refl]
    show ?thesis
      unfolding SetCurlOptions_parts h(1) unless_false_def method_part_def transfer_part_def version_part_def
        request_part_def other_part_def
      using me h assms(5) all_ok_request [OF assms(1)] all_ok_other [OF assms(1)] m assms(4)
      by (simp add: SetCallbackFunctions_def set_options_ok [OF assms(1)] all_ok_errors(8) [OF assms(1)])
  qed
  then show ?thesis
    by (simp add: new_HttpClientTask_def new_HttpClientError_def)
qed

section \<open>Samples\<close>

definition sample_consts :: curl_consts where
  "sample_consts = \<lparr>CURL_HTTP_VERSION_3 = 30, CURL_HTTP_VERSION_2_0 = 3, CURL_HTTP_VERSION_1_1 = 2,
     CURL_HTTP_VERSION_NONE = 0, CURL_SSLVERSION_DEFAULT = 0, CURL_SSLVERSION_TLSv1_0 = 4, CURL_SSLVERSION_TLSv1_1 = 5,
     CURL_SSLVERSION_TLSv1_2 = 6, CURL_SSLVERSION_TLSv1_3 = 7, CURL_SSLVERSION_MAX_TLSv1_0 = 0x40000,
     CURL_SSLVERSION_MAX_TLSv1_1 = 0x50000, CURL_SSLVERSION_MAX_TLSv1_2 = 0x60000, CURL_SSLVERSION_MAX_TLSv1_3 = 0x70000,
     CURL_SSLVERSION_TLCPv1_1 = 8, CURL_IPRESOLVE_V4 = 1, CURL_IPRESOLVE_V6 = 2, CURLAUTH_ANY = -17, CURLAUTH_BASIC = 1,
     CURLAUTH_NTLM = 8, CURLAUTH_DIGEST = 2, CURLPROXY_HTTP = 0, CURLPROXY_HTTPS = 2\<rparr>"

text \<open>curl accepts every option; the configuration pins one key for every host.\<close>

definition sample_env :: curl_env where
  "sample_env = \<lparr>cu_build = \<lparr>HTTP_MULTIPATH_CERT_ENABLE = True, WINDOWS_PLATFORM = False, HAS_NETMANAGER_BASE = True,
       HTTP_CURL_PRINT_VERBOSE = False\<rparr>,
     cu_const = sample_consts, cu_setopt = (\<lambda>opt v. CURLE_OK), cu_mime_init = True, cu_mime = (\<lambda>c. CURLE_OK),
     cu_openssl = True, cu_default_proxy = ([], 0, []), cu_pin_open = (\<lambda>h. False),
     cu_pin_set = (\<lambda>h. (0, ''sha256//A'')), cu_trust_anchors = (\<lambda>h. []), cu_trust_user0 = False,
     cu_trust_userca = False, cu_uid = 0, cu_access = (\<lambda>p. True), cu_ipv6 = True, cu_ipv4 = True,
     cu_realpath = Some, cu_fopen = (\<lambda>p. Some 0), cu_read_file = (\<lambda>p. None), cu_parse = (\<lambda>s. None)\<rparr>"

lemma sample_env_ok: "all_ok sample_env"
  by (simp add: all_ok_def sample_env_def)

section \<open>Properties\<close>





text \<open>
  Percent-encoding of a URL parameter can be undone: decoding the result gives the parameter up to its
  first NUL. The result has only unreserved characters and percent signs, so no separator of the query.
\<close>

lemma EncodeUrlParam_roundtrip:
  "percent_decode (snd (EncodeUrlParam s)) = Some (c_str s) \<and>
   set (snd (EncodeUrlParam s)) \<subseteq> {c. IsUnReserved (of_char c)} \<union> {CHR ''%''}"
proof -
  have "snd (EncodeUrlParam s) = concat (map encode_char (c_str s))"
    by (simp add: EncodeUrlParam_def EncodeUrlParam_loop_eq)
  then show ?thesis
    using encode_char_shape by (auto simp: percent_decode_encode)
qed

end
