(* ===== verification/Http_Interceptor.thy ===== *)
theory Http_Interceptor
  imports C_Api_Types "HOL-Library.Monad_Syntax"
begin

text \<open>
  The interceptors of HTTP packets: the manager
  (\<open>frameworks/native/http_interceptor/http_interceptor_mgr.cpp\<close>), the packets
  (\<open>http_interceptor_type.cpp\<close>) and the C interface
  (\<open>interfaces/kits/c/http_interceptor/src/http_interceptor.cpp\<close>).

  An interceptor is an object of the client: the manager keeps pointers (numbers) to it, and \<open>im_heap\<close>
  is what they point to. The code of a handler is a parameter that may depend on and change a state of
  its own; it does not call the manager. A buffer holds the bytes before its terminator; copying more
  bytes than it holds is \<open>None\<close>. Read-only interceptors run later, on another thread: the manager records
  the job and \<open>run_read_job\<close> is what the thread does. Timing figures, doubles that are only copied, are
  left out.
\<close>

section \<open>Packets\<close>

record Http_Buffer =
  hb_buffer :: "string option"
  hb_length :: u32

text \<open>A \<open>curl_slist\<close>; its elements may have a null \<open>data\<close>.\<close>

type_synonym curl_slist = "string option list"

record OH_Http_Interceptor_Request =
  ir_url :: Http_Buffer
  ir_method :: Http_Buffer
  ir_headers :: curl_slist
  ir_body :: Http_Buffer

record OH_Http_Interceptor_Response =
  ip_body :: Http_Buffer
  ip_responseCode :: nat
  ip_headers :: curl_slist

datatype OH_Interceptor_Stage = OH_STAGE_REQUEST | OH_STAGE_RESPONSE
datatype OH_Interceptor_Type = OH_TYPE_READ_ONLY | OH_TYPE_MODIFY_NETWORK_KIT
datatype OH_Interceptor_Result = OH_CONTINUE | OH_ABORT

record OH_Http_Interceptor =
  in_groupId :: int
  in_stage :: OH_Interceptor_Stage
  in_type :: OH_Interceptor_Type
  in_handler :: "nat option"
  in_enabled :: int

definition InitHttpBuffer :: Http_Buffer where
  "InitHttpBuffer = \<lparr>hb_buffer = None, hb_length = 0\<rparr>"

definition DeepCopyBuffer :: "bool \<Rightarrow> Http_Buffer \<Rightarrow> Http_Buffer \<Rightarrow> Http_Buffer option" where
  "DeepCopyBuffer alloc dst src =
     (case hb_buffer src of
        None \<Rightarrow> Some dst
      | Some b \<Rightarrow>
          if hb_length src = 0 then Some dst
          else if \<not> alloc then Some \<lparr>hb_buffer = None, hb_length = 0\<rparr>
          else if length b < unat (hb_length src) then None
          else Some \<lparr>hb_buffer = Some (take (unat (hb_length src)) b), hb_length = hb_length src\<rparr>)"

text \<open>\<open>alloc\<close>: whether \<open>curl_slist_append\<close> gets memory.\<close>

fun DeepCopyHeaders_loop :: "bool \<Rightarrow> curl_slist \<Rightarrow> curl_slist \<Rightarrow> curl_slist" where
  "DeepCopyHeaders_loop alloc dst [] = dst"
| "DeepCopyHeaders_loop alloc dst (None # tmp) = DeepCopyHeaders_loop alloc dst tmp"
| "DeepCopyHeaders_loop alloc dst (Some s # tmp) =
     DeepCopyHeaders_loop alloc (if alloc then dst @ [Some s] else []) tmp"

definition DeepCopyHeaders :: "bool \<Rightarrow> curl_slist \<Rightarrow> curl_slist" where
  "DeepCopyHeaders alloc src = DeepCopyHeaders_loop alloc [] src"

text \<open>The outcomes of the allocations of one pass over the interceptors.\<close>

record packet_memory =
  me_read :: bool
  me_readReq :: bool
  me_tmp :: bool
  me_buffer :: bool
  me_slist :: bool

definition CreateHttpInterceptorRequest :: "bool \<Rightarrow> OH_Http_Interceptor_Request option" where
  "CreateHttpInterceptorRequest alloc =
     (if \<not> alloc then None
      else Some \<lparr>ir_url = InitHttpBuffer, ir_method = InitHttpBuffer, ir_headers = [], ir_body = InitHttpBuffer\<rparr>)"

definition CreateHttpInterceptorResponse :: "bool \<Rightarrow> OH_Http_Interceptor_Response option" where
  "CreateHttpInterceptorResponse alloc =
     (if \<not> alloc then None else Some \<lparr>ip_body = InitHttpBuffer, ip_responseCode = 200, ip_headers = []\<rparr>)"

definition CopyHttpInterceRequest ::
  "packet_memory \<Rightarrow> OH_Http_Interceptor_Request \<Rightarrow> OH_Http_Interceptor_Request \<Rightarrow> OH_Http_Interceptor_Request option" where
  "CopyHttpInterceRequest mem dst src = do {
     url \<leftarrow> DeepCopyBuffer (me_buffer mem) (ir_url dst) (ir_url src);
     method \<leftarrow> DeepCopyBuffer (me_buffer mem) (ir_method dst) (ir_method src);
     body \<leftarrow> DeepCopyBuffer (me_buffer mem) (ir_body dst) (ir_body src);
     Some (dst\<lparr>ir_url := url, ir_method := method, ir_body := body,
               ir_headers := DeepCopyHeaders (me_slist mem) (ir_headers src)\<rparr>)
   }"

definition CopyHttpInterceResponse ::
  "packet_memory \<Rightarrow> OH_Http_Interceptor_Response \<Rightarrow> OH_Http_Interceptor_Response \<Rightarrow> OH_Http_Interceptor_Response option" where
  "CopyHttpInterceResponse mem dst src = do {
     body \<leftarrow> DeepCopyBuffer (me_buffer mem) (ip_body dst) (ip_body src);
     Some (dst\<lparr>ip_body := body, ip_responseCode := ip_responseCode src,
               ip_headers := DeepCopyHeaders (me_slist mem) (ip_headers src)\<rparr>)
   }"

text \<open>Copying into a fresh packet; a packet that cannot be allocated is null and stays so.\<close>

definition fresh_request_copy ::
  "packet_memory \<Rightarrow> bool \<Rightarrow> OH_Http_Interceptor_Request \<Rightarrow> OH_Http_Interceptor_Request option option" where
  "fresh_request_copy mem alloc src =
     (case CreateHttpInterceptorRequest alloc of
        None \<Rightarrow> Some None
      | Some dst \<Rightarrow> map_option Some (CopyHttpInterceRequest mem dst src))"

definition fresh_response_copy ::
  "packet_memory \<Rightarrow> bool \<Rightarrow> OH_Http_Interceptor_Response \<Rightarrow> OH_Http_Interceptor_Response option option" where
  "fresh_response_copy mem alloc src =
     (case CreateHttpInterceptorResponse alloc of
        None \<Rightarrow> Some None
      | Some dst \<Rightarrow> map_option Some (CopyHttpInterceResponse mem dst src))"

section \<open>The manager\<close>

datatype read_job =
    Read_request OH_Http_Interceptor_Request
  | Read_response OH_Http_Interceptor_Response "OH_Http_Interceptor_Request option"

record HttpInterceptorMgr =
  im_heap :: "nat \<Rightarrow> OH_Http_Interceptor"
  im_request :: "nat list"
  im_response :: "nat list"
  im_jobs :: "read_job list"

text \<open>
  A handler gets the packets (a null pointer is \<open>None\<close>) and returns its own state, its result, the
  packets as it leaves them and the flag it sets.
\<close>

type_synonym 's handlers =
  "nat \<Rightarrow> 's \<Rightarrow> OH_Http_Interceptor_Request option \<Rightarrow> OH_Http_Interceptor_Response option \<Rightarrow>
   's \<times> OH_Interceptor_Result \<times> OH_Http_Interceptor_Request \<times> OH_Http_Interceptor_Response \<times> int"

definition new_HttpInterceptorMgr :: "(nat \<Rightarrow> OH_Http_Interceptor) \<Rightarrow> HttpInterceptorMgr" where
  "new_HttpInterceptorMgr heap = \<lparr>im_heap = heap, im_request = [], im_response = [], im_jobs = []\<rparr>"

definition AddInterceptor :: "HttpInterceptorMgr \<Rightarrow> nat option \<Rightarrow> Http_ErrCode \<times> HttpInterceptorMgr" where
  "AddInterceptor m interceptor =
     (case interceptor of
        None \<Rightarrow> (OH_HTTP_PARAMETER_ERROR, m)
      | Some p \<Rightarrow>
          if in_stage (im_heap m p) = OH_STAGE_REQUEST
          then (OH_HTTP_RESULT_OK, if p \<in> set (im_request m) then m else m\<lparr>im_request := im_request m @ [p]\<rparr>)
          else (OH_HTTP_RESULT_OK, if p \<in> set (im_response m) then m else m\<lparr>im_response := im_response m @ [p]\<rparr>))"

definition DeleteInterceptor :: "HttpInterceptorMgr \<Rightarrow> nat option \<Rightarrow> Http_ErrCode \<times> HttpInterceptorMgr" where
  "DeleteInterceptor m interceptor =
     (case interceptor of
        None \<Rightarrow> (OH_HTTP_PARAMETER_ERROR, m)
      | Some p \<Rightarrow>
          if in_stage (im_heap m p) = OH_STAGE_REQUEST
          then (OH_HTTP_RESULT_OK, m\<lparr>im_request := remove1 p (im_request m)\<rparr>)
          else (OH_HTTP_RESULT_OK, m\<lparr>im_response := remove1 p (im_response m)\<rparr>))"

definition DeleteAllInterceptor :: "HttpInterceptorMgr \<Rightarrow> int \<Rightarrow> Http_ErrCode \<times> HttpInterceptorMgr" where
  "DeleteAllInterceptor m groupId =
     (OH_HTTP_RESULT_OK,
      m\<lparr>im_request := filter (\<lambda>p. in_groupId (im_heap m p) \<noteq> groupId) (im_request m),
        im_response := filter (\<lambda>p. in_groupId (im_heap m p) \<noteq> groupId) (im_response m)\<rparr>)"

fun set_enabled :: "int \<Rightarrow> int \<Rightarrow> nat list \<Rightarrow> (nat \<Rightarrow> OH_Http_Interceptor) \<Rightarrow> nat \<Rightarrow> OH_Http_Interceptor" where
  "set_enabled groupId enabled [] heap = heap"
| "set_enabled groupId enabled (p # ps) heap =
     set_enabled groupId enabled ps
       (if in_groupId (heap p) = groupId then heap(p := (heap p)\<lparr>in_enabled := enabled\<rparr>) else heap)"

definition SetAllInterceptorEnabled :: "HttpInterceptorMgr \<Rightarrow> int \<Rightarrow> int \<Rightarrow> Http_ErrCode \<times> HttpInterceptorMgr" where
  "SetAllInterceptorEnabled m groupId enabled =
     (OH_HTTP_RESULT_OK,
      m\<lparr>im_heap := set_enabled groupId enabled (im_response m) (set_enabled groupId enabled (im_request m) (im_heap m))\<rparr>)"

definition IteratorReadRequestInterceptor :: "HttpInterceptorMgr \<Rightarrow> OH_Http_Interceptor_Request option \<Rightarrow> HttpInterceptorMgr" where
  "IteratorReadRequestInterceptor m readReq =
     (case readReq of None \<Rightarrow> m | Some r \<Rightarrow> m\<lparr>im_jobs := im_jobs m @ [Read_request r]\<rparr>)"

definition IteratorReadResponseInterceptor ::
  "HttpInterceptorMgr \<Rightarrow> OH_Http_Interceptor_Response option \<Rightarrow> OH_Http_Interceptor_Request option \<Rightarrow> HttpInterceptorMgr" where
  "IteratorReadResponseInterceptor m readResp readReq =
     (case readResp of None \<Rightarrow> m | Some r \<Rightarrow> m\<lparr>im_jobs := im_jobs m @ [Read_response r readReq]\<rparr>)"

definition reads :: "OH_Http_Interceptor \<Rightarrow> bool" where
  "reads i \<longleftrightarrow> in_type i = OH_TYPE_READ_ONLY \<and> in_handler i \<noteq> None \<and> in_enabled i \<noteq> 0"

definition modifies :: "OH_Interceptor_Type \<Rightarrow> OH_Http_Interceptor \<Rightarrow> bool" where
  "modifies type i \<longleftrightarrow>
     in_type i \<noteq> OH_TYPE_READ_ONLY \<and> in_type i = type \<and> in_handler i \<noteq> None \<and> in_enabled i \<noteq> 0"

text \<open>A read-only handler is called with the shared copy, which it may change for the next one.\<close>

fun read_request_loop ::
  "'s handlers \<Rightarrow> (nat \<Rightarrow> OH_Http_Interceptor) \<Rightarrow> nat list \<Rightarrow> OH_Http_Interceptor_Request \<Rightarrow> 's \<Rightarrow> 's" where
  "read_request_loop H heap [] req s = s"
| "read_request_loop H heap (p # ps) req s =
     (if reads (heap p)
      then case H (the (in_handler (heap p))) s (Some req) None of (s', _, req', _) \<Rightarrow> read_request_loop H heap ps req' s'
      else read_request_loop H heap ps req s)"

fun read_response_loop ::
  "'s handlers \<Rightarrow> (nat \<Rightarrow> OH_Http_Interceptor) \<Rightarrow> nat list \<Rightarrow> OH_Http_Interceptor_Response \<Rightarrow>
   OH_Http_Interceptor_Request option \<Rightarrow> 's \<Rightarrow> 's" where
  "read_response_loop H heap [] resp req s = s"
| "read_response_loop H heap (p # ps) resp req s =
     (if reads (heap p)
      then case H (the (in_handler (heap p))) s req (Some resp) of
        (s', _, req', resp', _) \<Rightarrow> read_response_loop H heap ps resp' (map_option (\<lambda>_. req') req) s'
      else read_response_loop H heap ps resp req s)"

definition run_read_job :: "'s handlers \<Rightarrow> HttpInterceptorMgr \<Rightarrow> read_job \<Rightarrow> 's \<Rightarrow> 's" where
  "run_read_job H m job s =
     (case job of
        Read_request req \<Rightarrow> read_request_loop H (im_heap m) (im_request m) req s
      | Read_response resp req \<Rightarrow> read_response_loop H (im_heap m) (im_response m) resp req s)"

text \<open>The loops over the modifying interceptors: state, result, packet, whether it was modified.\<close>

fun request_loop ::
  "'s handlers \<Rightarrow> (nat \<Rightarrow> OH_Http_Interceptor) \<Rightarrow> OH_Interceptor_Type \<Rightarrow> nat list \<Rightarrow> 's \<Rightarrow> OH_Http_Interceptor_Request \<Rightarrow>
   bool \<Rightarrow> 's \<times> OH_Interceptor_Result \<times> OH_Http_Interceptor_Request \<times> bool" where
  "request_loop H heap type [] s req isModified = (s, OH_CONTINUE, req, isModified)"
| "request_loop H heap type (p # ps) s req isModified =
     (if modifies type (heap p)
      then case H (the (in_handler (heap p))) s (Some req) None of
        (s', ret, req', _, flag) \<Rightarrow>
          let isModified' = (isModified \<or> flag \<noteq> 0)
          in if ret = OH_ABORT then (s', OH_ABORT, req', isModified')
             else request_loop H heap type ps s' req' isModified'
      else request_loop H heap type ps s req isModified)"

fun response_loop ::
  "'s handlers \<Rightarrow> (nat \<Rightarrow> OH_Http_Interceptor) \<Rightarrow> OH_Interceptor_Type \<Rightarrow> nat list \<Rightarrow> 's \<Rightarrow>
   OH_Http_Interceptor_Request option \<Rightarrow> OH_Http_Interceptor_Response \<Rightarrow> bool \<Rightarrow>
   's \<times> OH_Interceptor_Result \<times> OH_Http_Interceptor_Request option \<times> OH_Http_Interceptor_Response \<times> bool" where
  "response_loop H heap type [] s req resp isModified = (s, OH_CONTINUE, req, resp, isModified)"
| "response_loop H heap type (p # ps) s req resp isModified =
     (if modifies type (heap p)
      then case H (the (in_handler (heap p))) s req (Some resp) of
        (s', ret, req', resp', flag) \<Rightarrow>
          let isModified' = (isModified \<or> flag \<noteq> 0); req'' = map_option (\<lambda>_. req') req
          in if ret = OH_ABORT then (s', OH_ABORT, req'', resp', isModified')
             else response_loop H heap type ps s' req'' resp' isModified'
      else response_loop H heap type ps s req resp isModified)"

text \<open>The result, the packet the caller has afterwards, the flag, the manager and the state of the handlers.\<close>

definition IteratorRequestInterceptor ::
  "'s handlers \<Rightarrow> packet_memory \<Rightarrow> HttpInterceptorMgr \<Rightarrow> 's \<Rightarrow> OH_Http_Interceptor_Request option \<Rightarrow> bool \<Rightarrow>
   OH_Interceptor_Type \<Rightarrow> bool \<Rightarrow>
   (OH_Interceptor_Result \<times> OH_Http_Interceptor_Request option \<times> bool \<times> HttpInterceptorMgr \<times> 's) option" where
  "IteratorRequestInterceptor H mem m s req isModified type needDeepCopy =
     (case req of
        None \<Rightarrow> Some (OH_CONTINUE, None, isModified, m, s)
      | Some r \<Rightarrow> do {
          readReq \<leftarrow> fresh_request_copy mem (me_read mem) r;
          let m1 = IteratorReadRequestInterceptor m readReq;
          reqTmp \<leftarrow> (if needDeepCopy then fresh_request_copy mem (me_tmp mem) r else Some (Some r));
          Some (case reqTmp of
              None \<Rightarrow> (OH_CONTINUE, Some r, isModified, m1, s)
            | Some tmp \<Rightarrow>
                case request_loop H (im_heap m1) type (im_request m1) s tmp isModified of
                  (s', res, tmp', isModified') \<Rightarrow>
                    (res, Some (if needDeepCopy \<and> \<not> isModified' then r else tmp'), isModified', m1, s'))
        })"

definition PrepareReadRequest ::
  "packet_memory \<Rightarrow> OH_Http_Interceptor_Request option \<Rightarrow> OH_Http_Interceptor_Request option option" where
  "PrepareReadRequest mem req =
     (case req of None \<Rightarrow> Some None | Some r \<Rightarrow> fresh_request_copy mem (me_readReq mem) r)"

definition PrepareResponseCopy ::
  "packet_memory \<Rightarrow> OH_Http_Interceptor_Response \<Rightarrow> bool \<Rightarrow> OH_Http_Interceptor_Response option option" where
  "PrepareResponseCopy mem resp needDeepCopy =
     (if \<not> needDeepCopy then Some (Some resp) else fresh_response_copy mem (me_tmp mem) resp)"

definition IteratorResponseInterceptor ::
  "'s handlers \<Rightarrow> packet_memory \<Rightarrow> HttpInterceptorMgr \<Rightarrow> 's \<Rightarrow> OH_Http_Interceptor_Response option \<Rightarrow> bool \<Rightarrow>
   OH_Interceptor_Type \<Rightarrow> bool \<Rightarrow> OH_Http_Interceptor_Request option \<Rightarrow>
   (OH_Interceptor_Result \<times> OH_Http_Interceptor_Response option \<times> bool \<times> HttpInterceptorMgr \<times> 's) option" where
  "IteratorResponseInterceptor H mem m s resp isModified type needDeepCopy req =
     (case resp of
        None \<Rightarrow> Some (OH_CONTINUE, None, isModified, m, s)
      | Some r \<Rightarrow> do {
          readResp \<leftarrow> fresh_response_copy mem (me_read mem) r;
          readReq \<leftarrow> PrepareReadRequest mem req;
          let m1 = IteratorReadResponseInterceptor m readResp readReq;
          respTmp \<leftarrow> PrepareResponseCopy mem r needDeepCopy;
          Some (case respTmp of
              None \<Rightarrow> (OH_CONTINUE, Some r, isModified, m1, s)
            | Some tmp \<Rightarrow>
                case response_loop H (im_heap m1) type (im_response m1) s req tmp isModified of
                  (s', res, _, tmp', isModified') \<Rightarrow>
                    (res, Some (if needDeepCopy \<and> \<not> isModified' then r else tmp'), isModified', m1, s'))
        })"

definition HasEnabledInterceptor :: "HttpInterceptorMgr \<Rightarrow> OH_Interceptor_Stage \<Rightarrow> bool" where
  "HasEnabledInterceptor m stage =
     list_ex (\<lambda>p. in_enabled (im_heap m p) = 1) (if stage = OH_STAGE_REQUEST then im_request m else im_response m)"

definition HasEnabledRequestInterceptor :: "HttpInterceptorMgr \<Rightarrow> bool" where
  "HasEnabledRequestInterceptor m = HasEnabledInterceptor m OH_STAGE_REQUEST"

definition HasEnabledResponseInterceptor :: "HttpInterceptorMgr \<Rightarrow> bool" where
  "HasEnabledResponseInterceptor m = HasEnabledInterceptor m OH_STAGE_RESPONSE"

section \<open>Packets made of requests and responses\<close>

definition ConvertStringToRawPtr :: "bool \<Rightarrow> string \<Rightarrow> Http_Buffer \<Rightarrow> Http_Buffer" where
  "ConvertStringToRawPtr alloc str out =
     (if str = [] \<or> \<not> alloc then out else \<lparr>hb_buffer = Some str, hb_length = of_nat (length str)\<rparr>)"

text \<open>The headers as the map of the request gives them, in its order of iteration.\<close>

definition CurlParseHeaderRawPtr :: "bool \<Rightarrow> (string \<times> string list) list option \<Rightarrow> curl_slist" where
  "CurlParseHeaderRawPtr alloc headers =
     (case headers of
        None \<Rightarrow> []
      | Some hs \<Rightarrow>
          if \<not> alloc then []
          else concat (map (\<lambda>(key, valueVec). map (\<lambda>v. Some (c_str (key @ '': '' @ v))) valueVec) hs))"

record HttpRequestData =
  rd_url :: string
  rd_method :: string
  rd_headers :: "(string \<times> string list) list option"
  rd_body :: "string option"

definition ConvertToNetStackRequest :: "packet_memory \<Rightarrow> HttpRequestData \<Rightarrow> OH_Http_Interceptor_Request option" where
  "ConvertToNetStackRequest mem requestData =
     (case CreateHttpInterceptorRequest (me_readReq mem) of
        None \<Rightarrow> None
      | Some request \<Rightarrow>
          Some (request\<lparr>ir_url := ConvertStringToRawPtr (me_buffer mem) (rd_url requestData) (ir_url request),
                        ir_method := ConvertStringToRawPtr (me_buffer mem) (rd_method requestData) (ir_method request),
                        ir_body := ConvertStringToRawPtr (me_buffer mem)
                          (case rd_body requestData of None \<Rightarrow> [] | Some b \<Rightarrow> b) (ir_body request),
                        ir_headers := CurlParseHeaderRawPtr (me_slist mem) (rd_headers requestData)\<rparr>))"

text \<open>\<open>statusCode\<close> is what curl answers for the handle; \<open>None\<close> is a null handle.\<close>

definition ConvertToNetStackResponse ::
  "packet_memory \<Rightarrow> nat option \<Rightarrow> (string \<times> string list) list option \<Rightarrow> string \<Rightarrow> OH_Http_Interceptor_Response option" where
  "ConvertToNetStackResponse mem statusCode headers body =
     (case statusCode of
        None \<Rightarrow> None
      | Some code \<Rightarrow>
          (case CreateHttpInterceptorResponse (me_read mem) of
             None \<Rightarrow> None
           | Some response \<Rightarrow>
               Some (response\<lparr>ip_responseCode := code,
                              ip_body := ConvertStringToRawPtr (me_buffer mem) body (ip_body response),
                              ip_headers := CurlParseHeaderRawPtr (me_slist mem) headers\<rparr>)))"

definition ReportHttpResponse ::
  "'s handlers \<Rightarrow> packet_memory \<Rightarrow> HttpInterceptorMgr \<Rightarrow> 's \<Rightarrow> nat option \<Rightarrow> (string \<times> string list) list option \<Rightarrow>
   string \<Rightarrow> HttpRequestData option \<Rightarrow> (HttpInterceptorMgr \<times> 's) option" where
  "ReportHttpResponse H mem m s curl headers body requestData =
     (if \<not> HasEnabledResponseInterceptor m then Some (m, s)
      else case ConvertToNetStackResponse mem curl headers body of
        None \<Rightarrow> Some (m, s)
      | Some response \<Rightarrow>
          let req = (case requestData of None \<Rightarrow> None | Some d \<Rightarrow> ConvertToNetStackRequest mem d)
          in map_option (\<lambda>(_, _, _, m', s'). (m', s'))
               (IteratorResponseInterceptor H mem m s (Some response) False OH_TYPE_MODIFY_NETWORK_KIT False req))"

section \<open>The C interface\<close>

text \<open>\<open>permitted\<close> is the answer of \<open>HasInternetPermission\<close>.\<close>

definition OH_Http_AddInterceptor :: "bool \<Rightarrow> HttpInterceptorMgr \<Rightarrow> nat option \<Rightarrow> Http_ErrCode \<times> HttpInterceptorMgr" where
  "OH_Http_AddInterceptor permitted m interceptor =
     (if \<not> permitted then (OH_HTTP_PERMISSION_DENIED, m) else AddInterceptor m interceptor)"

definition OH_Http_AddReadOnlyInterceptor :: "bool \<Rightarrow> HttpInterceptorMgr \<Rightarrow> nat option \<Rightarrow> Http_ErrCode \<times> HttpInterceptorMgr" where
  "OH_Http_AddReadOnlyInterceptor permitted m interceptor =
     (if \<not> permitted then (OH_HTTP_PERMISSION_DENIED, m)
      else case interceptor of
        None \<Rightarrow> (OH_HTTP_PARAMETER_ERROR, m)
      | Some p \<Rightarrow>
          if in_type (im_heap m p) \<noteq> OH_TYPE_READ_ONLY \<or> in_stage (im_heap m p) \<noteq> OH_STAGE_RESPONSE
          then (OH_HTTP_PARAMETER_ERROR, m)
          else OH_Http_AddInterceptor permitted m interceptor)"

definition OH_Http_AddWritableInterceptor :: "bool \<Rightarrow> HttpInterceptorMgr \<Rightarrow> nat option \<Rightarrow> Http_ErrCode \<times> HttpInterceptorMgr" where
  "OH_Http_AddWritableInterceptor permitted m interceptor =
     (if \<not> permitted then (OH_HTTP_PERMISSION_DENIED, m)
      else case interceptor of
        None \<Rightarrow> (OH_HTTP_PARAMETER_ERROR, m)
      | Some p \<Rightarrow>
          if in_type (im_heap m p) \<noteq> OH_TYPE_MODIFY_NETWORK_KIT then (OH_HTTP_PARAMETER_ERROR, m)
          else OH_Http_AddInterceptor permitted m interceptor)"

definition OH_Http_RemoveInterceptor :: "bool \<Rightarrow> HttpInterceptorMgr \<Rightarrow> nat option \<Rightarrow> Http_ErrCode \<times> HttpInterceptorMgr" where
  "OH_Http_RemoveInterceptor permitted m interceptor =
     (if \<not> permitted then (OH_HTTP_PERMISSION_DENIED, m) else DeleteInterceptor m interceptor)"

definition OH_Http_RemoveAllInterceptors :: "bool \<Rightarrow> HttpInterceptorMgr \<Rightarrow> int \<Rightarrow> Http_ErrCode \<times> HttpInterceptorMgr" where
  "OH_Http_RemoveAllInterceptors permitted m groupId =
     (if \<not> permitted then (OH_HTTP_PERMISSION_DENIED, m) else DeleteAllInterceptor m groupId)"

definition OH_Http_StartAllInterceptors :: "bool \<Rightarrow> HttpInterceptorMgr \<Rightarrow> int \<Rightarrow> Http_ErrCode \<times> HttpInterceptorMgr" where
  "OH_Http_StartAllInterceptors permitted m groupId =
     (if \<not> permitted then (OH_HTTP_PERMISSION_DENIED, m) else SetAllInterceptorEnabled m groupId 1)"

definition OH_Http_StopAllInterceptors :: "bool \<Rightarrow> HttpInterceptorMgr \<Rightarrow> int \<Rightarrow> Http_ErrCode \<times> HttpInterceptorMgr" where
  "OH_Http_StopAllInterceptors permitted m groupId =
     (if \<not> permitted then (OH_HTTP_PERMISSION_DENIED, m) else SetAllInterceptorEnabled m groupId 0)"

section \<open>Lists and flags\<close>

text \<open>What a sequence of calls can lead to.\<close>

inductive mgr_reach :: "(nat \<Rightarrow> OH_Http_Interceptor) \<Rightarrow> HttpInterceptorMgr \<Rightarrow> bool" for heap where
  mgr_new: "mgr_reach heap (new_HttpInterceptorMgr heap)"
| mgr_add: "mgr_reach heap m \<Longrightarrow> mgr_reach heap (snd (AddInterceptor m p))"
| mgr_delete: "mgr_reach heap m \<Longrightarrow> mgr_reach heap (snd (DeleteInterceptor m p))"
| mgr_delete_all: "mgr_reach heap m \<Longrightarrow> mgr_reach heap (snd (DeleteAllInterceptor m g))"
| mgr_enable: "mgr_reach heap m \<Longrightarrow> mgr_reach heap (snd (SetAllInterceptorEnabled m g e))"
| mgr_client: "mgr_reach heap m \<Longrightarrow> mgr_reach heap (m\<lparr>im_heap := heap'\<rparr>)"
| mgr_read_request: "mgr_reach heap m \<Longrightarrow> mgr_reach heap (IteratorReadRequestInterceptor m q)"
| mgr_read_response: "mgr_reach heap m \<Longrightarrow> mgr_reach heap (IteratorReadResponseInterceptor m q r)"

lemma mgr_distinct: "mgr_reach heap m \<Longrightarrow> distinct (im_request m) \<and> distinct (im_response m)"
  by (induction rule: mgr_reach.induct)
    (auto simp: new_HttpInterceptorMgr_def AddInterceptor_def DeleteInterceptor_def DeleteAllInterceptor_def
      SetAllInterceptorEnabled_def IteratorReadRequestInterceptor_def IteratorReadResponseInterceptor_def
      split: option.split)

lemma set_enabled_apply:
  "set_enabled g e ps heap p =
    (if p \<in> set ps \<and> in_groupId (heap p) = g then (heap p)\<lparr>in_enabled := e\<rparr> else heap p)"
  by (induction ps arbitrary: heap) auto

text \<open>The loops skip what does not take part.\<close>

lemma request_loop_filter:
  "(\<And>p. p \<in> set ps \<Longrightarrow> \<not> keep p \<Longrightarrow> \<not> modifies type (heap p)) \<Longrightarrow>
   (\<And>p. p \<in> set ps \<Longrightarrow> keep p \<Longrightarrow> heap' p = heap p) \<Longrightarrow>
    request_loop H heap type ps s req b = request_loop H heap' type (filter keep ps) s req b"
  by (induction ps arbitrary: s req b) (auto split: prod.split)

lemma response_loop_filter:
  "(\<And>p. p \<in> set ps \<Longrightarrow> \<not> keep p \<Longrightarrow> \<not> modifies type (heap p)) \<Longrightarrow>
   (\<And>p. p \<in> set ps \<Longrightarrow> keep p \<Longrightarrow> heap' p = heap p) \<Longrightarrow>
    response_loop H heap type ps s q resp b = response_loop H heap' type (filter keep ps) s q resp b"
  by (induction ps arbitrary: s q resp b) (auto split: prod.split)

lemma read_loops_filter:
  "(\<And>p. p \<in> set ps \<Longrightarrow> \<not> keep p \<Longrightarrow> \<not> reads (heap p)) \<Longrightarrow>
   (\<And>p. p \<in> set ps \<Longrightarrow> keep p \<Longrightarrow> heap' p = heap p) \<Longrightarrow>
    read_request_loop H heap ps req s = read_request_loop H heap' (filter keep ps) req s"
  "(\<And>p. p \<in> set ps \<Longrightarrow> \<not> keep p \<Longrightarrow> \<not> reads (heap p)) \<Longrightarrow>
   (\<And>p. p \<in> set ps \<Longrightarrow> keep p \<Longrightarrow> heap' p = heap p) \<Longrightarrow>
    read_response_loop H heap ps resp q s = read_response_loop H heap' (filter keep ps) resp q s"
  by (induction ps arbitrary: s req q resp) (auto split: prod.split)

lemma stopped_heap:
  "im_heap (snd (SetAllInterceptorEnabled m g 0)) p =
    (if p \<in> set (im_request m) \<union> set (im_response m) \<and> in_groupId (im_heap m p) = g
     then (im_heap m p)\<lparr>in_enabled := 0\<rparr> else im_heap m p)"
  by (auto simp: SetAllInterceptorEnabled_def set_enabled_apply)

lemma stopped_lists [simp]:
  "im_request (snd (SetAllInterceptorEnabled m g e)) = im_request m"
  "im_response (snd (SetAllInterceptorEnabled m g e)) = im_response m"
  by (simp_all add: SetAllInterceptorEnabled_def)

lemma removed_fields [simp]:
  "im_heap (snd (DeleteAllInterceptor m g)) = im_heap m"
  "im_request (snd (DeleteAllInterceptor m g)) = filter (\<lambda>p. in_groupId (im_heap m p) \<noteq> g) (im_request m)"
  "im_response (snd (DeleteAllInterceptor m g)) = filter (\<lambda>p. in_groupId (im_heap m p) \<noteq> g) (im_response m)"
  by (simp_all add: DeleteAllInterceptor_def)

lemma read_fields [simp]:
  "im_heap (IteratorReadRequestInterceptor m q) = im_heap m" "im_request (IteratorReadRequestInterceptor m q) = im_request m"
  "im_heap (IteratorReadResponseInterceptor m r q) = im_heap m"
  "im_response (IteratorReadResponseInterceptor m r q) = im_response m"
  by (simp_all add: IteratorReadRequestInterceptor_def IteratorReadResponseInterceptor_def split: option.split)

lemma stopped_loops:
  fixes m g
  defines "m1 \<equiv> snd (SetAllInterceptorEnabled m g 0)" and "m2 \<equiv> snd (DeleteAllInterceptor m g)"
  shows "request_loop H (im_heap m1) type (im_request m1) s req b = request_loop H (im_heap m2) type (im_request m2) s req b"
    "response_loop H (im_heap m1) type (im_response m1) s q resp b = response_loop H (im_heap m2) type (im_response m2) s q resp b"
    "read_request_loop H (im_heap m1) (im_request m1) req s = read_request_loop H (im_heap m2) (im_request m2) req s"
    "read_response_loop H (im_heap m1) (im_response m1) resp q s = read_response_loop H (im_heap m2) (im_response m2) resp q s"
  unfolding m1_def m2_def stopped_lists removed_fields
  by (rule request_loop_filter response_loop_filter read_loops_filter;
      simp add: stopped_heap modifies_def reads_def split: if_splits)+

section \<open>Properties\<close>

text \<open>
  C18. Stopping a group is the same as removing it, as far as packets can tell: for every request and
  response, whatever the handlers do, both give the same result, the same packet, the same modification
  flag and the same calls of handlers; the deferred read-only handlers make the same calls, and the
  question whether an interceptor is enabled has the same answer.
\<close>

theorem stopped_group_is_removed:
  fixes m g
  defines "m1 \<equiv> snd (SetAllInterceptorEnabled m g 0)" and "m2 \<equiv> snd (DeleteAllInterceptor m g)"
  shows "map_option (\<lambda>(res, packet, flag, _, s'). (res, packet, flag, s')) (IteratorRequestInterceptor H mem m1 s req b type copy) =
         map_option (\<lambda>(res, packet, flag, _, s'). (res, packet, flag, s')) (IteratorRequestInterceptor H mem m2 s req b type copy) \<and>
    map_option (\<lambda>(res, packet, flag, _, s'). (res, packet, flag, s')) (IteratorResponseInterceptor H mem m1 s resp b type copy req) =
    map_option (\<lambda>(res, packet, flag, _, s'). (res, packet, flag, s')) (IteratorResponseInterceptor H mem m2 s resp b type copy req) \<and>
    run_read_job H m1 job s = run_read_job H m2 job s \<and>
    HasEnabledInterceptor m1 stage = HasEnabledInterceptor m2 stage"
proof (intro conjI)
  note loops = stopped_loops [where m = m and g = g, folded m1_def m2_def]
  show "map_option (\<lambda>(res, packet, flag, _, s'). (res, packet, flag, s')) (IteratorRequestInterceptor H mem m1 s req b type copy) =
        map_option (\<lambda>(res, packet, flag, _, s'). (res, packet, flag, s')) (IteratorRequestInterceptor H mem m2 s req b type copy)"
    unfolding IteratorRequestInterceptor_def
    by (cases req; cases copy) (auto simp: loops bind_eq_None_conv split: bind_splits option.split prod.split)
  show "map_option (\<lambda>(res, packet, flag, _, s'). (res, packet, flag, s')) (IteratorResponseInterceptor H mem m1 s resp b type copy req) =
        map_option (\<lambda>(res, packet, flag, _, s'). (res, packet, flag, s')) (IteratorResponseInterceptor H mem m2 s resp b type copy req)"
    unfolding IteratorResponseInterceptor_def
    by (cases resp) (auto simp: loops split: bind_splits option.split prod.split)
  show "run_read_job H m1 job s = run_read_job H m2 job s"
    by (cases job) (simp_all add: run_read_job_def loops)
  show "HasEnabledInterceptor m1 stage = HasEnabledInterceptor m2 stage"
    by (auto simp: HasEnabledInterceptor_def m1_def m2_def list_ex_iff stopped_heap)
qed

end
