(* ===== verification/Http_Task_Run.thy ===== *)
theory Http_Task_Run
  imports Http_Task Http_Interceptor
begin

text \<open>
  The life of a transfer of the HTTP client: starting it, the callbacks of curl, the end of the transfer
  with the cache and the interceptors
  (\<open>frameworks/native/http/http_client/http_client_task.cpp\<close> from \<open>Start\<close>, and \<open>StartTask\<close> of
  \<open>http_client.cpp\<close>).

  The calls of the client's functions are recorded as events. What curl answers to \<open>curl_easy_getinfo\<close> is
  the record \<open>curl_info\<close>; the permission, the cleartext policy, the clock and \<open>inet_pton\<close> are fields of
  \<open>run_env\<close>. \<open>None\<close> stands for undefined behaviour, as in the parts that are called.
\<close>

section \<open>State\<close>

datatype event =
    On_Succeeded HttpClientRequest HttpClientResponse
  | On_Canceled HttpClientRequest HttpClientResponse
  | On_Failed HttpClientRequest HttpClientResponse HttpClientError
  | On_DataReceive HttpClientRequest string
  | On_Progress HttpClientRequest int int int int
  | On_HeadersReceive HttpClientRequest headers
  | On_HeaderReceive HttpClientRequest string

record ('j, 's) run_env =
  re_curl :: curl_env
  re_intercept :: bool  \<comment> \<open>\<open>ENABLE_HTTP_GLOBAL_INTERCEPT\<close>\<close>
  re_permission :: bool
  re_cleartext :: "bool \<times> bool"
  re_host_permitted :: "string \<Rightarrow> bool"
  re_now :: string
  re_time :: time_env
  re_pton :: "ip_type \<Rightarrow> string \<Rightarrow> bool"
  re_json :: "'j cjson"
  re_handlers :: "'s handlers"
  re_mem :: packet_memory

record curl_info =
  ci_cookies :: "string list option"
  ci_code :: "CURLcode \<times> nat"
  ci_ip :: "string option"
  ci_port :: int

record 's run_state =
  rt_task :: HttpClientTask
  rt_isSuccess :: bool
  rt_handoverInfo :: string
  rt_cache :: cache_global
  rt_mgr :: HttpInterceptorMgr
  rt_world :: 's
  rt_events :: "event list"

definition emit :: "event list \<Rightarrow> 's run_state \<Rightarrow> 's run_state" where
  "emit es s = s\<lparr>rt_events := rt_events s @ es\<rparr>"

definition on_task :: "(HttpClientTask \<Rightarrow> HttpClientTask) \<Rightarrow> 's run_state \<Rightarrow> 's run_state" where
  "on_task f s = s\<lparr>rt_task := f (rt_task s)\<rparr>"

definition on_response :: "(HttpClientResponse \<Rightarrow> HttpClientResponse) \<Rightarrow> HttpClientTask \<Rightarrow> HttpClientTask" where
  "on_response f t = t\<lparr>ta_response := f (ta_response t)\<rparr>"

section \<open>Registering callbacks\<close>

definition OnSuccess :: "HttpClientTask \<Rightarrow> HttpClientTask" where "OnSuccess t = t\<lparr>ta_onSucceeded := True\<rparr>"
definition OnCancel :: "HttpClientTask \<Rightarrow> HttpClientTask" where "OnCancel t = t\<lparr>ta_onCanceled := True\<rparr>"
definition OnFail :: "HttpClientTask \<Rightarrow> HttpClientTask" where "OnFail t = t\<lparr>ta_onFailed := True\<rparr>"
definition OnDataReceive :: "HttpClientTask \<Rightarrow> HttpClientTask" where "OnDataReceive t = t\<lparr>ta_onDataReceive := True\<rparr>"
definition OnProgress :: "HttpClientTask \<Rightarrow> HttpClientTask" where "OnProgress t = t\<lparr>ta_onProgress := True\<rparr>"
definition OnHeadersReceive :: "HttpClientTask \<Rightarrow> HttpClientTask" where
  "OnHeadersReceive t = t\<lparr>ta_onHeadersReceive := True\<rparr>"
definition OnHeaderReceive :: "HttpClientTask \<Rightarrow> HttpClientTask" where "OnHeaderReceive t = t\<lparr>ta_onHeaderReceive := True\<rparr>"

definition OffDataReceive :: "HttpClientTask \<Rightarrow> bool \<times> HttpClientTask" where
  "OffDataReceive t = (if \<not> ta_onDataReceive t then (False, t) else (True, t\<lparr>ta_onDataReceive := False\<rparr>))"

definition OffProgress :: "HttpClientTask \<Rightarrow> bool \<times> HttpClientTask" where
  "OffProgress t = (if \<not> ta_onProgress t then (False, t) else (True, t\<lparr>ta_onProgress := False\<rparr>))"

definition OffHeaderReceive :: "HttpClientTask \<Rightarrow> bool \<times> HttpClientTask" where
  "OffHeaderReceive t =
     (if \<not> ta_onHeaderReceive t then (False, t) else (True, t\<lparr>ta_onHeaderReceive := False, ta_isHeaderOnce := False\<rparr>))"

definition OffHeadersReceive :: "HttpClientTask \<Rightarrow> bool \<times> HttpClientTask" where
  "OffHeadersReceive t =
     (if \<not> ta_onHeadersReceive t then (False, t)
      else (True, t\<lparr>ta_onHeadersReceive := False, ta_isHeadersOnce := False\<rparr>))"

definition SetIsHeaderOnce :: "HttpClientTask \<Rightarrow> bool \<Rightarrow> HttpClientTask" where
  "SetIsHeaderOnce t isOnce = t\<lparr>ta_isHeaderOnce := isOnce\<rparr>"

definition SetIsHeadersOnce :: "HttpClientTask \<Rightarrow> bool \<Rightarrow> HttpClientTask" where
  "SetIsHeadersOnce t isOnce = t\<lparr>ta_isHeadersOnce := isOnce\<rparr>"

definition SetIsRequestInStream :: "HttpClientTask \<Rightarrow> bool \<Rightarrow> HttpClientTask" where
  "SetIsRequestInStream t b = t\<lparr>ta_isRequestInStream := b\<rparr>"

definition SetStatus :: "HttpClientTask \<Rightarrow> TaskStatus \<Rightarrow> HttpClientTask" where
  "SetStatus t status = t\<lparr>ta_status := status\<rparr>"

definition Cancel :: "HttpClientTask \<Rightarrow> HttpClientTask" where
  "Cancel t = t\<lparr>ta_canceled := True\<rparr>"

definition SetResponse :: "HttpClientTask \<Rightarrow> HttpClientResponse \<Rightarrow> HttpClientTask" where
  "SetResponse t response = t\<lparr>ta_response := response\<rparr>"

section \<open>Interceptors of a task\<close>

text \<open>\<open>MallocCString\<close>: the copy ends with the string, or is null.\<close>

definition MallocCString :: "bool \<Rightarrow> string \<Rightarrow> string option" where
  "MallocCString alloc origin = (if origin = [] \<or> \<not> alloc then None else Some origin)"

definition buffer_of :: "bool \<Rightarrow> string \<Rightarrow> Http_Buffer \<Rightarrow> Http_Buffer" where
  "buffer_of alloc s b =
     (if s \<noteq> [] then \<lparr>hb_buffer = MallocCString alloc s, hb_length = of_nat (length s)\<rparr> else b)"

definition ConvertRequestContextToInterceptorReq ::
  "packet_memory \<Rightarrow> HttpClientTask \<Rightarrow> OH_Http_Interceptor_Request \<Rightarrow> OH_Http_Interceptor_Request" where
  "ConvertRequestContextToInterceptorReq mem t req =
     (let r = ta_request t
      in req\<lparr>ir_url := buffer_of (me_buffer mem) (rq_url r) (ir_url req),
             ir_method := buffer_of (me_buffer mem) (rq_method r) (ir_method req),
             ir_body := buffer_of (me_buffer mem) (rq_body r) (ir_body req),
             ir_headers := (if rq_headers r \<noteq> []
                            then if me_slist mem then map (\<lambda>h. Some (c_str (header_text h))) (rq_headers r) else []
                            else ir_headers req)\<rparr>)"

text \<open>\<open>std::string(buffer, length)\<close> where the buffer is not null and the length not 0.\<close>

definition buffer_text :: "Http_Buffer \<Rightarrow> string option option" where
  "buffer_text b =
     (case hb_buffer b of
        None \<Rightarrow> Some None
      | Some s \<Rightarrow>
          if hb_length b = 0 then Some None
          else if length s < unat (hb_length b) then None
          else Some (Some (take (unat (hb_length b)) s)))"

fun raw_header :: "curl_slist \<Rightarrow> string" where
  "raw_header [] = []"
| "raw_header (None # hs) = raw_header hs"
| "raw_header (Some s # hs) = s @ HTTP_LINE_SEPARATOR @ raw_header hs"

definition ConvertInterceptorReqToRequestContext ::
  "curl_env \<Rightarrow> HttpClientTask \<Rightarrow> OH_Http_Interceptor_Request \<Rightarrow> HttpClientTask option" where
  "ConvertInterceptorReqToRequestContext env t req = do {
     url \<leftarrow> buffer_text (ir_url req);
     method \<leftarrow> buffer_text (ir_method req);
     body \<leftarrow> buffer_text (ir_body req);
     let r = ta_request t;
     let r1 = (case url of None \<Rightarrow> r | Some u \<Rightarrow> SetURL r u);
     let r2 = (case method of None \<Rightarrow> r1 | Some m \<Rightarrow> SetMethod r1 m);
     let r3 = (case body of None \<Rightarrow> r2 | Some b \<Rightarrow> ReplaceBody r2 b);
     let r4 = ParseHeaders (ClearHeaderCache (SetRawHeader r3 (raw_header (ir_headers req))));
     Some (snd (SetCurlOptions env (t\<lparr>ta_request := r4\<rparr>)))
   }"

definition GlobalRequestInterceptorCheck ::
  "('j, 's) run_env \<Rightarrow> 's run_state \<Rightarrow> (bool \<times> 's run_state) option" where
  "GlobalRequestInterceptorCheck env s =
     (if \<not> HasEnabledRequestInterceptor (rt_mgr s) then Some (True, s)
      else case CreateHttpInterceptorRequest (me_tmp (re_mem env)) of
        None \<Rightarrow> Some (False, s)
      | Some req0 \<Rightarrow> do {
          let req = ConvertRequestContextToInterceptorReq (re_mem env) (rt_task s) req0;
          (res, req', isModified, mgr, w) \<leftarrow>
            IteratorRequestInterceptor (re_handlers env) (re_mem env) (rt_mgr s) (rt_world s) (Some req) False
              OH_TYPE_MODIFY_NETWORK_KIT False;
          let s1 = s\<lparr>rt_mgr := mgr, rt_world := w\<rparr>;
          if res = OH_ABORT then Some (False, s1)
          else if isModified then do {
            t \<leftarrow> ConvertInterceptorReqToRequestContext (re_curl env) (rt_task s1) (the req');
            Some (True, s1\<lparr>rt_task := t\<rparr>)
          }
          else Some (True, s1)
        })"

definition ConvertResponseContextToInterceptorResp ::
  "packet_memory \<Rightarrow> HttpClientTask \<Rightarrow> OH_Http_Interceptor_Response \<Rightarrow> OH_Http_Interceptor_Response" where
  "ConvertResponseContextToInterceptorResp mem t resp =
     (let r = ta_response t
      in resp\<lparr>ip_body := buffer_of (me_buffer mem) (rs_result r) (ip_body resp),
              ip_responseCode := rs_responseCode r,
              ip_headers := (if rs_rawHeader r \<noteq> [] \<or> rs_cookies r \<noteq> []
                             then if me_slist mem
                                  then map (\<lambda>s. Some (c_str s)) (filter (\<lambda>s. s \<noteq> []) (Split (rs_rawHeader r) HTTP_LINE_SEPARATOR))
                                  else []
                             else ip_headers resp)\<rparr>)"

definition ConvertInterceptorRespToResponseContext ::
  "HttpClientTask \<Rightarrow> OH_Http_Interceptor_Response \<Rightarrow> HttpClientTask option" where
  "ConvertInterceptorRespToResponseContext t resp = do {
     body \<leftarrow> buffer_text (ip_body resp);
     let r1 = (case body of None \<Rightarrow> ta_response t | Some b \<Rightarrow> SetResult (ta_response t) b);
     let r2 = SetResponseCode r1 (ip_responseCode resp);
     let r3 = Response_ParseHeaders (Response_ClearHeaderCache (Response_SetRawHeader r2 (raw_header (ip_headers resp))));
     Some (t\<lparr>ta_response := r3\<rparr>)
   }"

definition GlobalResponseInterceptorCheck ::
  "('j, 's) run_env \<Rightarrow> 's run_state \<Rightarrow> (bool \<times> 's run_state) option" where
  "GlobalResponseInterceptorCheck env s =
     (if \<not> HasEnabledResponseInterceptor (rt_mgr s) then Some (True, s)
      else case CreateHttpInterceptorResponse (me_tmp (re_mem env)) of
        None \<Rightarrow> Some (False, s)
      | Some resp0 \<Rightarrow>
          (case CreateHttpInterceptorRequest (me_tmp (re_mem env)) of
             None \<Rightarrow> Some (False, s)
           | Some req0 \<Rightarrow> do {
               let resp = ConvertResponseContextToInterceptorResp (re_mem env) (rt_task s) resp0;
               let req = ConvertRequestContextToInterceptorReq (re_mem env) (rt_task s) req0;
               (res, resp', isModified, mgr, w) \<leftarrow>
                 IteratorResponseInterceptor (re_handlers env) (re_mem env) (rt_mgr s) (rt_world s) (Some resp) False
                   OH_TYPE_MODIFY_NETWORK_KIT False (Some req);
               let s1 = s\<lparr>rt_mgr := mgr, rt_world := w\<rparr>;
               if isModified then do {
                 t \<leftarrow> ConvertInterceptorRespToResponseContext (rt_task s1) (the resp');
                 Some (res = OH_CONTINUE, s1\<lparr>rt_task := t\<rparr>)
               }
               else Some (res = OH_CONTINUE, s1)
             }))"

section \<open>Starting\<close>

definition refuse :: "HttpErrorCode \<Rightarrow> 's run_state \<Rightarrow> bool \<times> 's run_state" where
  "refuse code s = (False, on_task (\<lambda>t. t\<lparr>ta_error := SetErrorCode (ta_error t) code\<rparr>) s)"

text \<open>\<open>HttpSession::StartTask\<close>; the handle goes to the thread that drives curl.\<close>

definition StartTask :: "HttpClientTask \<Rightarrow> HttpClientTask" where
  "StartTask t = SetStatus t RUNNING"

definition Start :: "('j, 's) run_env \<Rightarrow> 's run_state \<Rightarrow> (bool \<times> 's run_state) option" where
  "Start env s =
     (let t = rt_task s
      in if ta_status t \<noteq> IDLE then Some (False, s)
         else if \<not> re_permission env then Some (refuse HTTP_PERMISSION_DENIED_CODE s)
         else if \<not> IsCleartextPermitted (re_cleartext env) (re_host_permitted env) (rq_url (ta_request t)) ''http://''
         then Some (refuse HTTP_CLEARTEXT_NOT_PERMITTED s)
         else if er_errorCode (ta_error t) \<noteq> HTTP_NONE_ERR
         then Some (if rq_protocol (ta_request t) = HTTP3 then refuse HTTP_UNKNOWN_OTHER_ERROR s else (False, s))
         else do {
           (passed, s1) \<leftarrow> (if re_intercept env then GlobalRequestInterceptorCheck env s else Some (True, s));
           Some (if \<not> passed then refuse HTTP_REQUEST_INTERCEPTED s1
                 else (True, on_task (\<lambda>t. StartTask (on_response (\<lambda>r. Response_SetRequestTime r (re_now env))
                        (t\<lparr>ta_request := SetRequestTime (ta_request t) (re_now env), ta_canceled := False\<rparr>))) s1))
         })"

section \<open>Callbacks of curl\<close>

text \<open>The number of bytes taken, as curl wants it.\<close>

definition DataReceiveCallback :: "string \<Rightarrow> 's run_state \<Rightarrow> nat \<times> 's run_state" where
  "DataReceiveCallback data s =
     (let t = rt_task s
      in if ta_canceled t then (0, s)
         else let s1 = (if ta_onDataReceive t then emit [On_DataReceive (ta_request t) data] s else s)
              in if ta_isRequestInStream t then (length data, s1)
                 else if length (rs_result (ta_response t)) < unat (rq_maxLimit (ta_request t))
                 then (length data, on_task (on_response (\<lambda>r. AppendResult r data)) s1)
                 else (length data, s1))"

definition ProgressCallback :: "int \<Rightarrow> int \<Rightarrow> int \<Rightarrow> int \<Rightarrow> 's run_state \<Rightarrow> CURLcode \<times> 's run_state" where
  "ProgressCallback dltotal dlnow ultotal ulnow s =
     (let t = rt_task s
      in if ta_canceled t then (CURLE_ABORTED_BY_CALLBACK, s)
         else (CURLE_OK, if ta_onProgress t then emit [On_Progress (ta_request t) dltotal dlnow ultotal ulnow] s else s))"

fun join_cookies :: "string list \<Rightarrow> string" where
  "join_cookies [] = []"
| "join_cookies [c] = c"
| "join_cookies (c # d # cs) = c @ HTTP_LINE_SEPARATOR @ join_cookies (d # cs)"

definition headers_with_cookies :: "HttpClientResponse \<Rightarrow> headers" where
  "headers_with_cookies r = smap_put RESPONSE_KEY_SET_COOKIE (join_cookies (rs_setCookie r)) (rs_headers r)"

definition HeaderReceiveCallback :: "string \<Rightarrow> 's run_state \<Rightarrow> nat \<times> 's run_state" where
  "HeaderReceiveCallback data s =
     (if ta_canceled (rt_task s) then (0, s)
      else if length data > MAX_DATA_LIMIT then (0, s)
      else
        let s1 = on_task (on_response (\<lambda>r. AppendHeader r data)) s;
            t1 = rt_task s1;
            s2 = (if ta_onHeaderReceive t1 \<and> rs_rawHeader (ta_response t1) \<noteq> []
                  then let s' = emit [On_HeaderReceive (ta_request t1) (rs_rawHeader (ta_response t1))] s1
                       in if ta_isHeaderOnce t1 then on_task (\<lambda>t. snd (OffHeaderReceive t)) s' else s'
                  else s1);
            t2 = rt_task s2;
            s3 = (if ta_onHeadersReceive t2 \<and> EndsWith (rs_rawHeader (ta_response t2)) HTTP_RESPONSE_HEADER_SEPARATOR
                  then let s' = on_task (on_response Response_ParseHeaders) s2;
                           s'' = emit [On_HeadersReceive (ta_request t2) (headers_with_cookies (ta_response (rt_task s')))] s'
                       in if ta_isHeadersOnce t2 then on_task (\<lambda>t. snd (OffHeadersReceive t)) s'' else s''
                  else s2)
        in (length data, s3))"

section \<open>The end of a transfer\<close>

fun append_cookies :: "string list \<Rightarrow> HttpClientResponse \<Rightarrow> HttpClientResponse" where
  "append_cookies [] r = r"
| "append_cookies (c # cs) r =
     append_cookies cs (let r1 = AppendCookies r c in if cs \<noteq> [] then AppendCookies r1 HTTP_LINE_SEPARATOR else r1)"

definition ProcessCookie :: "curl_info \<Rightarrow> HttpClientTask \<Rightarrow> HttpClientTask" where
  "ProcessCookie ci t = (case ci_cookies ci of None \<Rightarrow> t | Some cookies \<Rightarrow> on_response (append_cookies cookies) t)"

definition ProcessResponseCode :: "curl_info \<Rightarrow> HttpClientTask \<Rightarrow> bool \<times> HttpClientTask" where
  "ProcessResponseCode ci t =
     (case ci_code ci of (code, res) \<Rightarrow>
        if code \<noteq> CURLE_OK then (False, t\<lparr>ta_error := SetCURLResult (ta_error t) code\<rparr>)
        else (True, on_response (\<lambda>r. SetResponseCode r res) t))"

definition FAMILY_INVALID :: int where "FAMILY_INVALID = -1"
definition FAMILY_IPV4 :: int where "FAMILY_IPV4 = 1"
definition FAMILY_IPV6 :: int where "FAMILY_IPV6 = 2"

fun ConvertSaFamily :: "ip_type \<Rightarrow> int" where
  "ConvertSaFamily AF_INET = FAMILY_IPV4"
| "ConvertSaFamily AF_INET6 = FAMILY_IPV6"
| "ConvertSaFamily INVALID_IP_TYPE = FAMILY_INVALID"

definition ProcessNetAddress :: "('j, 's) run_env \<Rightarrow> curl_info \<Rightarrow> HttpClientTask \<Rightarrow> HttpClientTask" where
  "ProcessNetAddress env ci t =
     (case ci_ip ci of
        None \<Rightarrow> t
      | Some ipServer \<Rightarrow>
          on_response (\<lambda>r. SetNetAddress r
            \<lparr>na_address = ipServer, na_family = ConvertSaFamily (DetectIPType (re_pton env) ipServer),
             na_port = of_int (ci_port ci)\<rparr>) t)"

definition LogResponseInfo :: "('j, 's) run_env \<Rightarrow> CURLcode \<Rightarrow> HttpClientTask \<Rightarrow> HttpClientTask" where
  "LogResponseInfo env code t =
     on_response (\<lambda>r. Response_SetResponseTime r (re_now env)) (t\<lparr>ta_error := SetCURLResult (ta_error t) code\<rparr>)"

definition SetSuccess :: "bool \<Rightarrow> 's run_state \<Rightarrow> 's run_state" where
  "SetSuccess b s = s\<lparr>rt_isSuccess := b\<rparr>"

definition succeeded :: "'s run_state \<Rightarrow> 's run_state" where
  "succeeded s =
     (let t = rt_task s in if ta_onSucceeded t then emit [On_Succeeded (ta_request t) (ta_response t)] s else s)"

definition failed :: "'s run_state \<Rightarrow> 's run_state" where
  "failed s =
     (let t = rt_task s in if ta_onFailed t then emit [On_Failed (ta_request t) (ta_response t) (ta_error t)] s else s)"

definition HandleCancelCallback :: "curl_info \<Rightarrow> CURLcode \<Rightarrow> 's run_state \<Rightarrow> bool \<times> 's run_state" where
  "HandleCancelCallback ci code s =
     (if code \<noteq> CURLE_ABORTED_BY_CALLBACK then (False, s)
      else let s1 = on_task (\<lambda>t. snd (ProcessResponseCode ci t)) s; t = rt_task s1
           in (True, SetSuccess False
                (if ta_onCanceled t then emit [On_Canceled (ta_request t) (ta_response t)] s1 else s1)))"

definition HandleErrorCallback :: "CURLcode \<Rightarrow> 's run_state \<Rightarrow> bool \<times> 's run_state" where
  "HandleErrorCallback code s = (if code = CURLE_OK then (False, s) else (True, SetSuccess False (failed s)))"

definition ProcessResponseExpectType :: "HttpClientTask \<Rightarrow> HttpClientTask" where
  "ProcessResponseExpectType t =
     (if rq_dataType (ta_request t) \<noteq> NO_DATA_TYPE
      then on_response (\<lambda>r. Response_SetExpectDataType r (rq_dataType (ta_request t))) t
      else
        let r = ta_response t;
            contentType = ToLower (header_value (rs_headers r) HTTP_CONTENT_TYPE);
            r1 = (if map_of (rs_headers r) HTTP_CONTENT_TYPE = None
                  then r\<lparr>rs_headers := smap_put HTTP_CONTENT_TYPE [] (rs_headers r)\<rparr> else r)
        in t\<lparr>ta_response := Response_SetExpectDataType r1
               (if find_sub HTTP_CONTENT_TYPE_OCTET_STREAM contentType \<noteq> None \<or>
                   find_sub HTTP_CONTENT_TYPE_IMAGE contentType \<noteq> None
                then ARRAY_BUFFER else STRING)\<rparr>)"

definition ProcessResponseCoreLogic ::
  "('j, 's) run_env \<Rightarrow> curl_info \<Rightarrow> 's run_state \<Rightarrow> (bool \<times> 's run_state) option" where
  "ProcessResponseCoreLogic env ci s =
     (let t1 = ProcessResponseExpectType (on_response Response_ParseHeaders (ProcessCookie ci (rt_task s)));
          (ret, t2) = ProcessResponseCode ci t1;
          s1 = s\<lparr>rt_task := t2\<rparr>
      in if re_intercept env then map_option (\<lambda>(_, s2). (ret, s2)) (GlobalResponseInterceptorCheck env s1)
         else Some (ret, s1))"

definition HandleResultCallback :: "bool \<Rightarrow> 's run_state \<Rightarrow> 's run_state" where
  "HandleResultCallback isResponseOk s =
     (if isResponseOk then SetSuccess True (succeeded s)
      else if ta_onFailed (rt_task s) then SetSuccess False (failed s) else s)"

text \<open>The proxy refers to the request of the task, which the strategy may make conditional.\<close>

definition ReadResopnseFromCache :: "('j, 's) run_env \<Rightarrow> 's run_state \<Rightarrow> (bool \<times> 's run_state) option" where
  "ReadResopnseFromCache env s = do {
     let proxy = new_CacheProxy (curl_versions.truncate (cu_const (re_curl env))) (ta_request (rt_task s));
     (g, response) \<leftarrow> ReadResponseFromCache (re_json env) (rt_cache s) proxy;
     let s1 = s\<lparr>rt_cache := g\<rparr>;
     case response of
       None \<Rightarrow> Some (False, s1)
     | Some _ \<Rightarrow> do {
         (status, proxy', response') \<leftarrow> Proxy_RunStrategy (re_time env) proxy response;
         let s2 = on_task (\<lambda>t. t\<lparr>ta_request := st_requestOptions (cp_strategy proxy')\<rparr>) s1;
         Some (case status of
             FRESH \<Rightarrow> (True, on_task (\<lambda>t. SetResponse t (the response')) s2)
           | STALE \<Rightarrow> (False, on_task (\<lambda>t. SetResponse t (the response')) s2)
           | DENY \<Rightarrow> (False, s2))
       }
   }"

definition WriteResopnseToCache :: "('j, 's) run_env \<Rightarrow> 's run_state \<Rightarrow> 's run_state option" where
  "WriteResopnseToCache env s =
     map_option (\<lambda>g. s\<lparr>rt_cache := g\<rparr>)
       (WriteResponseToCache (re_time env) (rt_cache s)
         (new_CacheProxy (curl_versions.truncate (cu_const (re_curl env))) (ta_request (rt_task s)))
         (ta_response (rt_task s)))"

definition ProcessUsingCache :: "('j, 's) run_env \<Rightarrow> 's run_state \<Rightarrow> (bool \<times> 's run_state) option" where
  "ProcessUsingCache env s =
     (if \<not> rq_usingCache (ta_request (rt_task s)) then Some (False, s)
      else do {
        (fresh, s1) \<leftarrow> ReadResopnseFromCache env s;
        Some (if \<not> fresh then (False, s1)
              else if rs_responseCode (ta_response (rt_task s1)) = RC_OK then (True, succeeded s1)
              else (True, failed s1))
      })"

definition ProcessResponse :: "('j, 's) run_env \<Rightarrow> curl_info \<Rightarrow> CURLcode \<Rightarrow> 's run_state \<Rightarrow> 's run_state option" where
  "ProcessResponse env ci code s = do {
     let s0 = on_task (\<lambda>t. ProcessNetAddress env ci (LogResponseInfo env code t)) s;
     (fresh, s1) \<leftarrow> ProcessUsingCache env s0;
     if fresh then Some s1
     else let (canceled, s2) = HandleCancelCallback ci code s1
          in if canceled then Some s2
             else let (failed, s3) = HandleErrorCallback code s2
                  in if failed then Some s3
                     else do {
                       (ret, s4) \<leftarrow> ProcessResponseCoreLogic env ci s3;
                       WriteResopnseToCache env (HandleResultCallback ret s4)
                     }
   }"

section \<open>Handover\<close>

datatype HandoverRequestType = OLD | INCOMING | NETWORKERROR | UNDONE | Handover_other int

text \<open>\<open>hi_flowControlTime\<close> is the text \<open>std::to_string\<close> prints for the double.\<close>

record HttpHandoverInfo =
  hi_handOverNum :: u32
  hi_handOverReason :: HandoverRequestType
  hi_flowControlTime :: string
  hi_readFlag :: int
  hi_inQueueFlag :: int

definition flag_text :: "int \<Rightarrow> string" where
  "flag_text f = (if f = 1 then ''true'' else if f = 0 then ''false'' else ''error'')"

definition SetRequestHandoverInfo :: "HttpHandoverInfo \<Rightarrow> 's run_state \<Rightarrow> 's run_state" where
  "SetRequestHandoverInfo info s =
     (let s0 = (if hi_handOverNum info = 0 then s\<lparr>rt_handoverInfo := ''no handover''\<rparr> else s);
          txt = ''HandoverNum:'' @ to_string_nat (unat (hi_handOverNum info)) @ '', handoverReason:'' @
            (case hi_handOverReason info of
               INCOMING \<Rightarrow> ''flowControl, flowControlTime:''
             | NETWORKERROR \<Rightarrow> ''netErr, retransTime:''
             | UNDONE \<Rightarrow> ''undone, retransTime:''
             | _ \<Rightarrow> ''unkown type'') @
            hi_flowControlTime info @ '', isRead:'' @ flag_text (hi_readFlag info) @
            '', isIInQueue:'' @ flag_text (hi_inQueueFlag info) @
            '', isStream:'' @ (if ta_onDataReceive (rt_task s) then ''true'' else ''false'')
      in s0\<lparr>rt_handoverInfo := txt\<rparr>)"

end
