(* ===== verification/Http_Task_Run_Correct.thy ===== *)
theory Http_Task_Run_Correct
  imports Http_Task_Run Http_Task_Correct LRU_Persist_Correct
begin

text \<open>
  What a client of a task observes: exactly one final callback, silence after a cancellation, a bounded
  body, and what the cache does to a response.
\<close>

section \<open>Fields that no step changes\<close>

definition registered :: "HttpClientTask \<Rightarrow> bool \<times> bool \<times> bool" where
  "registered t = (ta_onSucceeded t, ta_onCanceled t, ta_onFailed t)"

lemma registered_updates [simp]:
  "registered (on_response f t) = registered t" "registered (t\<lparr>ta_error := e\<rparr>) = registered t"
  "registered (t\<lparr>ta_response := r\<rparr>) = registered t" "registered (t\<lparr>ta_request := q\<rparr>) = registered t"
  "registered (ProcessCookie ci t) = registered t" "registered (snd (ProcessResponseCode ci t)) = registered t"
  "registered (ProcessNetAddress env ci t) = registered t" "registered (LogResponseInfo env code t) = registered t"
  "registered (ProcessResponseExpectType t) = registered t" "registered (SetResponse t r) = registered t"
  by (simp_all add: registered_def on_response_def ProcessCookie_def ProcessResponseCode_def ProcessNetAddress_def
      LogResponseInfo_def ProcessResponseExpectType_def SetResponse_def split: option.split prod.split)

lemma state_fields [simp]:
  "rt_events (on_task f s) = rt_events s" "rt_task (on_task f s) = f (rt_task s)"
  "rt_events (SetSuccess b s) = rt_events s" "rt_task (SetSuccess b s) = rt_task s"
  "rt_events (emit es s) = rt_events s @ es" "rt_task (emit es s) = rt_task s"
  by (simp_all add: on_task_def SetSuccess_def emit_def)

lemma ResponseCheck_frame:
  assumes "GlobalResponseInterceptorCheck env s = Some (b, s')"
  shows "rt_events s' = rt_events s \<and> registered (rt_task s') = registered (rt_task s) \<and>
    ta_request (rt_task s') = ta_request (rt_task s) \<and> ta_error (rt_task s') = ta_error (rt_task s)"
  using assms unfolding GlobalResponseInterceptorCheck_def ConvertInterceptorRespToResponseContext_def
  by (auto simp: bind_eq_Some_conv split: if_splits option.splits prod.splits)

lemma CoreLogic_frame:
  assumes "ProcessResponseCoreLogic env ci s = Some (ret, s')"
  shows "rt_events s' = rt_events s \<and> registered (rt_task s') = registered (rt_task s) \<and>
    ret = (fst (ci_code ci) = CURLE_OK)"
proof -
  obtain ok t2 where p: "ProcessResponseCode ci (ProcessResponseExpectType (on_response Response_ParseHeaders
      (ProcessCookie ci (rt_task s)))) = (ok, t2)"
    by fastforce
  have "registered t2 = registered (rt_task s)"
    using registered_updates(6) [of ci "ProcessResponseExpectType (on_response Response_ParseHeaders
      (ProcessCookie ci (rt_task s)))"] by (simp add: p)
  moreover have "ok = (fst (ci_code ci) = CURLE_OK)"
    using p by (auto simp: ProcessResponseCode_def split: prod.splits if_splits)
  ultimately show ?thesis
    using assms ResponseCheck_frame [of env "s\<lparr>rt_task := t2\<rparr>"]
    by (auto simp: ProcessResponseCoreLogic_def p split: if_splits)
qed

lemma CacheRead_frame:
  assumes "ReadResopnseFromCache env s = Some (b, s')"
  shows "rt_events s' = rt_events s \<and> registered (rt_task s') = registered (rt_task s) \<and>
    ta_error (rt_task s') = ta_error (rt_task s)"
  using assms unfolding ReadResopnseFromCache_def
  by (auto simp: bind_eq_Some_conv SetResponse_def registered_def split: option.splits CacheStatus.splits) (metis CacheStatus.exhaust)+

lemma UsingCache_frame:
  assumes "ProcessUsingCache env s = Some (b, s')" "registered (rt_task s) = (True, True, True)"
  shows "registered (rt_task s') = (True, True, True) \<and> ta_error (rt_task s') = ta_error (rt_task s) \<and>
    (if b then rq_usingCache (ta_request (rt_task s)) \<and>
       (\<exists>q r. rt_events s' = rt_events s @ [On_Succeeded q r] \<or> rt_events s' = rt_events s @ [On_Failed q r (ta_error (rt_task s))])
     else rt_events s' = rt_events s)"
  using assms CacheRead_frame [of env s] unfolding ProcessUsingCache_def
  by (auto simp: bind_eq_Some_conv succeeded_def failed_def registered_def split: if_splits)

section \<open>Runs of a transfer\<close>

text \<open>
  The calls curl makes during a transfer, in order, and the result with which the transfer ends: by its
  documentation curl gives up with \<open>CURLE_WRITE_ERROR\<close> when a callback for data or headers does not take
  all bytes and with \<open>CURLE_ABORTED_BY_CALLBACK\<close> when the progress callback does not return 0.
\<close>

datatype curl_call = Data string | Header string | Progress int int int int

fun transfer_run :: "curl_call list \<Rightarrow> CURLcode \<Rightarrow> 's run_state \<Rightarrow> CURLcode \<times> 's run_state" where
  "transfer_run [] code s = (code, s)"
| "transfer_run (Data d # cs) code s =
     (case DataReceiveCallback d s of (n, s') \<Rightarrow>
        if n \<noteq> length d then (CURLE_WRITE_ERROR, s') else transfer_run cs code s')"
| "transfer_run (Header d # cs) code s =
     (case HeaderReceiveCallback d s of (n, s') \<Rightarrow>
        if n \<noteq> length d then (CURLE_WRITE_ERROR, s') else transfer_run cs code s')"
| "transfer_run (Progress a b c d # cs) code s =
     (case ProgressCallback a b c d s of (res, s') \<Rightarrow>
        if res \<noteq> CURLE_OK then (CURLE_ABORTED_BY_CALLBACK, s') else transfer_run cs code s')"

text \<open>The result of a run whose task is cancelled: the first call that carries anything decides.\<close>

fun cancelled_code :: "curl_call list \<Rightarrow> CURLcode \<Rightarrow> CURLcode" where
  "cancelled_code [] code = code"
| "cancelled_code (Data d # cs) code = (if d = [] then cancelled_code cs code else CURLE_WRITE_ERROR)"
| "cancelled_code (Header d # cs) code = (if d = [] then cancelled_code cs code else CURLE_WRITE_ERROR)"
| "cancelled_code (Progress _ _ _ _ # cs) code = CURLE_ABORTED_BY_CALLBACK"

lemma cancelled_run: "ta_canceled (rt_task s) \<Longrightarrow> transfer_run cs code s = (cancelled_code cs code, s)"
  by (induction cs code rule: cancelled_code.induct)
    (simp_all add: DataReceiveCallback_def HeaderReceiveCallback_def ProgressCallback_def)

lemma data_run:
  assumes "\<not> ta_canceled (rt_task s)" "\<not> ta_isRequestInStream (rt_task s)"
  shows "fst (transfer_run (map Data ds) code s) = code \<and>
    rs_result (ta_response (rt_task (snd (transfer_run (map Data ds) code s)))) =
      fold (\<lambda>d body. if length body < unat (rq_maxLimit (ta_request (rt_task s))) then body @ d else body) ds
        (rs_result (ta_response (rt_task s)))"
  using assms
proof (induction ds arbitrary: s)
  case (Cons d ds)
  define s' where "s' = snd (DataReceiveCallback d s)"
  have s': "DataReceiveCallback d s = (length d, s')" "\<not> ta_canceled (rt_task s')"
    "\<not> ta_isRequestInStream (rt_task s')" "ta_request (rt_task s') = ta_request (rt_task s)"
    "rs_result (ta_response (rt_task s')) =
      (if length (rs_result (ta_response (rt_task s))) < unat (rq_maxLimit (ta_request (rt_task s)))
       then rs_result (ta_response (rt_task s)) @ d else rs_result (ta_response (rt_task s)))"
    using Cons.prems by (simp_all add: s'_def DataReceiveCallback_def on_response_def AppendResult_def)
  show ?case
    using Cons.IH [OF s'(2,3)] s' by simp
qed simp

lemma bounded_fold:
  assumes "\<And>d. d \<in> set ds \<Longrightarrow> length d \<le> k"
  shows "length (fold (\<lambda>d body. if length body < n then body @ d else body) ds body) \<le> max (length body) (n + k)"
  using assms
proof (induction ds arbitrary: body)
  case (Cons d ds)
  have d: "length d \<le> k"
    using Cons.prems by simp
  have ih: "length (fold (\<lambda>d body. if length body < n then body @ d else body) ds b) \<le> max (length b) (n + k)" for b
    by (rule Cons.IH) (simp add: Cons.prems)
  show ?case
    using ih [of "if length body < n then body @ d else body"] d by (cases "length body < n") auto
qed simp

lemma complete_fold:
  "length body + length (concat ds) \<le> n \<Longrightarrow>
    fold (\<lambda>d body. if length body < n then body @ d else body) ds body = body @ concat ds"
proof (induction ds arbitrary: body)
  case (Cons d ds)
  show ?case
  proof (cases "length body < n")
    case True
    then show ?thesis using Cons.IH [of "body @ d"] Cons.prems by simp
  next
    case False
    moreover have "length body + (length d + length (concat ds)) \<le> n" using Cons.prems by simp
    ultimately have "length d = 0" "length (concat ds) = 0" by linarith+
    then have "d = []" "concat ds = []" by (simp_all only: length_0_conv)
    then show ?thesis using Cons.IH [of body] Cons.prems False by simp
  qed
qed simp

section \<open>The cache and the response\<close>

lemma RunStrategy_result:
  "RunStrategy env st r = Some (status, st', r') \<Longrightarrow> rs_result r' = rs_result r \<and> rs_responseCode r' = rs_responseCode r"
  unfolding RunStrategy_def RunStrategyInternal_def
  by (auto simp: bind_eq_Some_conv SetWarning_def split: if_splits)

lemma response_result_frame [simp]:
  "rs_result (Response_ParseHeaders r) = rs_result r" "rs_result (append_cookies cs r) = rs_result r"
  by (simp add: Response_ParseHeaders_def, induction cs r rule: append_cookies.induct) (simp_all add: AppendCookies_def)

lemma task_result_frame [simp]:
  "rs_result (ta_response (ProcessCookie ci t)) = rs_result (ta_response t)"
  "rs_result (ta_response (snd (ProcessResponseCode ci t))) = rs_result (ta_response t)"
  "rs_result (ta_response (ProcessResponseExpectType t)) = rs_result (ta_response t)"
  by (auto simp: ProcessCookie_def on_response_def ProcessResponseCode_def SetResponseCode_def ProcessResponseExpectType_def
      Response_SetExpectDataType_def split: option.split prod.split)

lemma CoreLogic_plain:
  assumes "\<not> re_intercept env" "ci_code ci = (CURLE_OK, n)"
  shows "\<exists>t. ProcessResponseCoreLogic env ci s = Some (True, s\<lparr>rt_task := t\<rparr>) \<and> registered t = registered (rt_task s) \<and>
    rs_result (ta_response t) = rs_result (ta_response (rt_task s)) \<and> rs_responseCode (ta_response t) = n"
proof -
  define t where "t = ProcessResponseExpectType (on_response Response_ParseHeaders (ProcessCookie ci (rt_task s)))"
  have p: "ProcessResponseCode ci t = (True, on_response (\<lambda>r. SetResponseCode r n) t)"
    by (simp add: ProcessResponseCode_def assms(2))
  have "rs_result (ta_response t) = rs_result (ta_response (rt_task s))" "registered t = registered (rt_task s)"
    by (simp_all add: t_def) (simp add: on_response_def)
  moreover have "ProcessResponseCoreLogic env ci s = Some (True, s\<lparr>rt_task := on_response (\<lambda>r. SetResponseCode r n) t\<rparr>)"
    using p assms(1) unfolding ProcessResponseCoreLogic_def t_def by simp
  ultimately show ?thesis
    by (intro exI [of _ "on_response (\<lambda>r. SetResponseCode r n) t"]) (simp add: on_response_def SetResponseCode_def registered_def)
qed

text \<open>A task with all three final callbacks and no error, ready to run.\<close>

definition sample_task :: "HttpClientRequest \<Rightarrow> HttpClientTask" where
  "sample_task r = \<lparr>ta_taskId = 0, ta_request = r, ta_response = new_HttpClientResponse, ta_error = new_HttpClientError,
     ta_type = TASK_DEFAULT, ta_status = RUNNING, ta_canceled = False, ta_filePath = [], ta_isHeaderOnce = False,
     ta_isHeadersOnce = False, ta_isRequestInStream = False, ta_onSucceeded = True, ta_onCanceled = True,
     ta_onFailed = True, ta_onDataReceive = False, ta_onProgress = False, ta_onHeadersReceive = False,
     ta_onHeaderReceive = False, ta_options = []\<rparr>"

definition sample_state :: "HttpClientRequest \<Rightarrow> cache_global \<Rightarrow> unit run_state" where
  "sample_state r g = \<lparr>rt_task = sample_task r, rt_isSuccess = False, rt_handoverInfo = [], rt_cache = g,
     rt_mgr = new_HttpInterceptorMgr (\<lambda>p. undefined), rt_world = (), rt_events = []\<rparr>"

definition idle_cache :: cache_global where
  "idle_cache = sample_global\<lparr>cg_isRunning := False\<rparr>"

definition sample_info :: curl_info where
  "sample_info = \<lparr>ci_cookies = None, ci_code = (CURLE_OK, 200), ci_ip = None, ci_port = 0\<rparr>"

definition sample_run :: "(tree, unit) run_env" where
  "sample_run = \<lparr>re_curl = sample_env, re_intercept = False, re_permission = True, re_cleartext = (True, False),
     re_host_permitted = (\<lambda>h. True), re_now = [], re_time = still_clock 0, re_pton = (\<lambda>t s. False), re_json = tree_cjson,
     re_handlers = (\<lambda>h w q r. (w, OH_CONTINUE, the q, the r, 0)),
     re_mem = \<lparr>me_read = True, me_readReq = True, me_tmp = True, me_buffer = True, me_slist = True\<rparr>\<rparr>"

lemma sample_run_plain: "\<not> re_intercept sample_run"
  by (simp add: sample_run_def)

lemma stale_read:
  assumes "ReadResponseFromCache (re_json env) (rt_cache s) p = Some (g, Some c)"
    "p = new_CacheProxy (curl_versions.truncate (cu_const (re_curl env))) (ta_request (rt_task s))"
    "RunStrategy (re_time env) (cp_strategy p) c = Some (STALE, st, c')"
  shows "ReadResopnseFromCache env s =
    Some (False, on_task (\<lambda>t. SetResponse (t\<lparr>ta_request := st_requestOptions st\<rparr>) c') (s\<lparr>rt_cache := g\<rparr>))"
  using assms by (simp add: ReadResopnseFromCache_def Proxy_RunStrategy_def on_task_def)

section \<open>The end of a transfer\<close>

lemma start_of_end:
  "rt_events (on_task (\<lambda>t. ProcessNetAddress env ci (LogResponseInfo env code t)) s) = rt_events s"
  "ta_error (ProcessNetAddress env ci (LogResponseInfo env code t)) = SetCURLResult (ta_error t) code"
  "ta_request (ProcessNetAddress env ci (LogResponseInfo env code t)) = ta_request t"
  by (simp_all add: ProcessNetAddress_def LogResponseInfo_def on_response_def split: option.split)

text \<open>The part after the cache.\<close>

definition finish :: "('j, 's) run_env \<Rightarrow> curl_info \<Rightarrow> CURLcode \<Rightarrow> 's run_state \<Rightarrow> 's run_state option" where
  "finish env ci code s1 =
     (let (canceled, s2) = HandleCancelCallback ci code s1
      in if canceled then Some s2
         else let (failed, s3) = HandleErrorCallback code s2
              in if failed then Some s3
                 else do {
                   (ret, s4) \<leftarrow> ProcessResponseCoreLogic env ci s3;
                   WriteResopnseToCache env (HandleResultCallback ret s4)
                 })"

lemma ProcessResponse_finish:
  "ProcessResponse env ci code s = do {
     (fresh, s1) \<leftarrow> ProcessUsingCache env (on_task (\<lambda>t. ProcessNetAddress env ci (LogResponseInfo env code t)) s);
     if fresh then Some s1 else finish env ci code s1
   }"
  unfolding ProcessResponse_def finish_def by simp

lemma Write_events: "WriteResopnseToCache env s = Some s' \<Longrightarrow> rt_events s' = rt_events s"
  by (auto simp: WriteResopnseToCache_def)

lemma finish_event:
  assumes "finish env ci code s = Some s'" "registered (rt_task s) = (True, True, True)"
  shows "\<exists>q r. rt_events s' = rt_events s @
    [if code = CURLE_ABORTED_BY_CALLBACK then On_Canceled q r
     else if code \<noteq> CURLE_OK then On_Failed q r (ta_error (rt_task s))
     else if fst (ci_code ci) = CURLE_OK then On_Succeeded q r else On_Failed q r (ta_error (rt_task s'))]"
proof (cases "code = CURLE_OK")
  case False
  then show ?thesis
    using assms
    by (auto simp: finish_def HandleCancelCallback_def HandleErrorCallback_def failed_def registered_def
        ProcessResponseCode_def on_response_def split: if_splits prod.splits)
next
  case True
  then have "ProcessResponseCoreLogic env ci s \<bind>
      (\<lambda>(ret, s4). WriteResopnseToCache env (HandleResultCallback ret s4)) = Some s'"
    using assms(1) by (simp add: finish_def HandleCancelCallback_def HandleErrorCallback_def)
  then obtain ret s4 where c: "ProcessResponseCoreLogic env ci s = Some (ret, s4)"
    and w: "WriteResopnseToCache env (HandleResultCallback ret s4) = Some s'"
    by (auto simp: bind_eq_Some_conv)
  have t: "rt_task s' = rt_task s4"
    using w by (auto simp: WriteResopnseToCache_def HandleResultCallback_def succeeded_def failed_def split: if_splits)
  have e: "rt_events s4 = rt_events s" "registered (rt_task s4) = (True, True, True)" "ret = (fst (ci_code ci) = CURLE_OK)"
    using CoreLogic_frame [OF c] assms(2) by simp_all
  show ?thesis
    using Write_events [OF w] e True t
    by (auto simp: HandleResultCallback_def succeeded_def failed_def registered_def)
qed

lemma finish_returns:
  assumes "\<not> re_intercept env" "lru_inv (ld_cache (cg_disk (rt_cache s)))"
  shows "finish env ci code s \<noteq> None"
proof -
  obtain ret t2 where "ProcessResponseCode ci (ProcessResponseExpectType (on_response Response_ParseHeaders
      (ProcessCookie ci (rt_task s)))) = (ret, t2)"
    by fastforce
  then obtain s4 where c: "ProcessResponseCoreLogic env ci s = Some (ret, s4)" "rt_cache s4 = rt_cache s"
    using assms(1) by (simp add: ProcessResponseCoreLogic_def)
  have "rt_cache (HandleResultCallback ret s4) = rt_cache s"
    using c(2) by (simp add: HandleResultCallback_def succeeded_def failed_def emit_def SetSuccess_def)
  moreover have "LRUCacheDiskHandler_Put (cg_disk (rt_cache s)) k v \<noteq> None" for k v
    using disk_put_ok [OF assms(2)] by (metis option.distinct(1))
  ultimately have "WriteResopnseToCache env (HandleResultCallback ret s4) \<noteq> None"
    by (auto simp: WriteResopnseToCache_def WriteResponseToCache_def)
  then show ?thesis
    using c(1) by (auto simp: finish_def HandleCancelCallback_def HandleErrorCallback_def split: prod.split)
qed

section \<open>Properties\<close>



text \<open>
  C28. After a cancellation curl delivers nothing more to the client, but the final callback depends on
  which call of curl notices it: \<open>onCanceled\<close> if it is the progress callback, \<open>onFailed\<close> with a write error
  if data or a header arrives first.
\<close>

theorem cancel_outcome:
  assumes "ta_canceled (rt_task s)" and "registered (rt_task s) = (True, True, True)"
    and "\<not> rq_usingCache (ta_request (rt_task s))" and "transfer_run (c # cs) code s = (res, s1)"
    and "ProcessResponse env ci res s1 = Some s'"
  shows "s1 = s \<and>
    (\<forall>d. d \<noteq> [] \<and> (c = Data d \<or> c = Header d) \<longrightarrow>
      (\<exists>q r e. rt_events s' = rt_events s @ [On_Failed q r e] \<and> er_errorCode e = HTTP_CURL CURLE_WRITE_ERROR)) \<and>
    (\<forall>w x y z. c = Progress w x y z \<longrightarrow> (\<exists>q r. rt_events s' = rt_events s @ [On_Canceled q r]))"
proof -
  have s1: "s1 = s" "res = cancelled_code (c # cs) code"
    using cancelled_run [OF assms(1), of "c # cs" code] assms(4) by simp_all
  let ?s0 = "on_task (\<lambda>t. ProcessNetAddress env ci (LogResponseInfo env res t)) s"
  have f: "finish env ci res ?s0 = Some s'"
    using assms(3,5) by (simp add: ProcessResponse_finish ProcessUsingCache_def s1(1) start_of_end)
  have reg: "registered (rt_task ?s0) = (True, True, True)"
    using assms(2) by simp
  have w: "er_errorCode (SetCURLResult e CURLE_WRITE_ERROR) = HTTP_CURL CURLE_WRITE_ERROR" for e
    by (simp add: SetCURLResult_def SetErrorCode_def HTTP_ERR_MAP_def)
  from finish_event [OF f reg] show ?thesis
    using s1 w by (auto simp: start_of_end)
qed

theorem cancel_outcome_witness:
  "\<exists>s' q r e. ProcessResponse sample_run sample_info CURLE_WRITE_ERROR
       (on_task Cancel (sample_state new_HttpClientRequest idle_cache)) = Some s' \<and>
     rt_events s' = [On_Failed q r e] \<and> er_errorCode e = HTTP_CURL CURLE_WRITE_ERROR"
proof -
  let ?s = "on_task Cancel (sample_state new_HttpClientRequest idle_cache)"
  have d: "lru_inv (ld_cache (cg_disk (rt_cache (on_task f ?s))))" for f
    using disk_reach_inv [OF disk_start [of tree_cjson "\<lparr>dh_fileName = ''f'', dh_content = None, dh_can_read = True,
      dh_can_write = True, dh_can_remove = True\<rparr>" 0]]
    by (simp add: disk_inv_def on_task_def sample_state_def idle_cache_def sample_global_def)
  have r: "ta_canceled (rt_task ?s)" "registered (rt_task ?s) = (True, True, True)"
    "\<not> rq_usingCache (ta_request (rt_task ?s))" "rt_events ?s = []"
    by (simp_all add: Cancel_def sample_state_def sample_task_def registered_def new_HttpClientRequest_def)
  then have t: "transfer_run [Data ''x''] CURLE_OK ?s = (CURLE_WRITE_ERROR, ?s)"
    using cancelled_run [of ?s "[Data ''x'']"] by simp
  have "ProcessResponse sample_run sample_info CURLE_WRITE_ERROR ?s \<noteq> None"
    using finish_returns [OF _ d, of sample_run sample_info CURLE_WRITE_ERROR] r(3)
    by (simp add: ProcessResponse_finish ProcessUsingCache_def start_of_end sample_run_plain)
  then obtain s' where s': "ProcessResponse sample_run sample_info CURLE_WRITE_ERROR ?s = Some s'"
    by blast
  show ?thesis
    using cancel_outcome [OF r(1-3) t s'] s' r(4) by auto
qed

text \<open>
  C29. The body a task collects is bounded: if curl delivers pieces of at most \<open>k\<close> bytes, it exceeds the
  limit of the request by at most one piece, and a body within the limit is complete.
\<close>

theorem body_bounded:
  assumes "\<not> ta_canceled (rt_task s)" and "\<not> ta_isRequestInStream (rt_task s)" and "rs_result (ta_response (rt_task s)) = []"
    and "\<forall>d \<in> set ds. length d \<le> k" and "transfer_run (map Data ds) code s = (res, s')"
  shows "res = code \<and>
    length (rs_result (ta_response (rt_task s'))) \<le> unat (rq_maxLimit (ta_request (rt_task s))) + k \<and>
    (length (concat ds) \<le> unat (rq_maxLimit (ta_request (rt_task s))) \<longrightarrow>
      rs_result (ta_response (rt_task s')) = concat ds)"
  using data_run [OF assms(1,2), of ds code] assms(3-5)
    bounded_fold [of ds k "unat (rq_maxLimit (ta_request (rt_task s)))" "[]"]
    complete_fold [of "[]" ds "unat (rq_maxLimit (ta_request (rt_task s)))"]
  by simp

theorem body_bounded_witness:
  "let r = SetMaxLimit new_HttpClientRequest 9; ds = [''abc'', ''def'', ''ghi'']
   in rs_result (ta_response (rt_task (snd (transfer_run (map Data ds) CURLE_OK (sample_state r idle_cache))))) = ''abcdefghi''"
proof -
  define r where "r = SetMaxLimit new_HttpClientRequest 9"
  have r: "rq_maxLimit r = 9"
    by (simp add: r_def SetMaxLimit_def MAX_LIMIT_def)
  let ?ds = "[''abc'', ''def'', ''ghi'']"
  obtain res s' where t: "transfer_run (map Data ?ds) CURLE_OK (sample_state r idle_cache) = (res, s')"
    by fastforce
  show ?thesis
    using body_bounded [OF _ _ _ _ t, of 3] r t
    by (simp add: sample_state_def sample_task_def new_HttpClientResponse_def flip: r_def)
qed

text \<open>
  C30. When the cache holds a stale response, it is served in place of the one that has just arrived: the
  body the client gets is the stored one, whatever the network delivered, under the response code of the
  network.
\<close>

theorem stale_body_served:
  assumes "lru_inv (ld_cache (cg_disk (rt_cache s)))" and "cg_isRunning (rt_cache s)"
    and "p = new_CacheProxy (curl_versions.truncate (cu_const (re_curl env))) (ta_request (rt_task s))"
    and "CouldUseCache (cp_strategy p)"
    and "map_of (lru_entries (ld_cache (cg_disk (rt_cache s)))) (cp_key p) = Some (cacheResponse old)"
    and "RunStrategy (re_time env) (cp_strategy p) (cached old) = Some (STALE, st, old')"
    and "rq_usingCache (ta_request (rt_task s))" and "\<not> re_intercept env" and "ta_onSucceeded (rt_task s)"
    and "ci_code ci = (CURLE_OK, n)"
  shows "\<exists>s' q r. ProcessResponse env ci CURLE_OK s = Some s' \<and> rt_events s' = rt_events s @ [On_Succeeded q r] \<and>
    rs_result r = rs_result old \<and> rs_responseCode r = n"
proof -
  let ?s0 = "on_task (\<lambda>t. ProcessNetAddress env ci (LogResponseInfo env CURLE_OK t)) s"
  obtain g where g: "ReadResponseFromCache (re_json env) (rt_cache s) p = Some (g, Some (cached old))"
    "lru_inv (ld_cache (cg_disk g))"
    using cache_read_hit [OF assms(1,2,4,5)] by blast
  have old': "rs_result old' = rs_result old"
    using RunStrategy_result [OF assms(6)] by simp
  define s1 where "s1 = on_task (\<lambda>t. SetResponse (t\<lparr>ta_request := st_requestOptions st\<rparr>) old') (?s0\<lparr>rt_cache := g\<rparr>)"
  have "ReadResopnseFromCache env ?s0 = Some (False, s1)"
    unfolding s1_def by (rule stale_read [OF _ refl]) (use g(1) assms(3,6) in \<open>simp_all add: start_of_end on_task_def\<close>)
  then have u: "ProcessUsingCache env ?s0 = Some (False, s1)"
    using assms(7) by (simp add: ProcessUsingCache_def start_of_end)
  have f: "rt_cache s1 = g" "rt_events s1 = rt_events s" "ta_response (rt_task s1) = old'" "ta_onSucceeded (rt_task s1)"
    using assms(9) by (simp_all add: s1_def SetResponse_def ProcessNetAddress_def LogResponseInfo_def on_response_def
        on_task_def split: option.split)
  obtain t where t: "ProcessResponseCoreLogic env ci s1 = Some (True, s1\<lparr>rt_task := t\<rparr>)"
    "registered t = registered (rt_task s1)" "rs_result (ta_response t) = rs_result old" "rs_responseCode (ta_response t) = n"
    using CoreLogic_plain [OF assms(8,10), of s1] f(3) old' by auto
  obtain s' where s': "finish env ci CURLE_OK s1 = Some s'"
    using finish_returns [OF assms(8), of s1 ci CURLE_OK] g(2) f(1) by auto
  then have "WriteResopnseToCache env (HandleResultCallback True (s1\<lparr>rt_task := t\<rparr>)) = Some s'"
    using t(1) by (simp add: finish_def HandleCancelCallback_def HandleErrorCallback_def)
  from Write_events [OF this] have "rt_events s' = rt_events s @ [On_Succeeded (ta_request t) (ta_response t)]"
    using f(2,4) t(2) by (simp add: HandleResultCallback_def succeeded_def registered_def)
  then show ?thesis
    using t(3,4) u s' by (auto simp: ProcessResponse_finish)
qed

definition old_response :: HttpClientResponse where
  "old_response = new_HttpClientResponse\<lparr>rs_responseCode := RC_OK, rs_rawHeader := ''cache-control: no-cache'', rs_result := ''old''\<rparr>"

definition cached_request :: HttpClientRequest where
  "cached_request = SetUsingCache new_HttpClientRequest True"

lemma cached_request_strategy:
  "CouldUseCache (new_HttpCacheStrategy cached_request)"
  "IsCacheable_response (still_clock 0) (new_HttpCacheStrategy cached_request) old_response"
  by (simp_all add: IsCacheable_response_def SetRespCode_def IsCacheable_iff CouldUseCache_def new_HttpCacheStrategy_def
      cached_request_def SetUsingCache_def new_HttpClientRequest_def old_response_def new_HttpClientResponse_def new_noStore
      always_cacheable_def Request_SetRequestTime_def new_HttpCacheRequest_def)

lemma old_response_size: "valid_value (cacheResponse old_response)" "map_bytes (cacheResponse old_response) \<le> MAX_SIZE"
proof -
  have "length (Encode ''cache-control: no-cache'') = 32" "length (Encode ''old'') = 4" "Encode [] = []"
    by code_simp+
  then have "map_bytes (cacheResponse old_response) = 36"
    by (simp add: cacheResponse_eq old_response_def new_HttpClientResponse_def)
  then show "valid_value (cacheResponse old_response)" "map_bytes (cacheResponse old_response) \<le> MAX_SIZE"
    by (simp_all add: valid_value_def MAX_SIZE_def)
qed

lemma old_response_stale:
  "\<exists>st old'. RunStrategy (still_clock 0) (new_HttpCacheStrategy cached_request) (cached old_response) = Some (STALE, st, old')"
proof -
  have "rs_headers (cached old_response) = [(CACHE_CONTROL, ''no-cache'')]"
    unfolding cached_def old_response_def new_HttpClientResponse_def by code_simp
  moreover have "cs_noCache (ParseCacheResponseHeader s [(CACHE_CONTROL, ''no-cache'')])" for s
  proof -
    have "Split ''no-cache'' SPLIT = [''no-cache'']" "ToLower CACHE_CONTROL = CACHE_CONTROL"
      by code_simp+
    then show ?thesis
      by (simp add: Response_ParseCacheControl_def response_directive_def NO_CACHE_def)
  qed
  moreover have "\<not> cq_noCache (st_cacheRequest (new_HttpCacheStrategy cached_request))"
    by (simp add: new_HttpCacheStrategy_def cached_request_def SetUsingCache_def new_HttpClientRequest_def
        Request_SetRequestTime_def new_HttpCacheRequest_def)
  ultimately show ?thesis
    by (simp add: RunStrategy_def RunStrategyInternal_def SetRespCode_def CacheResponse_SetResponseTime_def
        CacheResponse_SetRequestTime_def del: ParseCacheResponseHeader.simps)
qed

theorem stale_body_served_witness:
  "\<exists>g s' q r. WriteResponseToCache (still_clock 0) sample_global (new_CacheProxy (curl_versions.truncate sample_consts) cached_request)
       old_response = Some g \<and>
     ProcessResponse sample_run sample_info CURLE_OK
       (on_task (on_response (\<lambda>r. r\<lparr>rs_result := ''new''\<rparr>)) (sample_state cached_request g)) = Some s' \<and>
     rt_events s' = [On_Succeeded q r] \<and> rs_result r = ''old''"
proof -
  define p where "p = new_CacheProxy (curl_versions.truncate sample_consts) cached_request"
  have st': "cp_strategy p = new_HttpCacheStrategy cached_request"
    by (simp add: p_def new_CacheProxy_def)
  have inv: "lru_inv (ld_cache (cg_disk sample_global))"
    using disk_reach_inv [OF disk_start] by (simp add: disk_inv_def sample_global_def)
  have run: "cg_isRunning sample_global" "lru_room (ld_cache (cg_disk sample_global)) = MAX_SIZE"
    by (simp_all add: sample_global_def LRUCacheDiskHandler_def LRUCache_default_def lru_room_def lru_stale_def lru_entries_def)
  obtain g where g: "WriteResponseToCache (still_clock 0) sample_global p old_response = Some g" "cg_isRunning g"
    "lru_inv (ld_cache (cg_disk g))" "map_of (lru_entries (ld_cache (cg_disk g))) (cp_key p) = Some (cacheResponse old_response)"
    using cache_write_ok [OF inv run(1), of "still_clock 0" p old_response] cached_request_strategy(2) old_response_size
    unfolding st' run(2) by blast
  obtain st old' where o: "RunStrategy (still_clock 0) (cp_strategy p) (cached old_response) = Some (STALE, st, old')"
    using old_response_stale st' by auto
  define s where "s = on_task (on_response (\<lambda>r. r\<lparr>rs_result := ''new''\<rparr>)) (sample_state cached_request g)"
  have s: "rt_cache s = g" "ta_request (rt_task s) = cached_request" "ta_onSucceeded (rt_task s)" "rt_events s = []"
    "rq_usingCache cached_request"
    by (simp_all add: s_def sample_state_def sample_task_def on_response_def on_task_def cached_request_def SetUsingCache_def)
  have e: "cu_const (re_curl sample_run) = sample_consts" "re_time sample_run = still_clock 0"
    by (simp_all add: sample_run_def sample_env_def)
  have p: "p = new_CacheProxy (curl_versions.truncate (cu_const (re_curl sample_run))) (ta_request (rt_task s))"
    by (simp only: p_def e s)
  have h: "lru_inv (ld_cache (cg_disk (rt_cache s)))" "cg_isRunning (rt_cache s)" "CouldUseCache (cp_strategy p)"
    "map_of (lru_entries (ld_cache (cg_disk (rt_cache s)))) (cp_key p) = Some (cacheResponse old_response)"
    "RunStrategy (re_time sample_run) (cp_strategy p) (cached old_response) = Some (STALE, st, old')"
    "rq_usingCache (ta_request (rt_task s))" "ci_code sample_info = (CURLE_OK, 200)"
    using g o s cached_request_strategy(1) by (simp_all add: e st' sample_info_def)
  obtain s' q r where "ProcessResponse sample_run sample_info CURLE_OK s = Some s'" "rt_events s' = rt_events s @ [On_Succeeded q r]"
    "rs_result r = rs_result old_response"
    using stale_body_served [OF h(1,2) p h(3-5) h(6) sample_run_plain s(3) h(7)] by blast
  moreover have "rs_result old_response = ''old''"
    by (simp add: old_response_def)
  ultimately have "ProcessResponse sample_run sample_info CURLE_OK s = Some s' \<and> rt_events s' = [On_Succeeded q r] \<and>
      rs_result r = ''old''"
    using s(4) by simp
  then show ?thesis
    using g(1) unfolding s_def p_def by blast
qed

end
