(* ===== verification/Net_Http_C.thy ===== *)
theory Net_Http_C
  imports Hash_Map Http_Task_Run
begin

text \<open>
  The C interface of the HTTP client (\<open>interfaces/kits/c/net_http/src/net_http_c.cpp\<close>): header
  objects, requests, the translation of options, the callbacks and the registry of running requests.

  A chain of \<open>Http_HeaderValue\<close> is the list of its strings, a chain of \<open>Http_HeaderEntry\<close> the list of
  its entries. The map of a header object points to the chains; here an entry of the map holds the list
  itself, and appending to a chain updates the entry in its bucket. Whether an allocation succeeds is an
  argument. The timings of a response (doubles) are left out, the allocation of their structure is not.
\<close>

section \<open>Header objects\<close>

type_synonym Http_HeaderValue = "string list"

record Http_HeaderEntry =
  en_key :: string
  en_value :: Http_HeaderValue

record Http_Headers =
  hd_fields :: "Http_HeaderValue Netstack_HashMap option"

definition OH_Http_CreateHeaders :: "bool \<Rightarrow> bool \<Rightarrow> bool \<Rightarrow> Http_Headers option" where
  "OH_Http_CreateHeaders headers_ok map_ok entries_ok =
     (if \<not> headers_ok then None
      else case CreateMap map_ok entries_ok of
             None \<Rightarrow> None
           | Some m \<Rightarrow> Some \<lparr>hd_fields = Some m\<rparr>)"

text \<open>The strings that are freed, in order.\<close>

fun OH_Http_DestroyHeaderValue :: "Http_HeaderValue \<Rightarrow> string list" where
  "OH_Http_DestroyHeaderValue [] = []"
| "OH_Http_DestroyHeaderValue (headerValue # next_ptr) = headerValue # OH_Http_DestroyHeaderValue next_ptr"

definition OH_Http_DestroyHeaders :: "Http_Headers option \<Rightarrow> string list \<times> Http_Headers option" where
  "OH_Http_DestroyHeaders headers =
     (case headers of
        None \<Rightarrow> ([], None)
      | Some h \<Rightarrow>
          if hd_fields h \<noteq> None
          then (concat (map OH_Http_DestroyHeaderValue (fst (Netstack_DestroyMapWithValue (hd_fields h) True))), None)
          else ([], None))"

definition OH_Http_ToLowerCase :: "bool \<Rightarrow> string option \<Rightarrow> string option" where
  "OH_Http_ToLowerCase strdup_ok str =
     (case str of None \<Rightarrow> None | Some s \<Rightarrow> if \<not> strdup_ok then None else Some (map to_lower_char s))"

text \<open>The allocations of one call: the lower-case name, the node, its value, and those of the insertion.\<close>

record header_memory =
  sm_name :: bool
  sm_node :: bool
  sm_value :: bool
  sm_put :: put_memory

text \<open>\<open>previous->next = headerValue\<close> for the last node of the chain of a name that is in the map.\<close>

definition append_node :: "bool \<Rightarrow> string \<Rightarrow> string \<Rightarrow> Http_HeaderValue Netstack_HashMap \<Rightarrow> Http_HeaderValue Netstack_HashMap" where
  "append_node sg name v m =
     (let i = unat (Netstack_Hash sg name (hm_capacity m))
      in m\<lparr>hm_entries := (hm_entries m)[i :=
           map (\<lambda>e. if he_key e = name then e\<lparr>he_value := he_value e @ [v]\<rparr> else e) (hm_entries m ! i)]\<rparr>)"

definition OH_Http_SetHeaderValue ::
  "bool \<Rightarrow> header_memory \<Rightarrow> Http_Headers option \<Rightarrow> string option \<Rightarrow> string option \<Rightarrow> Http_ErrCode \<times> Http_Headers option" where
  "OH_Http_SetHeaderValue sg mem headers name value =
     (case (headers, name, value) of
        (Some h, Some n, Some v) \<Rightarrow>
          (case hd_fields h of
             None \<Rightarrow> (OH_HTTP_PARAMETER_ERROR, headers)
           | Some m \<Rightarrow>
               if CHR 0x0D \<in> set n \<or> CHR 0x0A \<in> set n \<or> CHR 0x0D \<in> set v \<or> CHR 0x0A \<in> set v
               then (OH_HTTP_PARAMETER_ERROR, headers)
               else case OH_Http_ToLowerCase (sm_name mem) name of
                 None \<Rightarrow> (OH_HTTP_OUT_OF_MEMORY, headers)
               | Some lowerName \<Rightarrow>
                   let existValue = Netstack_GetMapEntry sg (Some m) (Some lowerName)
                   in if existValue \<noteq> None \<and> v \<in> set (the existValue) then (OH_HTTP_RESULT_OK, headers)
                      else if \<not> sm_node mem then (OH_HTTP_OUT_OF_MEMORY, headers)
                      else if \<not> sm_value mem then (OH_HTTP_OUT_OF_MEMORY, headers)
                      else if existValue = None
                      then let (res, m') = Netstack_PutMapEntry sg (sm_put mem) (Some m) (Some lowerName) [v]
                           in (res, Some (h\<lparr>hd_fields := m'\<rparr>))
                      else (OH_HTTP_RESULT_OK, Some (h\<lparr>hd_fields := Some (append_node sg lowerName v m)\<rparr>)))
      | _ \<Rightarrow> (OH_HTTP_PARAMETER_ERROR, headers))"

definition OH_Http_GetHeaderValue :: "bool \<Rightarrow> bool \<Rightarrow> Http_Headers option \<Rightarrow> string option \<Rightarrow> Http_HeaderValue option" where
  "OH_Http_GetHeaderValue sg strdup_ok headers name =
     (case (headers, name) of
        (Some h, Some n) \<Rightarrow>
          if hd_fields h = None then None
          else (case OH_Http_ToLowerCase strdup_ok name of
                  None \<Rightarrow> None
                | Some lowerName \<Rightarrow> Netstack_GetMapEntry sg (hd_fields h) (Some lowerName))
      | _ \<Rightarrow> None)"

text \<open>
  The loop of \<open>OH_Http_GetHeaderEntries\<close>: \<open>alloc i\<close> is the outcome of the allocation of entry \<open>i\<close>; a null
  result is \<open>Some None\<close>.
\<close>

partial_function (option) header_entries_loop ::
  "(nat \<Rightarrow> bool) \<Rightarrow> nat \<Rightarrow> Http_HeaderValue Netstack_MapIterator \<Rightarrow> Http_HeaderEntry list \<Rightarrow> Http_HeaderEntry list option option" where
  "header_entries_loop alloc i ite acc =
     (case mi_currentEntry ite of
        [] \<Rightarrow> Some (Some acc)
      | e # _ \<Rightarrow>
          let acc' = acc @ [\<lparr>en_key = he_key e, en_value = he_value e\<rparr>];
              ite' = Netstack_MapIterateNext ite
          in if mi_currentEntry ite' \<noteq> []
             then if \<not> alloc (Suc i) then Some None
                  else header_entries_loop alloc (Suc i) ite' acc'
             else Some (Some acc'))"

definition OH_Http_GetHeaderEntries :: "bool \<Rightarrow> (nat \<Rightarrow> bool) \<Rightarrow> Http_Headers option \<Rightarrow> Http_HeaderEntry list option option" where
  "OH_Http_GetHeaderEntries malloc_ok alloc headers =
     (case headers of
        None \<Rightarrow> Some None
      | Some h \<Rightarrow>
          if hd_fields h = None then Some None
          else case Netstack_CreateMapIterator malloc_ok (hd_fields h) of
                 None \<Rightarrow> Some None
               | Some ite \<Rightarrow> if \<not> alloc 0 then Some None else header_entries_loop alloc 0 ite [])"

text \<open>The entries are freed one by one; the keys and values belong to the header object.\<close>

fun OH_Http_DestroyHeaderEntries :: "Http_HeaderEntry list \<Rightarrow> Http_HeaderEntry list" where
  "OH_Http_DestroyHeaderEntries [] = []"
| "OH_Http_DestroyHeaderEntries (entry # next_ptr) = OH_Http_DestroyHeaderEntries next_ptr"

fun set_header_values :: "(nat \<Rightarrow> header_memory) \<Rightarrow> nat \<Rightarrow> bool \<Rightarrow> headers \<Rightarrow> Http_Headers option \<Rightarrow> Http_Headers option" where
  "set_header_values mem i sg [] cHeaders = cHeaders"
| "set_header_values mem i sg (p # ps) cHeaders =
     set_header_values mem (Suc i) sg ps
       (if fst p \<noteq> [] \<and> snd p \<noteq> []
        then snd (OH_Http_SetHeaderValue sg (mem i) cHeaders (Some (c_str (fst p))) (Some (c_str (snd p))))
        else cHeaders)"

definition OH_Http_ToCHeaders ::
  "bool \<Rightarrow> bool \<times> bool \<times> bool \<Rightarrow> (nat \<Rightarrow> header_memory) \<Rightarrow> headers \<Rightarrow> Http_Headers option" where
  "OH_Http_ToCHeaders sg create mem ps =
     (case create of (a, b, c) \<Rightarrow>
        case OH_Http_CreateHeaders a b c of
          None \<Rightarrow> None
        | Some h \<Rightarrow> set_header_values mem 0 sg ps (Some h))"

section \<open>Options\<close>

fun set_values :: "string \<Rightarrow> Http_HeaderValue \<Rightarrow> HttpClientRequest \<Rightarrow> HttpClientRequest" where
  "set_values key [] httpReq = httpReq"
| "set_values key (v # vs) httpReq = set_values key vs (SetHeader httpReq key v)"

fun set_entries :: "Http_HeaderEntry list \<Rightarrow> HttpClientRequest \<Rightarrow> HttpClientRequest" where
  "set_entries [] httpReq = httpReq"
| "set_entries (e # es) httpReq = set_entries es (set_values (en_key e) (en_value e) httpReq)"

definition OH_Http_SetHeaderData ::
  "bool \<Rightarrow> (nat \<Rightarrow> bool) \<Rightarrow> Http_Headers option \<Rightarrow> HttpClientRequest \<Rightarrow> HttpClientRequest option" where
  "OH_Http_SetHeaderData malloc_ok alloc headers httpReq =
     (if headers = None then Some httpReq
      else map_option (\<lambda>entries. case entries of None \<Rightarrow> httpReq | Some es \<Rightarrow> set_entries es httpReq)
             (OH_Http_GetHeaderEntries malloc_ok alloc headers))"

datatype Http_HttpProtocol = OH_HTTP_NONE | OH_HTTP1_1 | OH_HTTP2 | OH_HTTP3
datatype Http_CertType = OH_HTTP_PEM | OH_HTTP_DER | OH_HTTP_P12
datatype Http_ProxyType = HTTP_PROXY_NOT_USE | HTTP_PROXY_SYSTEM | HTTP_PROXY_CUSTOM
datatype Http_AddressFamilyType = HTTP_ADDRESS_FAMILY_DEFAULT | HTTP_ADDRESS_FAMILY_ONLY_V4 | HTTP_ADDRESS_FAMILY_ONLY_V6

record Http_ClientCert =
  hc_certPath :: "string option"
  hc_type :: Http_CertType
  hc_keyPath :: "string option"
  hc_keyPassword :: "string option"

record Http_CustomProxy =
  cx_host :: "string option"
  cx_port :: int
  cx_exclusionLists :: "string option"

record Http_Proxy =
  hp_proxyType :: Http_ProxyType
  hp_customProxy :: Http_CustomProxy

record Http_RequestOptions =
  op_method :: "string option"
  op_priority :: u32
  op_headers :: "Http_Headers option"
  op_readTimeout :: u32
  op_connectTimeout :: u32
  op_httpProtocol :: Http_HttpProtocol
  op_httpProxy :: "Http_Proxy option"
  op_caPath :: "string option"
  op_resumeFrom :: int
  op_resumeTo :: int
  op_clientCert :: "Http_ClientCert option"
  op_dnsOverHttps :: "string option"
  op_addressFamily :: Http_AddressFamilyType

record Http_Request =
  hr_requestId :: u32
  hr_url :: "string option"
  hr_options :: "Http_RequestOptions option"

definition OH_Http_CreateRequest :: "bool \<Rightarrow> bool \<Rightarrow> string option \<Rightarrow> Http_Request option" where
  "OH_Http_CreateRequest calloc_ok strdup_ok url =
     (case url of
        None \<Rightarrow> None
      | Some u \<Rightarrow>
          if \<not> calloc_ok then None
          else if \<not> strdup_ok then None
          else Some \<lparr>hr_requestId = 0, hr_url = Some u, hr_options = None\<rparr>)"

text \<open>
  The casts between the enumerations go through their numbers: \<open>HTTP_PROXY_CUSTOM\<close> is 2, the number of
  \<open>PROXY_TYPE_MAX\<close>.
\<close>

fun cast_proxyType :: "Http_ProxyType \<Rightarrow> HttpProxyType" where
  "cast_proxyType HTTP_PROXY_NOT_USE = NOT_USE"
| "cast_proxyType HTTP_PROXY_SYSTEM = USE_SPECIFIED"
| "cast_proxyType HTTP_PROXY_CUSTOM = PROXY_TYPE_MAX"

fun cast_httpProtocol :: "Http_HttpProtocol \<Rightarrow> HttpProtocol" where
  "cast_httpProtocol OH_HTTP_NONE = HTTP_NONE"
| "cast_httpProtocol OH_HTTP1_1 = HTTP1_1"
| "cast_httpProtocol OH_HTTP2 = HTTP2"
| "cast_httpProtocol OH_HTTP3 = HTTP3"

fun cert_type_text :: "Http_CertType \<Rightarrow> string" where
  "cert_type_text OH_HTTP_PEM = ''PEM''"
| "cert_type_text OH_HTTP_DER = ''DER''"
| "cert_type_text OH_HTTP_P12 = ''P12''"

fun address_family_text :: "Http_AddressFamilyType \<Rightarrow> string" where
  "address_family_text HTTP_ADDRESS_FAMILY_ONLY_V4 = ''ONLY_V4''"
| "address_family_text HTTP_ADDRESS_FAMILY_ONLY_V6 = ''ONLY_V6''"
| "address_family_text HTTP_ADDRESS_FAMILY_DEFAULT = ''DEFAULT''"

definition or_empty :: "string option \<Rightarrow> string" where
  "or_empty p = (case p of None \<Rightarrow> [] | Some s \<Rightarrow> s)"

definition OH_Http_SetOtherOption :: "HttpClientRequest \<Rightarrow> Http_RequestOptions \<Rightarrow> HttpClientRequest" where
  "OH_Http_SetOtherOption httpReq options =
     (let r1 = (case op_clientCert options of
                  None \<Rightarrow> httpReq
                | Some c \<Rightarrow> SetClientCert httpReq
                    \<lparr>cc_certPath = or_empty (hc_certPath c), cc_certType = cert_type_text (hc_type c),
                     cc_keyPath = or_empty (hc_keyPath c), cc_keyPassword = or_empty (hc_keyPassword c)\<rparr>)
      in SetAddressFamily r1 (address_family_text (op_addressFamily options)))"

definition set_proxy :: "HttpClientRequest \<Rightarrow> Http_Proxy \<Rightarrow> HttpClientRequest" where
  "set_proxy httpReq p =
     (let r1 = SetHttpProxyType httpReq (cast_proxyType (hp_proxyType p))
      in case (cx_host (hp_customProxy p), cx_exclusionLists (hp_customProxy p)) of
           (Some host, Some exclusions) \<Rightarrow>
             SetHttpProxy r1 \<lparr>px_host = host, px_port = cx_port (hp_customProxy p), px_exclusions = exclusions, px_tunnel = False\<rparr>
         | _ \<Rightarrow> r1)"

definition OH_Http_SetOption ::
  "bool \<Rightarrow> (nat \<Rightarrow> bool) \<Rightarrow> HttpClientRequest \<Rightarrow> Http_RequestOptions \<Rightarrow> HttpClientRequest option" where
  "OH_Http_SetOption malloc_ok alloc httpReq options =
     (let r1 = (case op_method options of None \<Rightarrow> httpReq | Some m \<Rightarrow> SetMethod httpReq m);
          r2 = SetPriority r1 (op_priority options);
          r3 = (if op_readTimeout options \<noteq> 0 then SetTimeout r2 (op_readTimeout options) else r2);
          r4 = (if op_connectTimeout options \<noteq> 0 then SetConnectTimeout r3 (op_connectTimeout options) else r3)
      in map_option (\<lambda>r5.
           let r6 = (case op_httpProxy options of None \<Rightarrow> r5 | Some p \<Rightarrow> set_proxy r5 p);
               r7 = SetHttpProtocol r6 (cast_httpProtocol (op_httpProtocol options));
               r8 = (case op_caPath options of None \<Rightarrow> r7 | Some p \<Rightarrow> SetCaPath r7 p);
               r9 = (if op_method options = None \<or> op_method options = Some HTTP_METHOD_GET
                     then SetResumeTo (SetResumeFrom r8 (op_resumeFrom options)) (op_resumeTo options) else r8)
           in OH_Http_SetOtherOption r9 options)
         (OH_Http_SetHeaderData malloc_ok alloc (op_headers options) r4))"

section \<open>Callbacks\<close>

record Http_Response =
  hs_buffer :: "string option"
  hs_length :: nat
  hs_responseCode :: nat
  hs_headers :: "Http_Headers option"
  hs_cookies :: "string option"

text \<open>The strings that are freed with a response, in order.\<close>

definition OH_Http_DestroyResponse :: "Http_Response option \<Rightarrow> string list \<times> Http_Response option" where
  "OH_Http_DestroyResponse response =
     (case response of
        None \<Rightarrow> ([], None)
      | Some r \<Rightarrow>
          (fst (OH_Http_DestroyHeaders (hs_headers r)) @
           (case hs_buffer r of None \<Rightarrow> [] | Some b \<Rightarrow> [b]) @ (case hs_cookies r of None \<Rightarrow> [] | Some c \<Rightarrow> [c]), None))"

text \<open>The callbacks of the client that are set (\<open>callback\<close> is checked at the start of a request).\<close>

record Http_EventsHandler =
  eh_onDataReceive :: bool
  eh_onUploadProgress :: bool
  eh_onDownloadProgress :: bool
  eh_onHeadersReceive :: bool
  eh_onDataEnd :: bool
  eh_onCanceled :: bool

datatype c_code = C_Code Http_ErrCode | C_Error HttpErrorCode

datatype c_event =
    C_Response "Http_Response option" c_code
  | C_DataEnd
  | C_Canceled
  | C_DataReceive string nat
  | C_HeadersReceive "Http_Headers option"
  | C_UploadProgress int int
  | C_DownloadProgress int int

record callback_memory =
  cm_response :: bool
  cm_cookies :: bool
  cm_body :: bool
  cm_timing :: bool
  cm_create :: "bool \<times> bool \<times> bool"
  cm_headers :: "nat \<Rightarrow> header_memory"

definition strdup :: "bool \<Rightarrow> string \<Rightarrow> string option" where
  "strdup ok s = (if ok then Some (c_str s) else None)"

definition data_end :: "Http_EventsHandler \<Rightarrow> c_event list" where
  "data_end handler = (if eh_onDataEnd handler then [C_DataEnd] else [])"

definition OH_Http_RequestOnSuccess ::
  "bool \<Rightarrow> callback_memory \<Rightarrow> Http_EventsHandler \<Rightarrow> HttpClientResponse \<Rightarrow> c_event list" where
  "OH_Http_RequestOnSuccess sg mem handler response =
     (if \<not> cm_response mem then [C_Response None (C_Code OH_HTTP_OUT_OF_MEMORY)]
      else if \<not> cm_timing mem then [C_Response None (C_Code OH_HTTP_OUT_OF_MEMORY)]
      else C_Response (Some
             \<lparr>hs_buffer = strdup (cm_body mem) (rs_result response), hs_length = length (rs_result response),
              hs_responseCode = rs_responseCode response,
              hs_headers = OH_Http_ToCHeaders sg (cm_create mem) (cm_headers mem) (rs_headers response),
              hs_cookies = strdup (cm_cookies mem) (rs_cookies response)\<rparr>) (C_Code OH_HTTP_RESULT_OK) # data_end handler)"

definition OH_Http_RequestOnCancel :: "Http_EventsHandler \<Rightarrow> c_event list" where
  "OH_Http_RequestOnCancel handler = (if eh_onCanceled handler then [C_Canceled] else [])"

definition OH_Http_RequestOnFail ::
  "callback_memory \<Rightarrow> Http_EventsHandler \<Rightarrow> HttpClientResponse \<Rightarrow> HttpClientError \<Rightarrow> c_event list" where
  "OH_Http_RequestOnFail mem handler response error =
     (if \<not> cm_response mem then [C_Response None (C_Code OH_HTTP_OUT_OF_MEMORY)]
      else C_Response (Some \<lparr>hs_buffer = None, hs_length = 0, hs_responseCode = rs_responseCode response,
             hs_headers = None, hs_cookies = None\<rparr>) (C_Error (er_errorCode error)) # data_end handler)"

definition OH_Http_RequestOnDataReceive :: "Http_EventsHandler \<Rightarrow> string \<Rightarrow> c_event list" where
  "OH_Http_RequestOnDataReceive handler data = (if eh_onDataReceive handler then [C_DataReceive data (length data)] else [])"

definition OH_Http_RequestOnHeadersReceive ::
  "bool \<Rightarrow> callback_memory \<Rightarrow> Http_EventsHandler \<Rightarrow> headers \<Rightarrow> c_event list" where
  "OH_Http_RequestOnHeadersReceive sg mem handler headerWithSetCookie =
     (if eh_onHeadersReceive handler
      then [C_HeadersReceive (OH_Http_ToCHeaders sg (cm_create mem) (cm_headers mem) headerWithSetCookie)] else [])"

definition OH_Http_RequestOnProgress :: "Http_EventsHandler \<Rightarrow> int \<Rightarrow> int \<Rightarrow> int \<Rightarrow> int \<Rightarrow> c_event list" where
  "OH_Http_RequestOnProgress handler dlTotal dlNow ulTotal ulNow =
     (if ulTotal \<noteq> 0 \<and> ulTotal \<ge> ulNow \<and> eh_onUploadProgress handler then [C_UploadProgress ulTotal ulNow] else []) @
     (if dlTotal \<noteq> 0 \<and> eh_onDownloadProgress handler then [C_DownloadProgress dlTotal dlNow] else [])"

text \<open>What the client sees of an event of the task.\<close>

fun c_callbacks :: "bool \<Rightarrow> callback_memory \<Rightarrow> Http_EventsHandler \<Rightarrow> event \<Rightarrow> c_event list" where
  "c_callbacks sg mem handler (On_Succeeded q r) = OH_Http_RequestOnSuccess sg mem handler r"
| "c_callbacks sg mem handler (On_Canceled q r) = OH_Http_RequestOnCancel handler"
| "c_callbacks sg mem handler (On_Failed q r e) = OH_Http_RequestOnFail mem handler r e"
| "c_callbacks sg mem handler (On_DataReceive q d) = OH_Http_RequestOnDataReceive handler d"
| "c_callbacks sg mem handler (On_HeadersReceive q h) = OH_Http_RequestOnHeadersReceive sg mem handler h"
| "c_callbacks sg mem handler (On_HeaderReceive q h) = []"
| "c_callbacks sg mem handler (On_Progress q a b c d) = OH_Http_RequestOnProgress handler a b c d"

section \<open>Requests\<close>

text \<open>
  The tasks are objects on the heap (\<open>as_tasks\<close>, by address); the registry \<open>cppRequestTask\<close> maps the
  identifier of a request to the address of its task; \<open>as_rest\<close> is the state the tasks share.
\<close>

record 's api_state =
  as_tasks :: "HttpClientTask list"
  as_registry :: "u32 \<Rightarrow> nat option"
  as_nextTaskId :: u32
  as_cache :: cache_global
  as_mgr :: HttpInterceptorMgr
  as_world :: 's

definition CreateTask :: "curl_env \<Rightarrow> bool \<Rightarrow> HttpClientRequest \<Rightarrow> 's api_state \<Rightarrow> nat option \<times> 's api_state" where
  "CreateTask env handle_ok request g =
     (let g1 = g\<lparr>as_nextTaskId := as_nextTaskId g + 1\<rparr>
      in if \<not> handle_ok then (None, g1)
         else (Some (length (as_tasks g)),
               g1\<lparr>as_tasks := as_tasks g @ [new_HttpClientTask env (as_nextTaskId g) request TASK_DEFAULT []]\<rparr>))"

definition with_callbacks :: "HttpClientTask \<Rightarrow> HttpClientTask" where
  "with_callbacks t = OnProgress (OnHeadersReceive (OnDataReceive (OnFail (OnCancel (OnSuccess t)))))"

definition OH_Http_Request ::
  "('j, 's) run_env \<Rightarrow> bool \<times> bool \<times> (nat \<Rightarrow> bool) \<Rightarrow> Http_Request option \<Rightarrow> bool \<Rightarrow> 's api_state \<Rightarrow>
   (c_code \<times> event list \<times> Http_Request option \<times> 's api_state) option" where
  "OH_Http_Request env mem request callback g =
     (case request of
        None \<Rightarrow> Some (C_Code OH_HTTP_OUT_OF_MEMORY, [], request, g)
      | Some rq \<Rightarrow>
          if \<not> callback then Some (C_Code OH_HTTP_OUT_OF_MEMORY, [], request, g)
          else case hr_url rq of
            None \<Rightarrow> None
          | Some url \<Rightarrow> do {
              let httpReq = SetURL new_HttpClientRequest url;
              httpReq' \<leftarrow> (case hr_options rq of
                             None \<Rightarrow> Some httpReq
                           | Some options \<Rightarrow> OH_Http_SetOption (fst (snd mem)) (snd (snd mem)) httpReq options);
              let (task, g1) = CreateTask (re_curl env) (fst mem) httpReq' g;
              case task of
                None \<Rightarrow> Some (C_Code OH_HTTP_OUT_OF_MEMORY, [], request, g1)
              | Some p \<Rightarrow> do {
                  (started, s) \<leftarrow> Start env
                    \<lparr>rt_task = with_callbacks (as_tasks g1 ! p), rt_isSuccess = False, rt_handoverInfo = [],
                     rt_cache = as_cache g1, rt_mgr = as_mgr g1, rt_world = as_world g1, rt_events = []\<rparr>;
                  let g2 = g1\<lparr>as_tasks := (as_tasks g1)[p := rt_task s], as_cache := rt_cache s, as_mgr := rt_mgr s,
                              as_world := rt_world s\<rparr>;
                  Some (if \<not> started then (C_Error (er_errorCode (ta_error (rt_task s))), rt_events s, request, g2)
                        else (C_Code OH_HTTP_RESULT_OK, rt_events s, Some (rq\<lparr>hr_requestId := ta_taskId (rt_task s)\<rparr>),
                              g2\<lparr>as_registry := (as_registry g2)(ta_taskId (rt_task s) \<mapsto> p)\<rparr>))
                }
            })"

definition OH_Http_Destroy :: "Http_Request option \<Rightarrow> 's api_state \<Rightarrow> Http_Request option \<times> 's api_state" where
  "OH_Http_Destroy request g =
     (case request of
        None \<Rightarrow> (None, g)
      | Some rq \<Rightarrow>
          (None,
           case as_registry g (hr_requestId rq) of
             None \<Rightarrow> g
           | Some p \<Rightarrow> g\<lparr>as_tasks := (as_tasks g)[p := Cancel (as_tasks g ! p)],
                         as_registry := (as_registry g)(hr_requestId rq := None)\<rparr>))"

end
