(* ===== verification/Net_Http_C_Correct.thy ===== *)
theory Net_Http_C_Correct
  imports Net_Http_C Hash_Map_Correct
begin

text \<open>
  The C interface behaves as its documentation says: header objects are multimaps without duplicates
  and without regard to case, built on the contract of the hash map; what reaches the request and the
  client of them.
\<close>

section \<open>Header objects\<close>

lemma append_chain:
  "find_entry k c = Some vs \<Longrightarrow>
    find_entry k' (map (\<lambda>e. if he_key e = k then e\<lparr>he_value := he_value e @ [v]\<rparr> else e) c) =
      (if k' = k then Some (vs @ [v]) else find_entry k' c)"
proof (cases "k' = k")
  case False
  then show ?thesis by (induction c) auto
next
  case True
  moreover assume "find_entry k c = Some vs"
  ultimately show ?thesis by (induction c) auto
qed

lemma append_node_spec:
  assumes "hm_inv sg m" "hm_content m k = Some vs"
  shows "hm_inv sg (append_node sg k v m) \<and> hm_content (append_node sg k v m) = (hm_content m)(k \<mapsto> vs @ [v])"
proof -
  let ?cap = "hm_capacity m" and ?bs = "hm_entries m"
  define i where "i = unat (Netstack_Hash sg k ?cap)"
  define c where "c = map (\<lambda>e. if he_key e = k then e\<lparr>he_value := he_value e @ [v]\<rparr> else e) (?bs ! i)"
  have b: "buckets_ok sg ?cap ?bs" "cap_ok ?cap" "hm_size m = of_nat (used ?bs)"
    using assms(1) by (auto simp: hm_inv_def)
  have i: "i < length ?bs"
    using buckets_index [OF b(1)] by (simp add: i_def)
  have chain: "distinct (map he_key (?bs ! i))" "\<forall>x \<in> set (?bs ! i). unat (Netstack_Hash sg (he_key x) ?cap) = i"
    using b(1) i by (auto simp: buckets_ok_def)
  have f: "find_entry k (?bs ! i) = Some vs"
    using assms(2) content_lookup [OF b(1)] by (simp add: hm_content_def i_def)
  have a: "map he_key c = map he_key (?bs ! i)" "\<And>k'. find_entry k' c = (if k' = k then Some (vs @ [v]) else find_entry k' (?bs ! i))"
    using append_chain [OF f] by (simp_all add: c_def)
  have ok: "buckets_ok sg ?cap (?bs[i := c])"
    using keys_same_placed [OF a(1), of "\<lambda>x. unat (Netstack_Hash sg x ?cap) = i"] chain a(1)
    by (intro buckets_update [OF b(1)]) auto
  have "content_of (?bs[i := c]) = (content_of ?bs)(k \<mapsto> vs @ [v])"
    using ok a(2) unfolding i_def by (intro content_change [OF b(1)]) auto
  moreover have "used (?bs[i := c]) = used ?bs"
    using used_update [OF i, of c] f by (cases "?bs ! i") (auto simp: c_def)
  ultimately show ?thesis
    using ok b(2,3) by (simp add: append_node_def i_def [symmetric] c_def [symmetric] hm_inv_def hm_content_def)
qed

text \<open>The contents of a header object: lower-case names with the values in the order in which they were set.\<close>

definition fields_inv :: "bool \<Rightarrow> Http_HeaderValue Netstack_HashMap \<Rightarrow> bool" where
  "fields_inv sg m \<longleftrightarrow> hm_inv sg m \<and>
     (\<forall>k vs. hm_content m k = Some vs \<longrightarrow> ToLower k = k \<and> vs \<noteq> [] \<and> distinct vs)"

definition no_crlf :: "string \<Rightarrow> bool" where
  "no_crlf s \<longleftrightarrow> CHR 0x0D \<notin> set s \<and> CHR 0x0A \<notin> set s"

definition add_value :: "string \<Rightarrow> string list option \<Rightarrow> string list" where
  "add_value v p = (case p of None \<Rightarrow> [v] | Some vs \<Rightarrow> if v \<in> set vs then vs else vs @ [v])"

lemma ToLower_idem [simp]: "ToLower (ToLower s) = ToLower s"
  by (simp add: ToLower_def)

lemma Put_fields:
  assumes "hm_inv sg m" "Netstack_PutMapEntry sg mem (Some m) (Some k) v = (r, p)"
  shows "\<exists>m'. p = Some m' \<and> hm_inv sg m' \<and>
    hm_content m' = (if r = OH_HTTP_RESULT_OK then (hm_content m)(k \<mapsto> v) else hm_content m) \<and>
    (enough_memory mem \<longrightarrow> r = OH_HTTP_RESULT_OK)"
  using Put_shape [OF assms(2,1)] hm.put_inv [OF assms(1)] hm.put_content [OF assms(1), of mem k v]
    hm.put_succeeds [OF assms(1)] by auto

lemma SetHeaderValue_eq:
  assumes "hd_fields h = Some m" "hm_inv sg m" "no_crlf n" "no_crlf v"
  shows "OH_Http_SetHeaderValue sg mem (Some h) (Some n) (Some v) =
    (if \<not> sm_name mem then (OH_HTTP_OUT_OF_MEMORY, Some h)
     else case hm_content m (ToLower n) of
       None \<Rightarrow>
         if \<not> (sm_node mem \<and> sm_value mem) then (OH_HTTP_OUT_OF_MEMORY, Some h)
         else (case Netstack_PutMapEntry sg (sm_put mem) (Some m) (Some (ToLower n)) [v] of
                 (r, p) \<Rightarrow> (r, Some (h\<lparr>hd_fields := p\<rparr>)))
     | Some vs \<Rightarrow>
         if v \<in> set vs then (OH_HTTP_RESULT_OK, Some h)
         else if \<not> (sm_node mem \<and> sm_value mem) then (OH_HTTP_OUT_OF_MEMORY, Some h)
         else (OH_HTTP_RESULT_OK, Some (h\<lparr>hd_fields := Some (append_node sg (ToLower n) v m)\<rparr>)))"
  using assms Get_content [OF assms(2), of "ToLower n"]
  by (cases "hm_content m (ToLower n)")
    (auto simp: OH_Http_SetHeaderValue_def OH_Http_ToLowerCase_def no_crlf_def simp flip: ToLower_def)

lemma SetHeaderValue_crlf:
  "hd_fields h = Some m \<Longrightarrow> \<not> (no_crlf n \<and> no_crlf v) \<Longrightarrow>
    OH_Http_SetHeaderValue sg mem (Some h) (Some n) (Some v) = (OH_HTTP_PARAMETER_ERROR, Some h)"
  by (auto simp: OH_Http_SetHeaderValue_def no_crlf_def)

definition set_effect :: "header_memory \<Rightarrow> string \<Rightarrow> string \<Rightarrow> (string \<Rightarrow> string list option) \<Rightarrow> Http_ErrCode \<Rightarrow> (string \<Rightarrow> string list option) \<Rightarrow> bool" where
  "set_effect mem n v c r c' \<longleftrightarrow>
     c' = (if r = OH_HTTP_RESULT_OK then c(ToLower n \<mapsto> add_value v (c (ToLower n))) else c) \<and>
     (r = OH_HTTP_PARAMETER_ERROR \<longleftrightarrow> \<not> (no_crlf n \<and> no_crlf v)) \<and>
     (sm_name mem \<and> sm_node mem \<and> sm_value mem \<and> enough_memory (sm_put mem) \<and> no_crlf n \<and> no_crlf v \<longrightarrow> r = OH_HTTP_RESULT_OK)"

lemma SetHeaderValue_spec:
  assumes "hd_fields h = Some m" "hm_inv sg m" "OH_Http_SetHeaderValue sg mem (Some h) (Some n) (Some v) = (r, p)"
  shows "\<exists>m'. p = Some (h\<lparr>hd_fields := Some m'\<rparr>) \<and> hm_inv sg m' \<and> set_effect mem n v (hm_content m) r (hm_content m')"
proof (cases "no_crlf n \<and> no_crlf v")
  case False
  then show ?thesis
    using SetHeaderValue_crlf [OF assms(1)] assms by (intro exI [of _ m]) (auto simp: set_effect_def)
next
  case True
  note eq = SetHeaderValue_eq [OF assms(1,2) conjunct1 [OF True] conjunct2 [OF True], of mem]
  have same: "hd_fields_update (\<lambda>_. Some m) h = h"
    using assms(1) by (cases h) simp
  have keep: ?thesis if "p = Some h" "set_effect mem n v (hm_content m) r (hm_content m)"
    using that assms(2) same by (intro exI [of _ m]) simp
  show ?thesis
  proof (cases "hm_content m (ToLower n)")
    case None
    show ?thesis
    proof (cases "sm_name mem \<and> sm_node mem \<and> sm_value mem")
      case False
      then have "r = OH_HTTP_OUT_OF_MEMORY" "p = Some h"
        using assms(3) [unfolded eq None] by (simp_all split: if_splits)
      then show ?thesis
        using True False by (intro keep) (auto simp: set_effect_def)
    next
      case ok: True
      obtain r1 p1 where rp: "Netstack_PutMapEntry sg (sm_put mem) (Some m) (Some (ToLower n)) [v] = (r1, p1)"
        by fastforce
      have "r1 \<noteq> OH_HTTP_PARAMETER_ERROR"
        using rp assms(2) cap_ok_valid [of m]
        by (auto simp: Netstack_PutMapEntry_def hm_inv_def split: list.splits option.splits if_splits)
      moreover have "r = r1" "p = Some (h\<lparr>hd_fields := p1\<rparr>)"
        using assms(3) [unfolded eq None] ok rp by simp_all
      ultimately show ?thesis
        using Put_fields [OF assms(2) rp] True None by (auto simp: set_effect_def add_value_def)
    qed
  next
    case (Some vs)
    show ?thesis
    proof (cases "v \<in> set vs \<or> \<not> (sm_name mem \<and> sm_node mem \<and> sm_value mem)")
      case c: True
      have "(hm_content m)(ToLower n \<mapsto> vs) = hm_content m"
        using Some by auto
      moreover have "p = Some h" "r = OH_HTTP_OUT_OF_MEMORY \<or> r = OH_HTTP_RESULT_OK \<and> v \<in> set vs"
        "r = OH_HTTP_OUT_OF_MEMORY \<Longrightarrow> \<not> (sm_name mem \<and> sm_node mem \<and> sm_value mem)"
        using assms(3) [unfolded eq Some] c by (auto split: if_splits)
      ultimately show ?thesis
        using True Some by (intro keep) (auto simp: set_effect_def add_value_def)
    next
      case c: False
      then have "r = OH_HTTP_RESULT_OK" "p = Some (h\<lparr>hd_fields := Some (append_node sg (ToLower n) v m)\<rparr>)"
        using assms(3) [unfolded eq Some] by simp_all
      then show ?thesis
        using c Some True append_node_spec [OF assms(2) Some, of v] by (auto simp: set_effect_def add_value_def)
    qed
  qed
qed

lemma fields_inv_add:
  assumes "fields_inv sg m" "hm_inv sg m'" "hm_content m' = (hm_content m)(ToLower n \<mapsto> add_value v (hm_content m (ToLower n)))"
  shows "fields_inv sg m'"
  using assms by (auto simp: fields_inv_def add_value_def split: option.splits if_splits)

inductive headers_reach :: "bool \<Rightarrow> Http_Headers \<Rightarrow> bool" for sg where
  created: "OH_Http_CreateHeaders a b c = Some h \<Longrightarrow> headers_reach sg h"
| set_value: "headers_reach sg h \<Longrightarrow> OH_Http_SetHeaderValue sg mem (Some h) n v = (r, Some h') \<Longrightarrow> headers_reach sg h'"

lemma headers_reach_inv: "headers_reach sg h \<Longrightarrow> \<exists>m. hd_fields h = Some m \<and> fields_inv sg m"
proof (induction rule: headers_reach.induct)
  case (created a b c h)
  then obtain m :: "Http_HeaderValue Netstack_HashMap" where m: "CreateMap b c = Some m" "hd_fields h = Some m"
    by (auto simp: OH_Http_CreateHeaders_def split: if_splits option.splits)
  then show ?case
    using CreateMap_inv [OF m(1)] by (simp add: fields_inv_def)
next
  case (set_value h mem n v r h')
  then obtain m where m: "hd_fields h = Some m" "fields_inv sg m"
    by blast
  then have inv: "hm_inv sg m"
    by (simp add: fields_inv_def)
  show ?case
  proof (cases "n = None \<or> v = None")
    case True
    then have "h' = h"
      using set_value.hyps by (auto simp: OH_Http_SetHeaderValue_def split: option.splits)
    then show ?thesis using m by simp
  next
    case False
    then obtain n' v' where nv: "n = Some n'" "v = Some v'" by auto
    obtain m' where m': "h' = h\<lparr>hd_fields := Some m'\<rparr>" "hm_inv sg m'" "set_effect mem n' v' (hm_content m) r (hm_content m')"
      using SetHeaderValue_spec [OF m(1) inv set_value.hyps(2) [unfolded nv]] by auto
    have "fields_inv sg m'"
    proof (cases "r = OH_HTTP_RESULT_OK")
      case True
      then show ?thesis
        using m'(3) by (intro fields_inv_add [OF m(2) m'(2)]) (simp add: set_effect_def)
    next
      case False
      then have "hm_content m' = hm_content m"
        using m'(3) by (simp add: set_effect_def)
      then show ?thesis
        using m(2) m'(2) by (simp add: fields_inv_def)
    qed
    then show ?thesis
      using m'(1) by simp
  qed
qed

lemma GetHeaderValue_content:
  "hd_fields h = Some m \<Longrightarrow> hm_inv sg m \<Longrightarrow> OH_Http_GetHeaderValue sg True (Some h) (Some n) = hm_content m (ToLower n)"
  by (simp add: OH_Http_GetHeaderValue_def OH_Http_ToLowerCase_def ToLower_def Get_content)

section \<open>Entries\<close>

lemma entries_loop:
  assumes "ite_ok sg ite"
  shows "header_entries_loop (\<lambda>_. True) i ite acc =
    Some (Some (acc @ map (\<lambda>e. \<lparr>en_key = he_key e, en_value = he_value e\<rparr>) (pending ite)))"
  using assms
proof (induction "length (pending ite)" arbitrary: ite i acc)
  case 0
  then have "mi_currentEntry ite = []"
    using pending_Nil_iff by auto
  then show ?case
    using 0 by (simp add: header_entries_loop.simps)
next
  case (Suc n)
  then have ne: "mi_currentEntry ite \<noteq> []"
    using pending_Nil_iff by force
  then obtain e es where e: "mi_currentEntry ite = e # es"
    by (cases "mi_currentEntry ite") auto
  note st = MapIterateNext_step [OF Suc.prems ne]
  have p: "pending ite = e # pending (Netstack_MapIterateNext ite)"
    using st(2) by (simp add: pending_def e)
  show ?case
    using Suc.hyps(1) [of "Netstack_MapIterateNext ite"] Suc.hyps(2) st(1) p pending_Nil_iff [OF st(1)]
    by (subst header_entries_loop.simps) (simp add: e)
qed

lemma GetHeaderEntries_spec:
  assumes "hd_fields h = Some m" "hm_inv sg m"
  shows "OH_Http_GetHeaderEntries True (\<lambda>_. True) (Some h) =
    Some (if concat (hm_entries m) = [] then None
          else Some (map (\<lambda>e. \<lparr>en_key = he_key e, en_value = he_value e\<rparr>) (concat (hm_entries m))))"
proof (cases "Netstack_CreateMapIterator True (Some m)")
  case None
  then show ?thesis
    using CreateMapIterator_spec [OF assms(2)] assms(1) by (simp add: OH_Http_GetHeaderEntries_def)
next
  case (Some ite)
  then have i: "ite_ok sg ite" "mi_currentEntry ite \<noteq> []" "pending ite = concat (hm_entries m)"
    using CreateMapIterator_spec [OF assms(2)] by auto
  then have "concat (hm_entries m) \<noteq> []"
    using pending_Nil_iff [OF i(1)] by auto
  then show ?thesis
    unfolding OH_Http_GetHeaderEntries_def
    using Some assms(1) entries_loop [OF i(1), of 0 "[]"] i(3) by simp
qed

lemma set_values_headers:
  "map_of (rq_headers (set_values k vs r)) = (if vs = [] then map_of (rq_headers r) else (map_of (rq_headers r))(ToLower k \<mapsto> last vs))"
  by (induction k vs r rule: set_values.induct) (auto simp: SetHeader_def)

lemma set_entries_headers:
  assumes "\<forall>e \<in> set es. ToLower (en_key e) = en_key e \<and> en_value e \<noteq> []" "distinct (map en_key es)"
  shows "map_of (rq_headers (set_entries es r)) k =
    (case map_of (map (\<lambda>e. (en_key e, en_value e)) es) k of None \<Rightarrow> map_of (rq_headers r) k | Some vs \<Rightarrow> Some (last vs))"
  using assms
proof (induction es r rule: set_entries.induct)
  case (2 e es r)
  have n: "map_of (map (\<lambda>e. (en_key e, en_value e)) es) (en_key e) = None"
    using 2(3) by (auto simp: map_of_eq_None_iff)
  have "map_of (rq_headers (set_values (en_key e) (en_value e) r)) = (map_of (rq_headers r))(en_key e \<mapsto> last (en_value e))"
    using 2(2) by (simp add: set_values_headers)
  moreover have "map_of (rq_headers (set_entries es (set_values (en_key e) (en_value e) r))) k =
      (case map_of (map (\<lambda>e. (en_key e, en_value e)) es) k of
         None \<Rightarrow> map_of (rq_headers (set_values (en_key e) (en_value e) r)) k | Some vs \<Rightarrow> Some (last vs))"
    using 2(2,3) by (intro 2(1)) simp_all
  ultimately show ?case
    using n by (cases "k = en_key e") (simp_all split: option.split)
qed simp

section \<open>Headers for the client\<close>

definition full_memory :: header_memory where
  "full_memory = \<lparr>sm_name = True, sm_node = True, sm_value = True, sm_put = all_memory\<rparr>"

definition sendable :: "string \<times> string \<Rightarrow> bool" where
  "sendable p \<longleftrightarrow> fst p \<noteq> [] \<and> snd p \<noteq> [] \<and> no_crlf (c_str (fst p)) \<and> no_crlf (c_str (snd p))"

lemma set_header_values_spec:
  assumes "hd_fields h = Some m" "hm_inv sg m"
  shows "\<exists>h' m'. set_header_values (\<lambda>_. full_memory) i sg ps (Some h) = Some h' \<and> hd_fields h' = Some m' \<and> hm_inv sg m' \<and>
    hm_content m' = fold (\<lambda>p c. if sendable p
      then c(ToLower (c_str (fst p)) \<mapsto> add_value (c_str (snd p)) (c (ToLower (c_str (fst p))))) else c) ps (hm_content m)"
  using assms
proof (induction ps arbitrary: h m i)
  case (Cons p ps)
  obtain r q where s: "OH_Http_SetHeaderValue sg full_memory (Some h) (Some (c_str (fst p))) (Some (c_str (snd p))) = (r, q)"
    by fastforce
  from SetHeaderValue_spec [OF Cons.prems s] obtain m1 where m1: "q = Some (h\<lparr>hd_fields := Some m1\<rparr>)" "hm_inv sg m1"
    "set_effect full_memory (c_str (fst p)) (c_str (snd p)) (hm_content m) r (hm_content m1)"
    by blast
  show ?case
  proof (cases "fst p \<noteq> [] \<and> snd p \<noteq> []")
    case True
    have "hm_content m1 = (if sendable p
      then (hm_content m)(ToLower (c_str (fst p)) \<mapsto> add_value (c_str (snd p)) (hm_content m (ToLower (c_str (fst p))))) else hm_content m)"
      using m1(3) True by (auto simp: set_effect_def sendable_def full_memory_def enough_memory_def all_memory_def)
    then show ?thesis
      using Cons.IH [of "h\<lparr>hd_fields := Some m1\<rparr>" m1 "Suc i"] m1(1,2) s True by simp
  next
    case False
    then show ?thesis
      using Cons.IH [OF Cons.prems, of "Suc i"] by (auto simp: sendable_def)
  qed
qed simp

lemma fold_distinct:
  assumes "distinct (map (\<lambda>p. ToLower (c_str (fst p))) ps)" "\<forall>p \<in> set ps. c (ToLower (c_str (fst p))) = None"
  shows "fold (\<lambda>p c. if sendable p
      then c(ToLower (c_str (fst p)) \<mapsto> add_value (c_str (snd p)) (c (ToLower (c_str (fst p))))) else c) ps c k =
    (case find (\<lambda>p. ToLower (c_str (fst p)) = k) ps of
       Some p \<Rightarrow> if sendable p then Some [c_str (snd p)] else c k
     | None \<Rightarrow> c k)"
  using assms
proof (induction ps arbitrary: c)
  case (Cons p ps)
  define c' where "c' = (if sendable p
      then c(ToLower (c_str (fst p)) \<mapsto> add_value (c_str (snd p)) (c (ToLower (c_str (fst p))))) else c)"
  have "\<forall>q \<in> set ps. c' (ToLower (c_str (fst q))) = None"
    using Cons.prems by (force simp: c'_def image_iff)
  note ih = Cons.IH [OF _ this]
  show ?case
  proof (cases "k = ToLower (c_str (fst p))")
    case True
    then have "find (\<lambda>p. ToLower (c_str (fst p)) = k) ps = None"
      using Cons.prems(1) by (force simp: find_None_iff image_iff)
    then show ?thesis
      using ih Cons.prems True by (simp add: c'_def add_value_def)
  next
    case False
    then show ?thesis
      using ih Cons.prems by (auto simp: c'_def split: option.split)
  qed
qed simp

lemma new_headers: "headers_reach sg \<lparr>hd_fields = Some new_map\<rparr>"
  by (rule headers_reach.created [of True True True])
    (simp add: OH_Http_CreateHeaders_def CreateMap_def new_map_def DEFAULT_MAP_CAPACITY_def)

lemma new_headers_empty: "OH_Http_GetHeaderValue sg True (Some \<lparr>hd_fields = Some new_map\<rparr>) (Some n) = None"
proof -
  have "hm_content new_map (ToLower n) = (None :: Http_HeaderValue option)"
    by (simp add: hm_content_def new_map_def)
  then show ?thesis
    by (subst GetHeaderValue_content [OF _ hm_reach_inv [OF new_map_reach]]) simp_all
qed

lemma set_header_ok:
  assumes "headers_reach sg h" "no_crlf n" "no_crlf v"
  shows "\<exists>h'. OH_Http_SetHeaderValue sg full_memory (Some h) (Some n) (Some v) = (OH_HTTP_RESULT_OK, Some h') \<and> headers_reach sg h' \<and>
    OH_Http_GetHeaderValue sg True (Some h') (Some n) = Some (add_value v (OH_Http_GetHeaderValue sg True (Some h) (Some n)))"
proof -
  obtain m where m: "hd_fields h = Some m" "hm_inv sg m"
    using headers_reach_inv [OF assms(1)] by (auto simp: fields_inv_def)
  obtain r p where s: "OH_Http_SetHeaderValue sg full_memory (Some h) (Some n) (Some v) = (r, p)"
    by fastforce
  obtain m' where m': "p = Some (h\<lparr>hd_fields := Some m'\<rparr>)" "hm_inv sg m'" "set_effect full_memory n v (hm_content m) r (hm_content m')"
    using SetHeaderValue_spec [OF m s] by blast
  have "r = OH_HTTP_RESULT_OK"
    using m'(3) assms(2,3) by (simp add: set_effect_def full_memory_def enough_memory_def all_memory_def)
  then show ?thesis
    using s m' headers_reach.set_value [OF assms(1)] GetHeaderValue_content [OF m]
      GetHeaderValue_content [of "h\<lparr>hd_fields := Some m'\<rparr>" m' sg] by (auto simp: set_effect_def)
qed

section \<open>Properties\<close>

text \<open>
  C31. A header object is a multimap without regard to the case of names: setting a value appends it to
  the values of its name unless it is there already, and changes no other name; a call that fails
  changes nothing. A line break in name or value is refused as a parameter error, nothing else is,
  and with memory every other call succeeds.
\<close>

theorem header_object_is_multimap:
  assumes "headers_reach sg h" and "OH_Http_SetHeaderValue sg mem (Some h) (Some n) (Some v) = (r, p)"
  shows "OH_Http_GetHeaderValue sg True p (Some k) =
      (if r = OH_HTTP_RESULT_OK \<and> ToLower k = ToLower n
       then Some (add_value v (OH_Http_GetHeaderValue sg True (Some h) (Some k)))
       else OH_Http_GetHeaderValue sg True (Some h) (Some k)) \<and>
    (r = OH_HTTP_PARAMETER_ERROR \<longleftrightarrow> \<not> (no_crlf n \<and> no_crlf v)) \<and>
    (sm_name mem \<and> sm_node mem \<and> sm_value mem \<and> enough_memory (sm_put mem) \<and> no_crlf n \<and> no_crlf v \<longrightarrow> r = OH_HTTP_RESULT_OK)"
proof -
  obtain m where m: "hd_fields h = Some m" "hm_inv sg m"
    using headers_reach_inv [OF assms(1)] by (auto simp: fields_inv_def)
  obtain m' where m': "p = Some (h\<lparr>hd_fields := Some m'\<rparr>)" "hm_inv sg m'" "set_effect mem n v (hm_content m) r (hm_content m')"
    using SetHeaderValue_spec [OF m assms(2)] by blast
  have "OH_Http_GetHeaderValue sg True p (Some k) = hm_content m' (ToLower k)"
    unfolding m'(1) by (rule GetHeaderValue_content [OF _ m'(2)]) simp
  then show ?thesis
    using GetHeaderValue_content [OF m] m'(3) by (simp add: set_effect_def)
qed

theorem header_object_is_multimap_witness:
  "\<exists>p. OH_Http_SetHeaderValue True full_memory (Some \<lparr>hd_fields = Some new_map\<rparr>) (Some ''Accept'') (Some ''a'') = (OH_HTTP_RESULT_OK, p) \<and>
     OH_Http_GetHeaderValue True True p (Some ''ACCEPT'') = Some [''a'']"
proof -
  let ?h = "\<lparr>hd_fields = Some new_map\<rparr>"
  obtain r p where s: "OH_Http_SetHeaderValue True full_memory (Some ?h) (Some ''Accept'') (Some ''a'') = (r, p)"
    by fastforce
  have k: "ToLower ''ACCEPT'' = ToLower ''Accept''" "no_crlf ''Accept''" "no_crlf ''a''"
    by code_simp+
  have e: "OH_Http_GetHeaderValue True True (Some ?h) (Some ''ACCEPT'') = None"
    by (rule new_headers_empty)
  show ?thesis
    using header_object_is_multimap [OF new_headers s, of "''ACCEPT''"] s k
    by (simp add: e add_value_def full_memory_def enough_memory_def all_memory_def)
qed

text \<open>
  C32. Every name of a header object reaches the request, but of several values only the last: the
  request gets one value per name, and its other headers stay.
\<close>

theorem request_gets_last_value:
  assumes "headers_reach sg h"
  shows "\<exists>r'. OH_Http_SetHeaderData True (\<lambda>_. True) (Some h) r = Some r' \<and>
    (\<forall>k. map_of (rq_headers r') k =
      (case if ToLower k = k then OH_Http_GetHeaderValue sg True (Some h) (Some k) else None of
         None \<Rightarrow> map_of (rq_headers r) k
       | Some vs \<Rightarrow> Some (last vs)))"
proof -
  obtain m where m: "hd_fields h = Some m" "fields_inv sg m"
    using headers_reach_inv [OF assms] by blast
  then have inv: "hm_inv sg m"
    by (simp add: fields_inv_def)
  define es where "es = map (\<lambda>e. \<lparr>en_key = he_key e, en_value = he_value e\<rparr>) (concat (hm_entries m))"
  have c: "map_of (map (\<lambda>e. (en_key e, en_value e)) es) = hm_content m"
    by (simp add: es_def hm_content_def content_of_def kv_def [abs_def] comp_def)
  have d: "distinct (map en_key es)"
    using buckets_keys_distinct inv by (auto simp: es_def hm_inv_def comp_def)
  have ok: "\<forall>e \<in> set es. ToLower (en_key e) = en_key e \<and> en_value e \<noteq> []"
  proof
    fix e
    assume "e \<in> set es"
    then have "hm_content m (en_key e) = Some (en_value e)"
      using d by (auto simp: c [symmetric] map_of_eq_Some_iff comp_def)
    then show "ToLower (en_key e) = en_key e \<and> en_value e \<noteq> []"
      using m(2) by (auto simp: fields_inv_def)
  qed
  have "OH_Http_SetHeaderData True (\<lambda>_. True) (Some h) r = Some (set_entries es r)"
    using GetHeaderEntries_spec [OF m(1) inv] unfolding OH_Http_SetHeaderData_def es_def
    by (cases "concat (hm_entries m) = []") (simp_all del: concat_eq_Nil_conv)
  moreover have "map_of (rq_headers (set_entries es r)) k =
      (case if ToLower k = k then OH_Http_GetHeaderValue sg True (Some h) (Some k) else None of
         None \<Rightarrow> map_of (rq_headers r) k | Some vs \<Rightarrow> Some (last vs))" for k
    using set_entries_headers [OF ok d, of r k] m(2) GetHeaderValue_content [OF m(1) inv, of k]
    by (auto simp: c fields_inv_def split: option.split)
  ultimately show ?thesis
    by blast
qed

theorem request_gets_last_value_witness:
  "\<exists>h1 h2 r'. OH_Http_SetHeaderValue True full_memory (Some \<lparr>hd_fields = Some new_map\<rparr>) (Some ''accept'') (Some ''a'') = (OH_HTTP_RESULT_OK, Some h1) \<and>
     OH_Http_SetHeaderValue True full_memory (Some h1) (Some ''accept'') (Some ''b'') = (OH_HTTP_RESULT_OK, Some h2) \<and>
     OH_Http_SetHeaderData True (\<lambda>_. True) (Some h2) new_HttpClientRequest = Some r' \<and>
     OH_Http_GetHeaderValue True True (Some h2) (Some ''accept'') = Some [''a'', ''b''] \<and> map_of (rq_headers r') ''accept'' = Some ''b''"
proof -
  let ?h = "\<lparr>hd_fields = Some new_map\<rparr>"
  have k: "ToLower ''accept'' = ''accept''" "no_crlf ''accept''" "no_crlf ''a''" "no_crlf ''b''"
    by code_simp+
  have e: "OH_Http_GetHeaderValue True True (Some ?h) (Some ''accept'') = None"
    by (rule new_headers_empty)
  obtain h1 where h1: "OH_Http_SetHeaderValue True full_memory (Some ?h) (Some ''accept'') (Some ''a'') = (OH_HTTP_RESULT_OK, Some h1)"
    "headers_reach True h1" "OH_Http_GetHeaderValue True True (Some h1) (Some ''accept'') = Some [''a'']"
    using set_header_ok [OF new_headers k(2,3), of True] unfolding e by (auto simp: add_value_def)
  obtain h2 where h2: "OH_Http_SetHeaderValue True full_memory (Some h1) (Some ''accept'') (Some ''b'') = (OH_HTTP_RESULT_OK, Some h2)"
    "headers_reach True h2" "OH_Http_GetHeaderValue True True (Some h2) (Some ''accept'') = Some [''a'', ''b'']"
    using set_header_ok [OF h1(2) k(2,4)] unfolding h1(3) by (auto simp: add_value_def)
  obtain r' where r': "OH_Http_SetHeaderData True (\<lambda>_. True) (Some h2) new_HttpClientRequest = Some r'"
    "\<forall>k. map_of (rq_headers r') k =
      (case if ToLower k = k then OH_Http_GetHeaderValue True True (Some h2) (Some k) else None of
         None \<Rightarrow> map_of (rq_headers new_HttpClientRequest) k | Some vs \<Rightarrow> Some (last vs))"
    using request_gets_last_value [OF h2(2)] by blast
  have "map_of (rq_headers r') ''accept'' = Some ''b''"
    using spec [OF r'(2), of "''accept''"] k(1) h2(3) by simp
  then show ?thesis
    using h1(1) h2(1,3) r'(1) by blast
qed

text \<open>
  The client gets every header of a response once, except those with an empty name or value or a
  line break: \<open>ToCHeaders\<close> leaves them out. Names are compared without regard to case, strings end at
  their first NUL.
\<close>

lemma client_gets_headers:
  assumes "distinct (map (\<lambda>p. ToLower (c_str (fst p))) ps)"
  shows "OH_Http_GetHeaderValue sg True (OH_Http_ToCHeaders sg (True, True, True) (\<lambda>_. full_memory) ps) (Some k) =
    (case find (\<lambda>p. ToLower (c_str (fst p)) = ToLower k) ps of
       Some p \<Rightarrow> if sendable p then Some [c_str (snd p)] else None
     | None \<Rightarrow> None)"
proof -
  obtain m where m: "OH_Http_CreateHeaders True True True = Some \<lparr>hd_fields = Some m\<rparr>" "CreateMap True True = Some m"
    by (simp add: OH_Http_CreateHeaders_def CreateMap_def)
  obtain h' m' where h': "set_header_values (\<lambda>_. full_memory) 0 sg ps (Some \<lparr>hd_fields = Some m\<rparr>) = Some h'" "hd_fields h' = Some m'"
    "hm_inv sg m'" "hm_content m' = fold (\<lambda>p c. if sendable p
      then c(ToLower (c_str (fst p)) \<mapsto> add_value (c_str (snd p)) (c (ToLower (c_str (fst p))))) else c) ps (hm_content m)"
    using set_header_values_spec [of "\<lparr>hd_fields = Some m\<rparr>" m sg 0 ps] CreateMap_inv(1) [OF m(2)] by auto
  have "OH_Http_GetHeaderValue sg True (OH_Http_ToCHeaders sg (True, True, True) (\<lambda>_. full_memory) ps) (Some k) = hm_content m' (ToLower k)"
    using GetHeaderValue_content [OF h'(2,3)] h'(1) m(1) by (simp add: OH_Http_ToCHeaders_def)
  then show ?thesis
    using fold_distinct [OF assms, of "\<lambda>_. None" "ToLower k"] h'(4) CreateMap_inv(2) [OF m(2)] by simp
qed

end
