(* ===== verification/Byte_Order.thy ===== *)
theory Byte_Order
  imports Netstack_Prelude
begin

text \<open>
  Integers as bytes in memory and on the wire, and writing into a buffer of fixed size: shared by the
  TLV encoder and the SOCKS5 packages.
\<close>

section \<open>Integers as bytes\<close>

text \<open>The \<open>k\<close> low bytes of a number, least significant first, and back.\<close>

fun le_bytes :: "nat \<Rightarrow> nat \<Rightarrow> byte list" where
  "le_bytes 0 n = []"
| "le_bytes (Suc k) n = word_of_nat n # le_bytes k (n div 256)"

fun le_value :: "byte list \<Rightarrow> nat" where
  "le_value [] = 0"
| "le_value (b # bs) = unat b + 256 * le_value bs"

lemma length_le_bytes [simp]: "length (le_bytes k n) = k"
  by (induction k arbitrary: n) auto

lemma le_value_bytes: "le_value (le_bytes k n) = n mod 256 ^ k"
proof (induction k arbitrary: n)
  case (Suc k)
  have "unat (word_of_nat n :: byte) = n mod 256"
    by (simp add: unat_of_nat)
  then show ?case
    using Suc [of "n div 256"] by (simp add: mod_mult2_eq)
qed simp

lemma le_value_u32: "le_value (le_bytes 4 (unat (w :: u32))) = unat w"
  using unsigned_less [of w, where ?'a = nat] by (simp add: le_value_bytes)

text \<open>The order of the host: \<open>be\<close> says whether it is big-endian.\<close>

definition host_bytes :: "bool \<Rightarrow> nat \<Rightarrow> nat \<Rightarrow> byte list" where
  "host_bytes be k n = (if be then rev (le_bytes k n) else le_bytes k n)"

definition host_value :: "bool \<Rightarrow> byte list \<Rightarrow> nat" where
  "host_value be bs = le_value (if be then rev bs else bs)"

lemma length_host_bytes [simp]: "length (host_bytes be k n) = k"
  by (simp add: host_bytes_def)

lemma host_value_bytes: "host_value be (host_bytes be k n) = n mod 256 ^ k"
  by (simp add: host_value_def host_bytes_def le_value_bytes)

lemma host_value_u32: "host_value be (host_bytes be 4 (unat (w :: u32))) = unat w"
  using unsigned_less [of w, where ?'a = nat] by (simp add: host_value_bytes)

text \<open>Network order, for ports.\<close>

definition port_bytes :: "u16 \<Rightarrow> byte list" where
  "port_bytes p = rev (le_bytes 2 (unat p))"

lemma length_port_bytes [simp]: "length (port_bytes p) = 2"
  by (simp add: port_bytes_def)

section \<open>Writing into a buffer\<close>

definition write_at :: "byte list \<Rightarrow> nat \<Rightarrow> byte list \<Rightarrow> byte list" where
  "write_at buf pos bs = take pos buf @ bs @ drop (pos + length bs) buf"

lemma length_write_at [simp]: "pos + length bs \<le> length buf \<Longrightarrow> length (write_at buf pos bs) = length buf"
  by (simp add: write_at_def)

lemma take_write_at: "pos + length bs \<le> length buf \<Longrightarrow> take (pos + length bs) (write_at buf pos bs) = take pos buf @ bs"
  by (simp add: write_at_def)

lemma drop_write_at: "pos + length bs \<le> length buf \<Longrightarrow> drop (pos + length bs) (write_at buf pos bs) = drop (pos + length bs) buf"
  by (simp add: write_at_def)

lemma write_at_write_at:
  "pos + length bs + length cs \<le> length buf \<Longrightarrow>
    write_at (write_at buf pos bs) (pos + length bs) cs = write_at buf pos (bs @ cs)"
  by (simp add: write_at_def ac_simps)

end
