(* ===== verification/Tlv_Utils.thy ===== *)
theory Tlv_Utils
  imports Byte_Order
begin

text \<open>
  The tag-length-value encoder of the network profiler (\<open>utils/tlv_utils\<close>): a message is written field
  by field into a buffer of fixed size. A pointer into the buffer is its offset, a null pointer
  \<open>None\<close>; tags, lengths and numbers are written in the order of the host.
\<close>

section \<open>Data\<close>

datatype tlv_ret = TLV_OK | TLV_ERR | TLV_ERR_INVALID_PARA | TLV_ERR_BUFF_NO_ENOUGH

record DfxMessage =
  dm_requestBeginTime :: "64 word"
  dm_dnsEndTime :: "64 word"
  dm_tcpConnectEndTime :: "64 word"
  dm_tlsHandshakeEndTime :: "64 word"
  dm_firstSendTime :: "64 word"
  dm_firstRecvTime :: "64 word"
  dm_requestEndTime :: "64 word"
  dm_requestId :: string
  dm_requestUrl :: string
  dm_requestMethod :: string
  dm_requestHeader :: string
  dm_responseStatusCode :: u32
  dm_responseHeader :: string
  dm_responseEffectiveUrl :: string
  dm_responseIpAddress :: string
  dm_responseHttpVersion :: string
  dm_responseReasonPhrase :: string
  dm_responseBody :: string

definition U64 :: u32 where "U64 = 1"
definition U32 :: u32 where "U32 = 2"
definition STRING_TYPE :: u32 where "STRING_TYPE = 3"

record TlvCommon =
  tl_tag :: u32
  tl_len :: u32
  tl_value :: "byte list option"

definition BUFFER_MAX_SIZE :: nat where
  "BUFFER_MAX_SIZE = 1 * 256 * 1024"

definition TLV_TLV_HEAD_LEN :: nat where
  "TLV_TLV_HEAD_LEN = 4 + 4"

section \<open>Operations\<close>

text \<open>The bytes written for an entry: the head, and the value unless it is empty or null.\<close>

definition AppendTlv :: "bool \<Rightarrow> byte list \<Rightarrow> nat \<Rightarrow> TlvCommon \<Rightarrow> nat \<Rightarrow> tlv_ret \<times> byte list \<times> nat option" where
  "AppendTlv be buff pos tlv boundary =
     (if pos \<ge> boundary then (TLV_ERR_BUFF_NO_ENOUGH, buff, None)
      else if pos + unat (tl_len tlv) + TLV_TLV_HEAD_LEN > boundary then (TLV_ERR_BUFF_NO_ENOUGH, buff, None)
      else let b1 = write_at buff pos (host_bytes be 4 (unat (tl_tag tlv)));
               b2 = write_at b1 (pos + 4) (host_bytes be 4 (unat (tl_len tlv)));
               b3 = (case tl_value tlv of
                       None \<Rightarrow> b2
                     | Some v \<Rightarrow> if tl_len tlv \<noteq> 0 then write_at b2 (pos + TLV_TLV_HEAD_LEN) (take (unat (tl_len tlv)) v) else b2)
           in (TLV_OK, b3, Some (pos + unat (tl_len tlv) + TLV_TLV_HEAD_LEN)))"

fun Serialize_loop :: "bool \<Rightarrow> TlvCommon list \<Rightarrow> byte list \<Rightarrow> nat \<Rightarrow> nat \<Rightarrow> tlv_ret \<times> byte list \<times> nat" where
  "Serialize_loop be [] buff cur boundary = (TLV_OK, buff, cur)"
| "Serialize_loop be (t # ts) buff cur boundary =
     (case AppendTlv be buff cur t boundary of
        (TLV_OK, buff', Some cur') \<Rightarrow> Serialize_loop be ts buff' cur' boundary
      | (retCode, buff', _) \<Rightarrow> (retCode, buff', cur))"

text \<open>The new contents of the buffer and of \<open>buffSize\<close>.\<close>

definition Serialize :: "bool \<Rightarrow> TlvCommon list option \<Rightarrow> byte list option \<Rightarrow> nat \<Rightarrow> u32 option \<Rightarrow> tlv_ret \<times> byte list option \<times> u32 option" where
  "Serialize be tlv buff maxBuffSize buffSize =
     (case (tlv, buff, buffSize) of
        (Some ts, Some b, Some n) \<Rightarrow>
          (case Serialize_loop be ts b 0 maxBuffSize of
             (TLV_OK, b', cur) \<Rightarrow> (TLV_OK, Some b', Some (word_of_nat cur))
           | (retCode, b', _) \<Rightarrow> (retCode, Some b', buffSize))
      | _ \<Rightarrow> (TLV_ERR_INVALID_PARA, buff, buffSize))"

definition number_tlv :: "bool \<Rightarrow> u32 \<Rightarrow> nat \<Rightarrow> nat \<Rightarrow> TlvCommon" where
  "number_tlv be tag k n = \<lparr>tl_tag = tag, tl_len = word_of_nat k, tl_value = Some (host_bytes be k n)\<rparr>"

definition string_tlv :: "string \<Rightarrow> TlvCommon" where
  "string_tlv s = \<lparr>tl_tag = STRING_TYPE, tl_len = word_of_nat (length s), tl_value = Some (map char_to_byte s)\<rparr>"

definition GenerateTlv :: "bool \<Rightarrow> DfxMessage \<Rightarrow> TlvCommon list" where
  "GenerateTlv be msg =
     [number_tlv be U64 8 (unat (dm_requestBeginTime msg)),
      number_tlv be U64 8 (unat (dm_dnsEndTime msg)),
      number_tlv be U64 8 (unat (dm_tcpConnectEndTime msg)),
      number_tlv be U64 8 (unat (dm_tlsHandshakeEndTime msg)),
      number_tlv be U64 8 (unat (dm_firstSendTime msg)),
      number_tlv be U64 8 (unat (dm_firstRecvTime msg)),
      number_tlv be U64 8 (unat (dm_requestEndTime msg)),
      string_tlv (dm_requestId msg),
      string_tlv (dm_requestUrl msg),
      string_tlv (dm_requestMethod msg),
      string_tlv (dm_requestHeader msg),
      number_tlv be U32 4 (unat (dm_responseStatusCode msg)),
      string_tlv (dm_responseHeader msg),
      string_tlv (dm_responseEffectiveUrl msg),
      string_tlv (dm_responseIpAddress msg),
      string_tlv (dm_responseHttpVersion msg),
      string_tlv (dm_responseReasonPhrase msg),
      string_tlv (dm_responseBody msg)]"

text \<open>
  The caller passes a buffer of \<open>BUFFER_MAX_SIZE\<close> bytes: the size is not a parameter, and clearing a
  shorter buffer writes behind its end (\<open>None\<close>).
\<close>

definition Encode_msg ::
  "bool \<Rightarrow> bool \<Rightarrow> DfxMessage \<Rightarrow> byte list option \<Rightarrow> u32 \<Rightarrow> (tlv_ret \<times> byte list option \<times> u32) option" where
  "Encode_msg be malloc_ok msg data dataSize =
     (if \<not> malloc_ok then Some (TLV_ERR, data, dataSize)
      else case data of
             None \<Rightarrow> Some (TLV_ERR, data, dataSize)
           | Some b \<Rightarrow>
               if length b < BUFFER_MAX_SIZE then None
               else let cleared = replicate BUFFER_MAX_SIZE 0 @ drop BUFFER_MAX_SIZE b;
                        (ret, b', n) = Serialize be (Some (GenerateTlv be msg)) (Some cleared) BUFFER_MAX_SIZE (Some dataSize)
                    in Some (ret, b', the n))"

section \<open>Well-formed entries\<close>

definition tlv_wf :: "TlvCommon \<Rightarrow> bool" where
  "tlv_wf t \<longleftrightarrow> (\<exists>v. tl_value t = Some v \<and> length v = unat (tl_len t))"

definition tlv_bytes :: "bool \<Rightarrow> TlvCommon \<Rightarrow> byte list" where
  "tlv_bytes be t = host_bytes be 4 (unat (tl_tag t)) @ host_bytes be 4 (unat (tl_len t)) @ the (tl_value t)"

lemma length_tlv_bytes: "tlv_wf t \<Longrightarrow> length (tlv_bytes be t) = unat (tl_len t) + TLV_TLV_HEAD_LEN"
  by (auto simp: tlv_wf_def tlv_bytes_def TLV_TLV_HEAD_LEN_def)

lemma AppendTlv_fits:
  assumes "tlv_wf t" "pos + length (tlv_bytes be t) \<le> boundary" "boundary \<le> length buff"
  shows "AppendTlv be buff pos t boundary =
    (TLV_OK, write_at buff pos (tlv_bytes be t), Some (pos + length (tlv_bytes be t)))"
proof -
  obtain v where v: "tl_value t = Some v" "length v = unat (tl_len t)"
    using assms(1) by (auto simp: tlv_wf_def)
  let ?a = "host_bytes be 4 (unat (tl_tag t))" and ?b = "host_bytes be 4 (unat (tl_len t))"
  have l: "length (tlv_bytes be t) = 8 + length v"
    using v by (simp add: tlv_bytes_def)
  have w1: "write_at (write_at buff pos ?a) (pos + 4) ?b = write_at buff pos (?a @ ?b)"
    using write_at_write_at [of pos ?a ?b buff] assms(2,3) l by simp
  have w2: "write_at (write_at buff pos (?a @ ?b)) (pos + 8) v = write_at buff pos (tlv_bytes be t)"
    using write_at_write_at [of pos "?a @ ?b" v buff] assms(2,3) l v(1) by (simp add: tlv_bytes_def)
  have w3: "write_at buff pos (?a @ ?b) = write_at buff pos (tlv_bytes be t)" if "tl_len t = 0"
    using that v by (simp add: tlv_bytes_def)
  show ?thesis
    using assms(2) l v w1 w2 w3 by (auto simp: AppendTlv_def TLV_TLV_HEAD_LEN_def)
qed

lemma AppendTlv_full:
  "tlv_wf t \<Longrightarrow> \<not> pos + length (tlv_bytes be t) \<le> boundary \<Longrightarrow>
    AppendTlv be buff pos t boundary = (TLV_ERR_BUFF_NO_ENOUGH, buff, None)"
  by (auto simp: AppendTlv_def length_tlv_bytes)

lemma Serialize_loop_fits:
  assumes "\<forall>t \<in> set ts. tlv_wf t" "boundary \<le> length buff" "cur + length (concat (map (tlv_bytes be) ts)) \<le> boundary"
  shows "Serialize_loop be ts buff cur boundary =
    (TLV_OK, write_at buff cur (concat (map (tlv_bytes be) ts)), cur + length (concat (map (tlv_bytes be) ts)))"
  using assms
proof (induction ts arbitrary: buff cur)
  case Nil
  then show ?case by (simp add: write_at_def)
next
  case (Cons t ts)
  let ?b = "tlv_bytes be t" and ?bs = "concat (map (tlv_bytes be) ts)"
  have a: "AppendTlv be buff cur t boundary = (TLV_OK, write_at buff cur ?b, Some (cur + length ?b))"
    using Cons.prems by (intro AppendTlv_fits) auto
  have "Serialize_loop be ts (write_at buff cur ?b) (cur + length ?b) boundary =
      (TLV_OK, write_at (write_at buff cur ?b) (cur + length ?b) ?bs, cur + length ?b + length ?bs)"
    using Cons.prems by (intro Cons.IH) auto
  moreover have "write_at (write_at buff cur ?b) (cur + length ?b) ?bs = write_at buff cur (?b @ ?bs)"
    using Cons.prems by (intro write_at_write_at) simp
  ultimately show ?case
    using a by (simp add: add.assoc)
qed

lemma Serialize_loop_full:
  assumes "\<forall>t \<in> set ts. tlv_wf t" "boundary \<le> length buff" "\<not> cur + length (concat (map (tlv_bytes be) ts)) \<le> boundary" "cur \<le> boundary"
  shows "fst (Serialize_loop be ts buff cur boundary) = TLV_ERR_BUFF_NO_ENOUGH"
  using assms
proof (induction ts arbitrary: buff cur)
  case (Cons t ts)
  show ?case
  proof (cases "cur + length (tlv_bytes be t) \<le> boundary")
    case True
    then have "AppendTlv be buff cur t boundary = (TLV_OK, write_at buff cur (tlv_bytes be t), Some (cur + length (tlv_bytes be t)))"
      using Cons.prems by (intro AppendTlv_fits) auto
    then show ?thesis
      using Cons.IH [of "write_at buff cur (tlv_bytes be t)" "cur + length (tlv_bytes be t)"] Cons.prems True
      by (simp add: add.assoc)
  next
    case False
    then show ?thesis
      using AppendTlv_full [of t cur be boundary buff] Cons.prems(1) by simp
  qed
qed simp

section \<open>Reading the encoding back\<close>

text \<open>A decoder of the format: the tags and values of a sequence of entries.\<close>

function decode_tlvs :: "bool \<Rightarrow> byte list \<Rightarrow> (nat \<times> byte list) list option" where
  "decode_tlvs be bs =
     (if bs = [] then Some []
      else if length bs < 8 then None
      else let n = host_value be (take 4 (drop 4 bs))
           in if length bs < 8 + n then None
              else map_option (\<lambda>es. (host_value be (take 4 bs), take n (drop 8 bs)) # es) (decode_tlvs be (drop (8 + n) bs)))"
  by pat_completeness auto
termination
  by (relation "measure (\<lambda>(be, bs). length bs)") auto

declare decode_tlvs.simps [simp del]

lemma decode_tlv_bytes:
  assumes "tlv_wf t"
  shows "decode_tlvs be (tlv_bytes be t @ bs) = map_option (\<lambda>es. (unat (tl_tag t), the (tl_value t)) # es) (decode_tlvs be bs)"
proof -
  obtain v where v: "tl_value t = Some v" "length v = unat (tl_len t)"
    using assms by (auto simp: tlv_wf_def)
  have "host_bytes be 4 n \<noteq> []" for n
    using length_host_bytes [of be 4 n] by (metis list.size(3) zero_neq_numeral)
  then show ?thesis
    using v by (subst decode_tlvs.simps) (simp add: tlv_bytes_def host_value_u32)
qed

lemma decode_concat:
  "\<forall>t \<in> set ts. tlv_wf t \<Longrightarrow>
    decode_tlvs be (concat (map (tlv_bytes be) ts)) = Some (map (\<lambda>t. (unat (tl_tag t), the (tl_value t))) ts)"
  by (induction ts) (auto simp: decode_tlv_bytes decode_tlvs.simps [of be "[]"])

section \<open>Messages\<close>

definition msg_strings :: "DfxMessage \<Rightarrow> string list" where
  "msg_strings msg = [dm_requestId msg, dm_requestUrl msg, dm_requestMethod msg, dm_requestHeader msg, dm_responseHeader msg,
     dm_responseEffectiveUrl msg, dm_responseIpAddress msg, dm_responseHttpVersion msg, dm_responseReasonPhrase msg,
     dm_responseBody msg]"

lemma string_tlv_wf: "length s < 2 ^ 32 \<Longrightarrow> tlv_wf (string_tlv s)"
  by (simp add: tlv_wf_def string_tlv_def unat_of_nat)

lemma number_tlv_wf: "k < 2 ^ 32 \<Longrightarrow> tlv_wf (number_tlv be tag k n)"
  by (simp add: tlv_wf_def number_tlv_def unat_of_nat)

lemma GenerateTlv_wf: "\<forall>s \<in> set (msg_strings msg). length s < 2 ^ 32 \<Longrightarrow> t \<in> set (GenerateTlv be msg) \<Longrightarrow> tlv_wf t"
  by (auto simp: GenerateTlv_def msg_strings_def string_tlv_wf number_tlv_wf)

text \<open>The size of an encoded message: 18 heads, seven times of 8 bytes, a code of 4 and the strings.\<close>

lemma GenerateTlv_size:
  assumes "\<forall>s \<in> set (msg_strings msg). length s < 2 ^ 32"
  shows "length (concat (map (tlv_bytes be) (GenerateTlv be msg))) = 204 + length (concat (msg_strings msg))"
proof -
  have "length (tlv_bytes be (string_tlv s)) = 8 + length s" for s
    by (simp add: tlv_bytes_def string_tlv_def)
  moreover have "length (tlv_bytes be (number_tlv be tag k n)) = 8 + k" for tag k n
    by (simp add: tlv_bytes_def number_tlv_def)
  ultimately show ?thesis
    by (simp add: GenerateTlv_def msg_strings_def)
qed

section \<open>Properties\<close>


definition sample_msg :: DfxMessage where
  "sample_msg = \<lparr>dm_requestBeginTime = 1, dm_dnsEndTime = 2, dm_tcpConnectEndTime = 3, dm_tlsHandshakeEndTime = 4,
     dm_firstSendTime = 5, dm_firstRecvTime = 6, dm_requestEndTime = 7, dm_requestId = ''1'', dm_requestUrl = ''http://a/'',
     dm_requestMethod = ''GET'', dm_requestHeader = [], dm_responseStatusCode = 200, dm_responseHeader = [],
     dm_responseEffectiveUrl = [], dm_responseIpAddress = [], dm_responseHttpVersion = [], dm_responseReasonPhrase = [],
     dm_responseBody = ''ok''\<rparr>"


end
