(* ===== verification/Socket_Exec.thy ===== *)
theory Socket_Exec
  imports Common_Utils Byte_Order
begin

text \<open>
  Addresses of sockets (\<open>frameworks/native/socket_native/options/src/net_address.cpp\<close>) and the operations
  all sockets share (\<open>socket_exec/src/socket_exec_common.cpp\<close>).

  Name resolution and the conversions between the text and the bytes of an address are parameters. A
  system call is the outcome it has: a loop over system calls reads a list of outcomes and is \<open>None\<close>
  as long as the list does not let it end. \<open>errno\<close> keeps its value until a call fails.
\<close>

section \<open>Addresses\<close>

datatype Family = IPv4 | IPv6 | DOMAIN_NAME

record SocketNetAddress =
  ad_address :: string
  ad_family :: Family
  ad_port :: u16

text \<open>
  \<open>inet_pton\<close>, \<open>inet_ntop\<close> and the first result of \<open>getaddrinfo\<close>; whether the host is big-endian.
\<close>

record net_env =
  ne_pton :: "ip_type \<Rightarrow> string \<Rightarrow> byte list option"
  ne_ntop :: "ip_type \<Rightarrow> byte list \<Rightarrow> string"
  ne_resolve :: "ip_type \<Rightarrow> string \<Rightarrow> (ip_type \<times> byte list) option"
  ne_be :: bool

definition pton_laws :: "net_env \<Rightarrow> bool" where
  "pton_laws env \<longleftrightarrow>
     (\<forall>bs. length bs = 4 \<longrightarrow> ne_pton env AF_INET (ne_ntop env AF_INET bs) = Some bs \<and> NUL \<notin> set (ne_ntop env AF_INET bs)) \<and>
     (\<forall>bs. length bs = 16 \<longrightarrow> ne_pton env AF_INET6 (ne_ntop env AF_INET6 bs) = Some bs \<and> NUL \<notin> set (ne_ntop env AF_INET6 bs)) \<and>
     (\<forall>s bs. ne_pton env AF_INET s = Some bs \<longrightarrow> length bs = 4) \<and>
     (\<forall>s bs. ne_pton env AF_INET6 s = Some bs \<longrightarrow> length bs = 16)"

definition new_NetAddress :: SocketNetAddress where
  "new_NetAddress = \<lparr>ad_address = [], ad_family = IPv4, ad_port = 0\<rparr>"

definition GetSaFamily :: "SocketNetAddress \<Rightarrow> ip_type" where
  "GetSaFamily a = (if ad_family a = IPv6 then AF_INET6 else AF_INET)"

definition ConvertAddressToIp :: "net_env \<Rightarrow> string \<Rightarrow> ip_type \<Rightarrow> string" where
  "ConvertAddressToIp env address family =
     (if address = [] then []
      else case ne_resolve env family (c_str address) of
             None \<Rightarrow> []
           | Some (af, bs) \<Rightarrow> if af = AF_INET then ne_ntop env AF_INET bs else ne_ntop env AF_INET6 bs)"

text \<open>What \<open>strtol\<close> leaves behind the number it reads.\<close>

definition strtol_end :: "string \<Rightarrow> string" where
  "strtol_end s =
     (let s1 = dropWhile is_space s;
          s2 = (case s1 of [] \<Rightarrow> [] | c # cs \<Rightarrow> if c = CHR ''-'' \<or> c = CHR ''+'' then cs else s1)
      in if takeWhile is_digit s2 = [] then s else dropWhile is_digit s2)"

definition SetIpAddressInner :: "net_env \<Rightarrow> SocketNetAddress \<Rightarrow> string \<Rightarrow> SocketNetAddress" where
  "SetIpAddressInner env a address =
     (case ad_family a of
        IPv4 \<Rightarrow>
          let inet = strtol10 (c_str address)
          in if strtol_end (c_str address) = [] \<and> inet \<ge> 0 \<and> inet \<le> 4294967295
             then a\<lparr>ad_address := ne_ntop env AF_INET (host_bytes (ne_be env) 4 (nat inet))\<rparr> else a
      | IPv6 \<Rightarrow>
          (case find_sub ''%'' address of
             None \<Rightarrow> a
           | Some pos \<Rightarrow>
               if ne_pton env AF_INET6 (c_str (take pos address)) \<noteq> None then a\<lparr>ad_address := take pos address\<rparr> else a)
      | DOMAIN_NAME \<Rightarrow> a)"

definition SetIpAddress :: "net_env \<Rightarrow> SocketNetAddress \<Rightarrow> string \<Rightarrow> SocketNetAddress" where
  "SetIpAddress env a address =
     (if address = [] then a
      else if address = ''localhost'' then
        (case ad_family a of
           IPv4 \<Rightarrow> a\<lparr>ad_address := ConvertAddressToIp env address AF_INET\<rparr>
         | IPv6 \<Rightarrow> a\<lparr>ad_address := ConvertAddressToIp env address AF_INET6\<rparr>
         | DOMAIN_NAME \<Rightarrow> a)
      else if ad_family a = IPv4 then
        if ne_pton env AF_INET6 (c_str address) \<noteq> None then a
        else if (case find_sub ''%'' address of
                   None \<Rightarrow> False
                 | Some pos \<Rightarrow> ne_pton env AF_INET6 (c_str (take pos address)) \<noteq> None) then a
        else if ne_pton env AF_INET (c_str address) \<noteq> None then a\<lparr>ad_address := address\<rparr>
        else SetIpAddressInner env a address
      else if ne_pton env AF_INET6 (c_str address) \<noteq> None then a\<lparr>ad_address := address\<rparr>
      else SetIpAddressInner env a address)"

definition SetAddress :: "net_env \<Rightarrow> SocketNetAddress \<Rightarrow> string \<Rightarrow> SocketNetAddress" where
  "SetAddress env a address =
     (if ne_pton env (if ad_family a = IPv4 then AF_INET else AF_INET6) (c_str address) \<noteq> None
      then a\<lparr>ad_address := address\<rparr>
      else case ne_resolve env (GetSaFamily a) (c_str address) of
             None \<Rightarrow> a
           | Some (af, bs) \<Rightarrow>
               a\<lparr>ad_address := (if af = AF_INET then ne_ntop env AF_INET bs else ne_ntop env AF_INET6 bs)\<rparr>)"

definition SetAddress_dns :: "net_env \<Rightarrow> SocketNetAddress \<Rightarrow> string \<Rightarrow> bool \<Rightarrow> SocketNetAddress" where
  "SetAddress_dns env a address resolveDns =
     (if \<not> resolveDns \<and> ad_family a = DOMAIN_NAME then a\<lparr>ad_address := address\<rparr> else SetAddress env a address)"

definition SetRawAddress :: "SocketNetAddress \<Rightarrow> string \<Rightarrow> SocketNetAddress" where
  "SetRawAddress a address = a\<lparr>ad_address := address\<rparr>"

definition SetFamilyByJsValue :: "SocketNetAddress \<Rightarrow> u32 \<Rightarrow> SocketNetAddress" where
  "SetFamilyByJsValue a family =
     (if family = 1 then a\<lparr>ad_family := IPv4\<rparr>
      else if family = 2 then a\<lparr>ad_family := IPv6\<rparr>
      else if family = 3 then a\<lparr>ad_family := DOMAIN_NAME\<rparr>
      else a)"

fun family_number :: "Family \<Rightarrow> u32" where
  "family_number IPv4 = 1"
| "family_number IPv6 = 2"
| "family_number DOMAIN_NAME = 3"

definition SetFamilyBySaFamily :: "SocketNetAddress \<Rightarrow> ip_type \<Rightarrow> SocketNetAddress" where
  "SetFamilyBySaFamily a family = (if family = AF_INET6 then a\<lparr>ad_family := IPv6\<rparr> else a)"

definition SetPort :: "SocketNetAddress \<Rightarrow> u16 \<Rightarrow> SocketNetAddress" where
  "SetPort a port = a\<lparr>ad_port := port\<rparr>"

section \<open>System calls\<close>

datatype errno = E_OK | EINTR | EAGAIN | EINPROGRESS | EISCONN | ENOTSOCK | E_other int

datatype sock_type = SOCK_STREAM | SOCK_DGRAM

datatype fcntl_out = Fcntl_ok int | Fcntl_error errno

text \<open>What \<open>getsockopt\<close> gives for a socket; \<open>Inl e\<close> is a failure that sets \<open>errno\<close> to \<open>e\<close>.\<close>

record sock_opts =
  so_sndbuf :: "errno + int"
  so_rcvbuf :: "errno + int"
  so_type :: "errno + sock_type"
  so_rcvtimeo :: "errno + int \<times> int"
  so_sndtimeo :: "errno + int \<times> int"
  so_tfo :: "errno + int"
  so_error :: "errno + int"

fun errno_after :: "errno + 'a \<Rightarrow> errno \<Rightarrow> errno" where
  "errno_after (Inl e) err = e"
| "errno_after (Inr _) err = err"

definition DEFAULT_BUFFER_SIZE :: int where "DEFAULT_BUFFER_SIZE = 8192"
definition MAX_SOCKET_BUFFER_SIZE :: int where "MAX_SOCKET_BUFFER_SIZE = 262144"
definition DEFAULT_TIMEOUT_MS :: int where "DEFAULT_TIMEOUT_MS = 20000"
definition SOCKET_CONNECT_TIMEOUT :: int where "SOCKET_CONNECT_TIMEOUT = 5000"

definition GetSendBufferSize :: "sock_opts \<Rightarrow> errno \<Rightarrow> (int \<times> sock_type) option \<times> errno" where
  "GetSendBufferSize os err =
     (let err1 = errno_after (so_sndbuf os) err;
          bufferSize = (case so_sndbuf os of Inr opt \<Rightarrow> if opt > 0 then opt else DEFAULT_BUFFER_SIZE | Inl _ \<Rightarrow> DEFAULT_BUFFER_SIZE)
      in case so_type os of
           Inl e \<Rightarrow> (None, e)
         | Inr sockType \<Rightarrow> (Some (bufferSize, sockType), err1))"

text \<open>\<open>bad\<close>: the poll reports \<open>POLLNVAL\<close>, \<open>POLLHUP\<close> or \<open>POLLERR\<close>.\<close>

definition HandlePollEvent :: "sock_opts \<Rightarrow> bool \<Rightarrow> bool" where
  "HandlePollEvent os bad =
     (if bad then False
      else case so_error os of Inl _ \<Rightarrow> False | Inr err \<Rightarrow> err = 0)"

text \<open>A call that is repeated while it is interrupted: its result, \<open>errno\<close> and the outcomes that are left.\<close>

fun retry_fcntl :: "fcntl_out list \<Rightarrow> errno \<Rightarrow> (int option \<times> errno \<times> fcntl_out list) option" where
  "retry_fcntl [] err = None"
| "retry_fcntl (Fcntl_ok n # outs) err = Some (Some n, err, outs)"
| "retry_fcntl (Fcntl_error e # outs) err = (if e = EINTR then retry_fcntl outs e else Some (None, e, outs))"

definition MakeNonBlock :: "fcntl_out list \<Rightarrow> errno \<Rightarrow> (bool \<times> errno) option" where
  "MakeNonBlock outs err =
     (case retry_fcntl outs err of
        None \<Rightarrow> None
      | Some (None, err1, outs1) \<Rightarrow> Some (False, err1)
      | Some (Some flags, err1, outs1) \<Rightarrow>
          (case retry_fcntl outs1 err1 of
             None \<Rightarrow> None
           | Some (ret, err2, outs2) \<Rightarrow> Some (ret \<noteq> None, err2)))"

text \<open>
  \<open>sock\<close> is the result of \<open>socket\<close>. The result of the functions is the descriptor they return, the descriptors
  they close again, and \<open>errno\<close>.
\<close>

definition make_socket :: "errno + int \<Rightarrow> fcntl_out list \<Rightarrow> errno \<Rightarrow> bool \<Rightarrow> (int \<times> int list \<times> errno) option" where
  "make_socket sock outs err needNonblock =
     (case sock of
        Inl e \<Rightarrow> Some (-1, [], e)
      | Inr fd \<Rightarrow>
          if needNonblock
          then map_option (\<lambda>(ok, err1). if ok then (fd, [], err1) else (-1, [fd], err1)) (MakeNonBlock outs err)
          else Some (fd, [], err))"

definition MakeTcpSocket :: "errno + int \<Rightarrow> fcntl_out list \<Rightarrow> errno \<Rightarrow> ip_type \<Rightarrow> bool \<Rightarrow> (int \<times> int list \<times> errno) option" where
  "MakeTcpSocket sock outs err family needNonblock =
     (if family \<noteq> AF_INET \<and> family \<noteq> AF_INET6 then Some (-1, [], err)
      else make_socket sock outs err needNonblock)"

definition MakeUdpSocket :: "errno + int \<Rightarrow> fcntl_out list \<Rightarrow> errno \<Rightarrow> ip_type \<Rightarrow> (int \<times> int list \<times> errno) option" where
  "MakeUdpSocket sock outs err family =
     (if family \<noteq> AF_INET \<and> family \<noteq> AF_INET6 then Some (-1, [], err)
      else make_socket sock outs err True)"

definition MakeLocalSocket :: "errno + int \<Rightarrow> fcntl_out list \<Rightarrow> errno \<Rightarrow> bool \<Rightarrow> (int \<times> int list \<times> errno) option" where
  "MakeLocalSocket sock outs err needNonblock = make_socket sock outs err needNonblock"

definition IsTfoEnabled :: "sock_opts \<Rightarrow> bool" where
  "IsTfoEnabled os = (case so_tfo os of Inl _ \<Rightarrow> False | Inr n \<Rightarrow> n \<noteq> 0)"

definition IpMatchFamily :: "net_env \<Rightarrow> string \<Rightarrow> ip_type \<Rightarrow> bool" where
  "IpMatchFamily env address family =
     (if family = AF_INET6 then ne_pton env AF_INET (c_str address) = None
      else if family = AF_INET then ne_pton env AF_INET6 (c_str address) = None
      else True)"

section \<open>Connecting\<close>

text \<open>One \<open>poll\<close>: ready (with or without an error event), a time-out, or a failure with \<open>errno\<close> after some milliseconds.\<close>

datatype poll_out = Poll_ready bool | Poll_timeout | Poll_error errno int

fun connect_loop :: "sock_opts \<Rightarrow> poll_out list \<Rightarrow> errno \<Rightarrow> int \<Rightarrow> (bool \<times> errno) option" where
  "connect_loop os [] err timeoutMs = None"
| "connect_loop os (Poll_ready bad # outs) err timeoutMs =
     Some (HandlePollEvent os bad, if bad then err else errno_after (so_error os) err)"
| "connect_loop os (Poll_timeout # outs) err timeoutMs = Some (False, err)"
| "connect_loop os (Poll_error e interval # outs) err timeoutMs =
     (if e = EINTR
      then let t = timeoutMs - interval in if t \<le> 0 then Some (False, e) else connect_loop os outs e t
      else Some (False, e))"

text \<open>\<open>conn\<close> is the error of \<open>connect\<close>, if it fails; the second component of the result is \<open>errno\<close>.\<close>

definition NonBlockConnect :: "sock_opts \<Rightarrow> errno option \<Rightarrow> poll_out list \<Rightarrow> errno \<Rightarrow> u32 \<Rightarrow> (bool \<times> errno) option" where
  "NonBlockConnect os conn outs err timeoutMSec =
     (case conn of
        None \<Rightarrow> Some (True, err)
      | Some e \<Rightarrow>
          if e \<noteq> EINPROGRESS then Some (False, e)
          else connect_loop os outs e (if timeoutMSec = 0 then SOCKET_CONNECT_TIMEOUT else sint timeoutMSec))"

section \<open>Options\<close>

definition to_int32 :: "int \<Rightarrow> int" where
  "to_int32 n = sint (word_of_int n :: 32 word)"

definition ConfirmSocketTimeoutMs :: "sock_opts \<Rightarrow> bool \<Rightarrow> int \<Rightarrow> int" where
  "ConfirmSocketTimeoutMs os rcv defaultValue =
     (case if rcv then so_rcvtimeo os else so_sndtimeo os of
        Inl e \<Rightarrow> if e = ENOTSOCK \<and> rcv then -1 else defaultValue
      | Inr (tv_sec, tv_usec) \<Rightarrow>
          let socketTimeoutMs = tv_sec * 1000 + tv_usec div 1000
          in to_int32 (if socketTimeoutMs = 0 then defaultValue else socketTimeoutMs))"

definition ConfirmBufferSize :: "sock_opts \<Rightarrow> int" where
  "ConfirmBufferSize os =
     (let bufferSize = (case so_rcvbuf os of Inr opt \<Rightarrow> if opt > 0 then opt else -1 | Inl _ \<Rightarrow> -1)
      in if bufferSize \<le> 0 \<or> bufferSize > MAX_SOCKET_BUFFER_SIZE then DEFAULT_BUFFER_SIZE else bufferSize)"

record ExtraOptionsBase =
  eo_receiveBufferSize :: u32
  eo_sendBufferSize :: u32
  eo_reuseAddress :: bool
  eo_socketTimeout :: u32
  eo_recvBufSizeFlag :: bool
  eo_sendBufSizeFlag :: bool
  eo_timeoutFlag :: bool
  eo_reuseAddrFlag :: bool

datatype setsockopt_call =
    Set_RCVBUF int
  | Set_SNDBUF int
  | Set_REUSEADDR int
  | Set_RCVTIMEO int int
  | Set_SNDTIMEO int int

text \<open>A sequence of calls that stops at the first failure: the result and the calls that succeeded.\<close>

fun set_all :: "(setsockopt_call \<Rightarrow> bool) \<Rightarrow> setsockopt_call list \<Rightarrow> bool \<times> setsockopt_call list" where
  "set_all ok [] = (True, [])"
| "set_all ok (c # cs) = (if ok c then (case set_all ok cs of (r, ds) \<Rightarrow> (r, c # ds)) else (False, []))"

definition SetSocketBufferSize :: "(setsockopt_call \<Rightarrow> bool) \<Rightarrow> (int \<Rightarrow> setsockopt_call) \<Rightarrow> u32 \<Rightarrow> bool \<times> setsockopt_call list" where
  "SetSocketBufferSize ok opt n =
     (if uint n > MAX_SOCKET_BUFFER_SIZE then (False, []) else set_all ok [opt (uint n)])"

definition and_then :: "bool \<times> setsockopt_call list \<Rightarrow> bool \<times> setsockopt_call list \<Rightarrow> bool \<times> setsockopt_call list" where
  "and_then a b = (if fst a then (fst b, snd a @ snd b) else a)"

definition SetLocalSocketOptions :: "(setsockopt_call \<Rightarrow> bool) \<Rightarrow> ExtraOptionsBase \<Rightarrow> bool \<times> setsockopt_call list" where
  "SetLocalSocketOptions ok options =
     and_then (if eo_recvBufSizeFlag options then SetSocketBufferSize ok Set_RCVBUF (eo_receiveBufferSize options) else (True, []))
       (and_then (if eo_sendBufSizeFlag options then SetSocketBufferSize ok Set_SNDBUF (eo_sendBufferSize options) else (True, []))
         (if eo_timeoutFlag options
          then let timeMs = uint (eo_socketTimeout options); s = timeMs div 1000; us = (timeMs mod 1000) * 1000
               in set_all ok [Set_RCVTIMEO s us, Set_SNDTIMEO s us]
          else (True, [])))"

text \<open>\<open>static_cast<int>\<close> of the sizes; the quotient and remainder of C round towards zero.\<close>

definition SetExtraOptionsBase :: "(setsockopt_call \<Rightarrow> bool) \<Rightarrow> ExtraOptionsBase \<Rightarrow> bool \<times> setsockopt_call list" where
  "SetExtraOptionsBase ok options =
     set_all ok
       ((if eo_recvBufSizeFlag options then [Set_RCVBUF (sint (eo_receiveBufferSize options))] else []) @
        (if eo_sendBufSizeFlag options then [Set_SNDBUF (sint (eo_sendBufferSize options))] else []) @
        (if eo_reuseAddrFlag options then [Set_REUSEADDR (if eo_reuseAddress options then 1 else 0)] else []) @
        (if eo_timeoutFlag options
         then let v = sint (eo_socketTimeout options);
                  s = sgn v * (\<bar>v\<bar> div 1000); us = sgn v * (\<bar>v\<bar> mod 1000) * 1000
              in [Set_RCVTIMEO s us, Set_SNDTIMEO s us]
         else []))"

text \<open>The values \<open>getsockopt\<close> gives; on failure the options read so far are kept.\<close>

definition GetLocalSocketOptions :: "sock_opts \<Rightarrow> ExtraOptionsBase \<Rightarrow> bool \<times> ExtraOptionsBase" where
  "GetLocalSocketOptions os options =
     (case so_rcvbuf os of
        Inl _ \<Rightarrow> (False, options)
      | Inr r \<Rightarrow>
          let o1 = options\<lparr>eo_receiveBufferSize := word_of_int r, eo_recvBufSizeFlag := True\<rparr>
          in case so_sndbuf os of
               Inl _ \<Rightarrow> (False, o1)
             | Inr s \<Rightarrow>
                 let o2 = o1\<lparr>eo_sendBufferSize := word_of_int s, eo_sendBufSizeFlag := True\<rparr>
                 in case so_sndtimeo os of
                      Inl _ \<Rightarrow> (False, o2)
                    | Inr (tv_sec, tv_usec) \<Rightarrow>
                        (True, o2\<lparr>eo_socketTimeout := word_of_int (tv_sec * 1000 + tv_usec div 1000), eo_timeoutFlag := True\<rparr>))"

section \<open>Sending\<close>

text \<open>\<open>PollFd\<close>: success, and \<open>errno\<close> afterwards; a time-out leaves \<open>errno\<close> as it was.\<close>

fun PollFd :: "poll_out \<Rightarrow> errno \<Rightarrow> bool \<times> errno" where
  "PollFd (Poll_ready _) err = (True, err)"
| "PollFd Poll_timeout err = (False, err)"
| "PollFd (Poll_error e _) err = (False, e)"

text \<open>
  One \<open>send\<close> or \<open>sendto\<close>: \<open>Room n\<close> is a kernel that has room for \<open>n\<close> bytes, so that the call accepts
  the smaller of \<open>n\<close> and the number of bytes offered.
\<close>

datatype send_out = Room nat | Send_error errno

text \<open>The loop of \<open>PollSendData\<close>: the result, \<open>errno\<close> and the pieces the kernel accepted, in order.\<close>

primrec send_loop :: "sock_type \<Rightarrow> nat \<Rightarrow> (poll_out \<times> send_out) list \<Rightarrow> errno \<Rightarrow> byte list \<Rightarrow> byte list list \<Rightarrow>
    (bool \<times> errno \<times> byte list list) option" where
  "send_loop t bufferSize [] err left sent = (if left = [] then Some (True, err, sent) else None)"
| "send_loop t bufferSize (out # outs) err left sent =
     (if left = [] then Some (True, err, sent)
      else case PollFd (fst out) err of (ok, err1) \<Rightarrow>
        if \<not> ok \<and> err1 \<noteq> EINTR then Some (False, err1, sent)
        else let sendSize = (if t = SOCK_STREAM then length left else min (length left) bufferSize)
             in case snd out of
                  Send_error e \<Rightarrow>
                    if e = EAGAIN \<or> e = EINTR then send_loop t bufferSize outs e left sent
                    else Some (False, e, sent)
                | Room room \<Rightarrow>
                    let n = min room sendSize
                    in if n = 0 then Some (False, err1, sent)
                       else send_loop t bufferSize outs err1 (drop n left) (sent @ [take n left]))"

definition PollSendData :: "sock_opts \<Rightarrow> (poll_out \<times> send_out) list \<Rightarrow> errno \<Rightarrow> byte list \<Rightarrow> (bool \<times> errno \<times> byte list list) option" where
  "PollSendData os outs err data =
     (case GetSendBufferSize os err of
        (None, err1) \<Rightarrow> Some (False, err1, [])
      | (Some (bufferSize, sockType), err1) \<Rightarrow>
          let err2 = errno_after (so_sndtimeo os) err1
          in if ConfirmSocketTimeoutMs os False DEFAULT_TIMEOUT_MS < 0 then Some (False, err2, [])
             else send_loop sockType (nat bufferSize) outs (errno_after (so_tfo os) err2) data [])"

section \<open>Socket addresses\<close>

definition ValidateAddress :: "SocketNetAddress \<Rightarrow> bool" where
  "ValidateAddress a =
     (if ad_family a \<noteq> IPv4 \<and> ad_family a \<noteq> IPv6 then False
      else if ad_address a = [] then False else True)"

record sock_addr =
  sa_family :: ip_type
  sa_port :: "byte list"
  sa_addr :: "byte list"

definition MakeSockAddr :: "net_env \<Rightarrow> SocketNetAddress \<Rightarrow> sock_addr option" where
  "MakeSockAddr env a =
     map_option (\<lambda>bs. \<lparr>sa_family = GetSaFamily a, sa_port = port_bytes (ad_port a), sa_addr = bs\<rparr>)
       (ne_pton env (GetSaFamily a) (c_str (ad_address a)))"

text \<open>The port of a socket address, back in the order of the host.\<close>

definition ntohs :: "byte list \<Rightarrow> u16" where
  "ntohs bs = word_of_nat (le_value (rev bs))"

text \<open>The address the call gave (\<open>getsockname\<close> or \<open>getpeername\<close>) as a \<open>SocketNetAddress\<close>.\<close>

definition fill_address :: "net_env \<Rightarrow> sock_addr option \<Rightarrow> SocketNetAddress \<Rightarrow> bool \<times> SocketNetAddress" where
  "fill_address env given outAddr =
     (case given of
        None \<Rightarrow> (False, outAddr)
      | Some ss \<Rightarrow>
          if sa_family ss = AF_INET
          then (True, SetPort (SetAddress env (SetFamilyByJsValue outAddr (family_number IPv4)) (ne_ntop env AF_INET (sa_addr ss))) (ntohs (sa_port ss)))
          else if sa_family ss = AF_INET6
          then (True, SetPort (SetAddress env (SetFamilyByJsValue outAddr (family_number IPv6)) (ne_ntop env AF_INET6 (sa_addr ss))) (ntohs (sa_port ss)))
          else (False, outAddr))"

definition FillLocalAddress :: "net_env \<Rightarrow> sock_addr option \<Rightarrow> SocketNetAddress \<Rightarrow> bool \<times> SocketNetAddress" where
  "FillLocalAddress env sockname outAddr = fill_address env sockname outAddr"

definition FillRemoteAddress :: "net_env \<Rightarrow> sock_addr option \<Rightarrow> SocketNetAddress \<Rightarrow> bool \<times> SocketNetAddress" where
  "FillRemoteAddress env peername outAddr = fill_address env peername outAddr"

definition GetSocketAddr :: "net_env \<Rightarrow> SocketNetAddress \<Rightarrow> sock_addr option" where
  "GetSocketAddr env a =
     (let family = GetSaFamily a
      in map_option (\<lambda>bs. \<lparr>sa_family = family, sa_port = port_bytes (ad_port a), sa_addr = bs\<rparr>)
           (ne_pton env family (c_str (ad_address a))))"

section \<open>What is sent\<close>

lemma bufferSize_pos: "GetSendBufferSize os err = (Some (n, t), err1) \<Longrightarrow> 0 < n"
  by (auto simp: GetSendBufferSize_def DEFAULT_BUFFER_SIZE_def split: sum.splits if_splits)

lemma send_loop_sent:
  "send_loop t m outs err left sent = Some (ok, err', sent') \<Longrightarrow>
   \<exists>ps. sent' = sent @ ps \<and> prefix (concat ps) left \<and> (ok \<longleftrightarrow> concat ps = left) \<and> [] \<notin> set ps \<and>
        (t = SOCK_DGRAM \<longrightarrow> list_all (\<lambda>c. length c \<le> m) ps)"
proof (induction outs arbitrary: err left sent)
  case (Cons out outs)
  obtain okp err1 where p: "PollFd (fst out) err = (okp, err1)"
    by fastforce
  show ?case
  proof (cases "left = [] \<or> (\<not> okp \<and> err1 \<noteq> EINTR)")
    case True
    then show ?thesis
      using Cons.prems p by (auto split: if_splits)
  next
    case going: False
    define k where "k = (if t = SOCK_STREAM then length left else min (length left) m)"
    show ?thesis
    proof (cases "snd out")
      case (Send_error e)
      then show ?thesis
        using Cons.prems p going Cons.IH [of e left sent] by (auto split: if_splits)
    next
      case (Room room)
      define n where "n = min room k"
      have step: "send_loop t m (out # outs) err left sent =
          (if n = 0 then Some (False, err1, sent) else send_loop t m outs err1 (drop n left) (sent @ [take n left]))"
      proof -
        have "(left = []) = False" "(\<not> okp \<and> err1 \<noteq> EINTR) = False"
          using going by auto
        then show ?thesis
          by (simp only: send_loop.simps p Room n_def k_def Let_def prod.case send_out.case if_False)
      qed
      show ?thesis
      proof (cases "n = 0")
        case True
        then show ?thesis
          using Cons.prems going unfolding step by auto
      next
        case False
        then have "send_loop t m outs err1 (drop n left) (sent @ [take n left]) = Some (ok, err', sent')"
          using Cons.prems unfolding step by simp
        then obtain ps where ps: "sent' = (sent @ [take n left]) @ ps" "prefix (concat ps) (drop n left)"
            "ok \<longleftrightarrow> concat ps = drop n left" "[] \<notin> set ps" "t = SOCK_DGRAM \<longrightarrow> list_all (\<lambda>c. length c \<le> m) ps"
          using Cons.IH by blast
        have "t = SOCK_DGRAM \<longrightarrow> length (take n left) \<le> m"
          by (auto simp: n_def k_def)
        moreover have "prefix (take n left @ concat ps) left"
          using ps(2) append_take_drop_id [of n left] by (metis same_prefix_prefix)
        moreover have "ok \<longleftrightarrow> take n left @ concat ps = left"
          using ps(3) append_take_drop_id [of n left] by (metis same_append_eq)
        ultimately show ?thesis
          using ps False going by (intro exI [of _ "take n left # ps"]) auto
      qed
    qed
  qed
qed (auto split: if_splits)

text \<open>A kernel that takes something at every call.\<close>

fun accepting :: "poll_out \<times> send_out \<Rightarrow> bool" where
  "accepting (Poll_ready _, Room n) = (0 < n)"
| "accepting _ = False"

lemma send_loop_returns:
  "list_all accepting outs \<Longrightarrow> length left \<le> length outs \<Longrightarrow> 0 < m \<Longrightarrow>
   \<exists>err' sent'. send_loop t m outs err left sent = Some (True, err', sent')"
proof (induction outs arbitrary: err left sent)
  case (Cons out outs)
  show ?case
  proof (cases "left = []")
    case False
    obtain bad room where ps: "out = (Poll_ready bad, Room room)" "0 < room"
      using Cons.prems(1) by (cases out rule: accepting.cases) auto
    define n where "n = min room (if t = SOCK_STREAM then length left else min (length left) m)"
    have n: "n \<noteq> 0"
      using ps Cons.prems False by (auto simp: n_def)
    then have "\<exists>err' sent'. send_loop t m outs err (drop n left) (sent @ [take n left]) = Some (True, err', sent')"
      using Cons.prems False by (intro Cons.IH) auto
    then show ?thesis
      using ps n False by (simp add: n_def)
  qed simp
qed simp

text \<open>
  C16. \<open>PollSendData\<close> hands the kernel the data in order and without gaps or repeats: the pieces sent, none of
  them empty, form a prefix of the data, and it returns true only if they are all of the data; a piece of
  a datagram socket never exceeds the send buffer. It returns, with true, if the socket options can be
  read, the time-out is not negative and the kernel takes something at every call.
\<close>

theorem poll_send_data:
  assumes "GetSendBufferSize os err = (Some (n, t), err1)"
    and "0 \<le> ConfirmSocketTimeoutMs os False DEFAULT_TIMEOUT_MS"
  shows "(\<forall>ok err' sent. PollSendData os outs err data = Some (ok, err', sent) \<longrightarrow>
            prefix (concat sent) data \<and> (ok \<longleftrightarrow> concat sent = data) \<and> [] \<notin> set sent \<and>
            (t = SOCK_DGRAM \<longrightarrow> list_all (\<lambda>c. int (length c) \<le> n) sent)) \<and>
         (list_all accepting outs \<and> length data \<le> length outs \<longrightarrow>
            (\<exists>err' sent. PollSendData os outs err data = Some (True, err', sent)))"
proof -
  let ?e = "errno_after (so_tfo os) (errno_after (so_sndtimeo os) err1)"
  have eq: "PollSendData os outs err data = send_loop t (nat n) outs ?e data []"
    using assms by (simp add: PollSendData_def)
  have n: "0 < nat n"
    using bufferSize_pos [OF assms(1)] by simp
  have "list_all (\<lambda>c. length c \<le> nat n) xs = list_all (\<lambda>c. int (length c) \<le> n) xs" for xs :: "byte list list"
    using n by (intro list.pred_cong) auto
  then show ?thesis
    using send_loop_sent [of t "nat n" outs ?e data "[]"] send_loop_returns [of outs data "nat n" t ?e "[]"] n
    unfolding eq by fastforce
qed

definition udp_opts :: sock_opts where
  "udp_opts = \<lparr>so_sndbuf = Inr 2, so_rcvbuf = Inr 8192, so_type = Inr SOCK_DGRAM, so_rcvtimeo = Inr (0, 0),
              so_sndtimeo = Inr (0, 0), so_tfo = Inl (E_other 92), so_error = Inr 0\<rparr>"

theorem poll_send_data_witness:
  "\<exists>err' sent. PollSendData udp_opts [(Poll_ready False, Room 9), (Poll_ready False, Room 9), (Poll_ready False, Room 9)] E_OK [1, 2, 3] =
     Some (True, err', sent) \<and> concat sent = [1, 2, 3] \<and> list_all (\<lambda>c. int (length c) \<le> 2) sent"
proof -
  have opts: "GetSendBufferSize udp_opts E_OK = (Some (2, SOCK_DGRAM), E_OK)"
    "0 \<le> ConfirmSocketTimeoutMs udp_opts False DEFAULT_TIMEOUT_MS"
    by (simp_all add: udp_opts_def GetSendBufferSize_def ConfirmSocketTimeoutMs_def DEFAULT_TIMEOUT_MS_def to_int32_def)
  show ?thesis
    using poll_send_data [OF opts, of "[(Poll_ready False, Room 9), (Poll_ready False, Room 9), (Poll_ready False, Room 9)]" "[1, 2, 3]"]
    by fastforce
qed

section \<open>Socket addresses\<close>

lemma ntohs_port_bytes [simp]: "ntohs (port_bytes p) = p"
  using unsigned_less [of p, where ?'a = nat] by (simp add: ntohs_def port_bytes_def le_value_bytes)

lemma SetAddress_numeric:
  assumes "pton_laws env" and "length bs = (if ad_family a = IPv4 then 4 else 16)"
    and "af = (if ad_family a = IPv4 then AF_INET else AF_INET6)"
  shows "SetAddress env a (ne_ntop env af bs) = a\<lparr>ad_address := ne_ntop env af bs\<rparr>"
  using assms by (auto simp: SetAddress_def pton_laws_def)

text \<open>
  C34. The address a socket reports is the address it was given: if \<open>MakeSockAddr\<close> turns an address into
  bytes, reading these bytes back with \<open>FillLocalAddress\<close> or \<open>FillRemoteAddress\<close> succeeds, keeps family and
  port, and gives an address that \<open>MakeSockAddr\<close> and \<open>GetSocketAddr\<close> turn into the same bytes.
\<close>

theorem sock_addr_roundtrip:
  assumes "pton_laws env" and "MakeSockAddr env a = Some ss"
  shows "\<exists>a'. FillLocalAddress env (Some ss) b = (True, a') \<and> FillRemoteAddress env (Some ss) b = (True, a') \<and>
           GetSaFamily a' = GetSaFamily a \<and> ad_port a' = ad_port a \<and>
           MakeSockAddr env a' = Some ss \<and> GetSocketAddr env a' = Some ss"
proof -
  obtain bs where bs: "ne_pton env (GetSaFamily a) (c_str (ad_address a)) = Some bs"
    and ss: "ss = \<lparr>sa_family = GetSaFamily a, sa_port = port_bytes (ad_port a), sa_addr = bs\<rparr>"
    using assms(2) by (auto simp: MakeSockAddr_def)
  let ?f = "if ad_family a = IPv6 then IPv6 else IPv4"
  let ?b = "b\<lparr>ad_family := ?f\<rparr>"
  let ?t = "ne_ntop env (GetSaFamily a) bs"
  have len: "length bs = (if ad_family ?b = IPv4 then 4 else 16)"
    using assms(1) bs by (auto simp: pton_laws_def GetSaFamily_def split: if_splits)
  have "SetAddress env ?b ?t = ?b\<lparr>ad_address := ?t\<rparr>"
    using len by (intro SetAddress_numeric [OF assms(1)]) (auto simp: GetSaFamily_def)
  then have "fill_address env (Some ss) b = (True, ?b\<lparr>ad_address := ?t, ad_port := ad_port a\<rparr>)"
    by (auto simp: fill_address_def ss GetSaFamily_def SetFamilyByJsValue_def SetPort_def)
  moreover have "ne_pton env (GetSaFamily a) (c_str ?t) = Some bs"
    using assms(1) len by (auto simp: pton_laws_def GetSaFamily_def)
  ultimately show ?thesis
    by (auto simp: FillLocalAddress_def FillRemoteAddress_def MakeSockAddr_def GetSocketAddr_def GetSaFamily_def ss)
qed

text \<open>Addresses written with two letters per byte, as a concrete instance of the parameter.\<close>

definition letter :: "nat \<Rightarrow> char" where
  "letter n = char_of (65 + n)"

fun letters_bytes :: "string \<Rightarrow> byte list option" where
  "letters_bytes [] = Some []"
| "letters_bytes [c] = None"
| "letters_bytes (c # d # cs) =
     map_option (\<lambda>bs. word_of_nat (16 * (of_char c - 65) + (of_char d - 65)) # bs) (letters_bytes cs)"

definition letters_env :: net_env where
  "letters_env =
     \<lparr>ne_pton = (\<lambda>af s. case letters_bytes s of
                         None \<Rightarrow> None
                       | Some bs \<Rightarrow> if length bs = (if af = AF_INET then 4 else 16) then Some bs else None),
      ne_ntop = (\<lambda>af bs. concat (map (\<lambda>b. [letter (unat b div 16), letter (unat b mod 16)]) bs)),
      ne_resolve = (\<lambda>af s. None), ne_be = False\<rparr>"

lemma letter_code: "n < 16 \<Longrightarrow> of_char (letter n) = (65 + n :: nat) \<and> letter n \<noteq> NUL"
  by (auto simp: letter_def dest: arg_cong [of _ _ "of_char :: char \<Rightarrow> nat"])

lemma letters_bytes_letters:
  "letters_bytes (concat (map (\<lambda>b. [letter (unat b div 16), letter (unat b mod 16)]) bs)) = Some bs"
proof (induction bs)
  case (Cons b bs)
  have "unat b < 256"
    using unsigned_less [of b, where ?'a = nat] by simp
  then have "unat b div 16 < 16" "unat b mod 16 < 16"
    by auto
  then show ?case
    using Cons by (simp add: letter_code)
qed simp

lemma letters_no_NUL:
  "NUL \<notin> set (concat (map (\<lambda>b :: byte. [letter (unat b div 16), letter (unat b mod 16)]) bs))"
proof -
  have "unat b div 16 < 16" "unat b mod 16 < 16" for b :: byte
    using unsigned_less [of b, where ?'a = nat] by auto
  then have "letter (unat b div 16) \<noteq> NUL" "letter (unat b mod 16) \<noteq> NUL" for b :: byte
    using letter_code by blast+
  then show ?thesis
    by (auto dest: sym)
qed

lemma letters_env_laws: "pton_laws letters_env"
  using letters_no_NUL letters_bytes_letters
  by (auto simp: pton_laws_def letters_env_def simp del: set_concat split: option.splits if_splits)

theorem sock_addr_roundtrip_witness:
  "\<exists>a'. FillLocalAddress letters_env (MakeSockAddr letters_env \<lparr>ad_address = ''AAAAAAAB'', ad_family = IPv4, ad_port = 80\<rparr>) new_NetAddress = (True, a') \<and>
        ad_port a' = 80"
proof -
  let ?a = "\<lparr>ad_address = ''AAAAAAAB'', ad_family = IPv4, ad_port = 80\<rparr>"
  have "\<exists>ss. MakeSockAddr letters_env ?a = Some ss"
    by (simp add: MakeSockAddr_def letters_env_def GetSaFamily_def c_str_def)
  then obtain ss where ss: "MakeSockAddr letters_env ?a = Some ss"
    by blast
  show ?thesis
    using sock_addr_roundtrip [OF letters_env_laws ss, of new_NetAddress] ss by auto
qed

end
