(* ===== verification/Socks5_Package.thy ===== *)
theory Socks5_Package
  imports Socket_Exec "HOL-Library.Monad_Syntax"
begin

text \<open>
  The messages of the SOCKS5 protocol (\<open>frameworks/native/proxy/src/socks5_package.cpp\<close>,
  \<open>include/socks5.h\<close>, \<open>include/socks5_package.h\<close>) and the secrets they carry
  (\<open>tls_socket/src/secure_data.cpp\<close>).

  A \<open>std::string\<close> used as a buffer is a list of bytes. A read or a write outside a buffer has no
  value (\<open>None\<close>). The secure copy functions are not part of the sources: they succeed if the bytes fit,
  and \<open>zero_ok\<close> says what they do if the destination has size 0.
\<close>

section \<open>Data\<close>

datatype Socks5Command = TCP_CONNECTION | TCP_BIND | UDP_ASSOCIATE

fun command_byte :: "Socks5Command \<Rightarrow> byte" where
  "command_byte TCP_CONNECTION = 1"
| "command_byte TCP_BIND = 2"
| "command_byte UDP_ASSOCIATE = 3"

datatype Socks5MethodType = NO_AUTH | GSSAPI | PASSWORD | NO_METHODS | METHOD_other byte

fun method_byte :: "Socks5MethodType \<Rightarrow> byte" where
  "method_byte NO_AUTH = 0"
| "method_byte GSSAPI = 1"
| "method_byte PASSWORD = 2"
| "method_byte NO_METHODS = 255"
| "method_byte (METHOD_other b) = b"

definition method_of :: "byte \<Rightarrow> Socks5MethodType" where
  "method_of b = (if b = 0 then NO_AUTH else if b = 1 then GSSAPI else if b = 2 then PASSWORD
                  else if b = 255 then NO_METHODS else METHOD_other b)"

datatype Socks5AddrType = ATYP_IPV4 | ATYP_DOMAIN_NAME | ATYP_IPV6 | ATYP_other byte

fun atyp_byte :: "Socks5AddrType \<Rightarrow> byte" where
  "atyp_byte ATYP_IPV4 = 1"
| "atyp_byte ATYP_DOMAIN_NAME = 3"
| "atyp_byte ATYP_IPV6 = 4"
| "atyp_byte (ATYP_other b) = b"

definition atyp_of :: "byte \<Rightarrow> Socks5AddrType" where
  "atyp_of b = (if b = 1 then ATYP_IPV4 else if b = 3 then ATYP_DOMAIN_NAME else if b = 4 then ATYP_IPV6 else ATYP_other b)"

definition SOCKS5_VERSION :: byte where "SOCKS5_VERSION = 5"
definition SOCKS5_SUBVERSION :: byte where "SOCKS5_SUBVERSION = 1"
definition SOCKS5_MAX_USERNAME_LEN :: nat where "SOCKS5_MAX_USERNAME_LEN = 255"
definition SOCKS5_MAX_PASSWORD_LEN :: nat where "SOCKS5_MAX_PASSWORD_LEN = 255"
definition SOCKS5_MAX_DOMAIN_LEN :: nat where "SOCKS5_MAX_DOMAIN_LEN = 255"
definition IPV4_LEN :: nat where "IPV4_LEN = 4"
definition IPV6_LEN :: nat where "IPV6_LEN = 16"

text \<open>A secret is its bytes; assigning an empty secret leaves the old one in place.\<close>

definition SecureData_assign :: "byte list \<Rightarrow> byte list \<Rightarrow> byte list" where
  "SecureData_assign old secureData = (if length secureData = 0 then old else secureData)"

section \<open>Buffers\<close>

definition byte_at :: "byte list \<Rightarrow> nat \<Rightarrow> byte option" where
  "byte_at buffer i = (if i < length buffer then Some (buffer ! i) else None)"

definition bytes_at :: "byte list \<Rightarrow> nat \<Rightarrow> nat \<Rightarrow> byte list option" where
  "bytes_at buffer i n = (if i + n \<le> length buffer then Some (take n (drop i buffer)) else None)"

definition put_at :: "byte list \<Rightarrow> nat \<Rightarrow> byte \<Rightarrow> byte list option" where
  "put_at buffer i b = (if i < length buffer then Some (buffer[i := b]) else None)"

text \<open>\<open>memcpy_s(&buffer[pos], buffer.size() - pos, src, length src)\<close>; \<open>Some None\<close> is an error code.\<close>

definition copy_at :: "bool \<Rightarrow> byte list \<Rightarrow> nat \<Rightarrow> byte list \<Rightarrow> byte list option option" where
  "copy_at zero_ok buffer pos src =
     (if length buffer < pos then None
      else if length buffer = pos \<and> \<not> zero_ok then Some None
      else if length buffer - pos < length src then Some None
      else Some (Some (write_at buffer pos src)))"

text \<open>\<open>std::string::resize\<close>.\<close>

definition resize :: "nat \<Rightarrow> byte list \<Rightarrow> byte list" where
  "resize n s = take n s @ replicate (n - length s) 0"

section \<open>Choice of a method\<close>

record Socks5MethodRequest =
  mq_version :: byte
  mq_methods :: "Socks5MethodType list"

fun put_methods :: "byte list \<Rightarrow> nat \<Rightarrow> Socks5MethodType list \<Rightarrow> byte list option" where
  "put_methods serialized pos [] = Some serialized"
| "put_methods serialized pos (m # ms) =
     do { s \<leftarrow> put_at serialized pos (method_byte m); put_methods s (pos + 1) ms }"

definition Socks5MethodRequest_Serialize :: "Socks5MethodRequest \<Rightarrow> byte list option" where
  "Socks5MethodRequest_Serialize r =
     do {
       s0 \<leftarrow> put_at (resize (2 + length (mq_methods r)) []) 0 (mq_version r);
       s1 \<leftarrow> put_at s0 1 (word_of_nat (length (mq_methods r)));
       put_methods s1 2 (mq_methods r)
     }"

record Socks5MethodResponse =
  mr_version :: byte
  mr_method :: byte

definition Socks5MethodResponse_Deserialize :: "Socks5MethodResponse \<Rightarrow> byte list \<Rightarrow> (bool \<times> Socks5MethodResponse) option" where
  "Socks5MethodResponse_Deserialize r data =
     (if length data < 2 then Some (False, r)
      else do {
        v \<leftarrow> byte_at data 0;
        m \<leftarrow> byte_at data 1;
        Some (v = SOCKS5_VERSION, \<lparr>mr_version = v, mr_method = m\<rparr>)
      })"

section \<open>User name and password\<close>

record Socks5AuthRequest =
  aq_version :: byte
  aq_username :: "byte list"
  aq_password :: "byte list"

text \<open>The empty buffer is the error value.\<close>

definition Socks5AuthRequest_Serialize :: "bool \<Rightarrow> Socks5AuthRequest \<Rightarrow> byte list option" where
  "Socks5AuthRequest_Serialize zero_ok r =
     (let u = aq_username r; p = aq_password r
      in if length u > SOCKS5_MAX_USERNAME_LEN \<or> length p > SOCKS5_MAX_PASSWORD_LEN then Some []
         else do {
           s0 \<leftarrow> put_at (resize (3 + length u + length p) []) 0 (aq_version r);
           s1 \<leftarrow> put_at s0 1 (word_of_nat (length u));
           c \<leftarrow> copy_at zero_ok s1 2 u;
           case c of
             None \<Rightarrow> Some []
           | Some s2 \<Rightarrow> do {
               s3 \<leftarrow> put_at s2 (2 + length u) (word_of_nat (length p));
               d \<leftarrow> copy_at zero_ok s3 (3 + length u) p;
               Some (case d of None \<Rightarrow> [] | Some s4 \<Rightarrow> s4)
             }
         })"

record Socks5AuthResponse =
  ar_version :: byte
  ar_status :: byte

definition Socks5AuthResponse_Deserialize :: "Socks5AuthResponse \<Rightarrow> byte list \<Rightarrow> (bool \<times> Socks5AuthResponse) option" where
  "Socks5AuthResponse_Deserialize r data =
     (if length data < 2 then Some (False, r)
      else do {
        v \<leftarrow> byte_at data 0;
        s \<leftarrow> byte_at data 1;
        Some (v = SOCKS5_SUBVERSION, \<lparr>ar_version = v, ar_status = s\<rparr>)
      })"

section \<open>Addresses in messages\<close>

text \<open>The new position and buffer; \<open>Some None\<close> is the result \<open>-1\<close>.\<close>

definition CopyAddrToStr :: "net_env \<Rightarrow> bool \<Rightarrow> Socks5AddrType \<Rightarrow> string \<Rightarrow> byte list \<Rightarrow> nat \<Rightarrow> (nat \<times> byte list) option option" where
  "CopyAddrToStr env zero_ok addrType destAddr serialized pos =
     (case addrType of
        ATYP_IPV4 \<Rightarrow>
          (case ne_pton env AF_INET (c_str destAddr) of
             None \<Rightarrow> Some None
           | Some bs \<Rightarrow> do { c \<leftarrow> copy_at zero_ok serialized pos bs; Some (map_option (Pair (pos + IPV4_LEN)) c) })
      | ATYP_DOMAIN_NAME \<Rightarrow>
          if length destAddr > SOCKS5_MAX_DOMAIN_LEN then Some None
          else do {
            s \<leftarrow> put_at serialized pos (word_of_nat (length destAddr));
            c \<leftarrow> copy_at zero_ok s (pos + 1) (map char_to_byte destAddr);
            Some (map_option (Pair (pos + 1 + length destAddr)) c)
          }
      | ATYP_IPV6 \<Rightarrow>
          (case ne_pton env AF_INET6 (c_str destAddr) of
             None \<Rightarrow> Some None
           | Some bs \<Rightarrow> do { c \<leftarrow> copy_at zero_ok serialized pos bs; Some (map_option (Pair (pos + IPV6_LEN)) c) })
      | ATYP_other _ \<Rightarrow> Some None)"

definition ResizeStrByAType :: "Socks5AddrType \<Rightarrow> string \<Rightarrow> nat \<Rightarrow> byte list \<Rightarrow> byte list" where
  "ResizeStrByAType addrType destAddr otherLen serialized =
     (case addrType of
        ATYP_IPV4 \<Rightarrow> resize (otherLen + IPV4_LEN) serialized
      | ATYP_DOMAIN_NAME \<Rightarrow> resize (otherLen + length destAddr + 1) serialized
      | ATYP_IPV6 \<Rightarrow> resize (otherLen + IPV6_LEN) serialized
      | ATYP_other _ \<Rightarrow> serialized)"

definition GetAddrLen :: "Socks5AddrType \<Rightarrow> byte list \<Rightarrow> nat \<Rightarrow> nat option" where
  "GetAddrLen addrType buffer domainLenIdx =
     (case addrType of
        ATYP_IPV4 \<Rightarrow> Some IPV4_LEN
      | ATYP_DOMAIN_NAME \<Rightarrow> do { n \<leftarrow> byte_at buffer domainLenIdx; Some (unat n + 1) }
      | ATYP_IPV6 \<Rightarrow> Some IPV6_LEN
      | ATYP_other _ \<Rightarrow> Some 0)"

definition GetAddrStr :: "net_env \<Rightarrow> Socks5AddrType \<Rightarrow> byte list \<Rightarrow> nat \<Rightarrow> nat \<Rightarrow> string \<Rightarrow> string option" where
  "GetAddrStr env addrType buffer hdrLen domainIdx destAddr =
     (case addrType of
        ATYP_IPV4 \<Rightarrow> do { bs \<leftarrow> bytes_at buffer hdrLen IPV4_LEN; Some (ne_ntop env AF_INET bs) }
      | ATYP_DOMAIN_NAME \<Rightarrow>
          do { n \<leftarrow> byte_at buffer hdrLen; bs \<leftarrow> bytes_at buffer domainIdx (unat n); Some (map byte_to_char bs) }
      | ATYP_IPV6 \<Rightarrow> do { bs \<leftarrow> bytes_at buffer hdrLen IPV6_LEN; Some (ne_ntop env AF_INET6 bs) }
      | ATYP_other _ \<Rightarrow> Some destAddr)"

text \<open>\<open>(buffer[len - 2] << 8) | buffer[len - 1]\<close>.\<close>

definition last_port :: "byte list \<Rightarrow> u16 option" where
  "last_port buffer =
     do {
       hi \<leftarrow> byte_at buffer (length buffer - 2);
       lo \<leftarrow> byte_at buffer (length buffer - 1);
       Some (word_of_nat (256 * unat hi + unat lo))
     }"

section \<open>Asking for a connection\<close>

record Socks5ProxyRequest =
  pq_version :: byte
  pq_cmd :: Socks5Command
  pq_reserved :: byte
  pq_addrType :: Socks5AddrType
  pq_destAddr :: string
  pq_destPort :: u16

definition Socks5ProxyRequest_Serialize :: "net_env \<Rightarrow> bool \<Rightarrow> Socks5ProxyRequest \<Rightarrow> byte list option" where
  "Socks5ProxyRequest_Serialize env zero_ok r =
     do {
       s0 \<leftarrow> put_at (ResizeStrByAType (pq_addrType r) (pq_destAddr r) 6 []) 0 (pq_version r);
       s1 \<leftarrow> put_at s0 1 (command_byte (pq_cmd r));
       s2 \<leftarrow> put_at s1 2 (pq_reserved r);
       s3 \<leftarrow> put_at s2 3 (atyp_byte (pq_addrType r));
       c \<leftarrow> CopyAddrToStr env zero_ok (pq_addrType r) (pq_destAddr r) s3 4;
       case c of
         None \<Rightarrow> Some []
       | Some (pos, s4) \<Rightarrow> do {
           d \<leftarrow> copy_at zero_ok s4 pos (port_bytes (pq_destPort r));
           Some (case d of None \<Rightarrow> [] | Some s5 \<Rightarrow> s5)
         }
     }"

record Socks5ProxyResponse =
  pr_version :: byte
  pr_status :: byte
  pr_reserved :: byte
  pr_addrType :: Socks5AddrType
  pr_destAddr :: string
  pr_destPort :: u16

definition Socks5ProxyResponse_Deserialize ::
  "net_env \<Rightarrow> Socks5ProxyResponse \<Rightarrow> byte list \<Rightarrow> (bool \<times> Socks5ProxyResponse) option" where
  "Socks5ProxyResponse_Deserialize env r data =
     (if length data < 4 + 2 then Some (False, r)
      else do {
        v \<leftarrow> byte_at data 0;
        s \<leftarrow> byte_at data 1;
        rsv \<leftarrow> byte_at data 2;
        t \<leftarrow> byte_at data 3;
        let r1 = r\<lparr>pr_version := v, pr_status := s, pr_reserved := rsv, pr_addrType := atyp_of t\<rparr>;
        if v \<noteq> SOCKS5_VERSION then Some (False, r1)
        else do {
          addrLen \<leftarrow> GetAddrLen (atyp_of t) data 4;
          if addrLen = 0 \<or> length data < 4 + addrLen + 2 then Some (False, r1)
          else do {
            a \<leftarrow> GetAddrStr env (atyp_of t) data 4 5 (pr_destAddr r);
            p \<leftarrow> last_port data;
            Some (True, r1\<lparr>pr_destAddr := a, pr_destPort := p\<rparr>)
          }
        }
      })"

section \<open>The header of a datagram\<close>

record Socks5UdpHeader =
  uh_reserved :: u16
  uh_frag :: byte
  uh_addrType :: Socks5AddrType
  uh_destAddr :: string
  uh_dstPort :: u16

text \<open>The reserved field is copied in the order of the host.\<close>

definition Socks5UdpHeader_Serialize :: "net_env \<Rightarrow> bool \<Rightarrow> Socks5UdpHeader \<Rightarrow> byte list option" where
  "Socks5UdpHeader_Serialize env zero_ok h =
     do {
       c0 \<leftarrow> copy_at zero_ok (ResizeStrByAType (uh_addrType h) (uh_destAddr h) 6 []) 0
               (host_bytes (ne_be env) 2 (unat (uh_reserved h)));
       case c0 of
         None \<Rightarrow> Some []
       | Some s1 \<Rightarrow> do {
           s2 \<leftarrow> put_at s1 2 (uh_frag h);
           s3 \<leftarrow> put_at s2 3 (atyp_byte (uh_addrType h));
           c \<leftarrow> CopyAddrToStr env zero_ok (uh_addrType h) (uh_destAddr h) s3 4;
           case c of
             None \<Rightarrow> Some []
           | Some (pos, s4) \<Rightarrow> do {
               d \<leftarrow> copy_at zero_ok s4 pos (port_bytes (uh_dstPort h));
               Some (case d of None \<Rightarrow> [] | Some s5 \<Rightarrow> s5)
             }
         }
     }"

definition Socks5UdpHeader_Deserialize :: "net_env \<Rightarrow> Socks5UdpHeader \<Rightarrow> byte list \<Rightarrow> (bool \<times> Socks5UdpHeader) option" where
  "Socks5UdpHeader_Deserialize env h data =
     (if length data < 4 + 2 then Some (False, h)
      else do {
        b2 \<leftarrow> byte_at data 2;
        b1 \<leftarrow> byte_at data 1;
        b0 \<leftarrow> byte_at data 0;
        if b2 \<noteq> 0 \<or> b1 \<noteq> 0 \<or> b0 \<noteq> 0 then Some (False, h)
        else do {
          t \<leftarrow> byte_at data 3;
          let h1 = h\<lparr>uh_addrType := atyp_of t\<rparr>;
          addrLen \<leftarrow> GetAddrLen (atyp_of t) data 4;
          if addrLen = 0 \<or> length data < 4 + addrLen + 2 then Some (False, h1)
          else do {
            a \<leftarrow> GetAddrStr env (atyp_of t) data 4 5 (uh_destAddr h);
            p \<leftarrow> last_port data;
            Some (True, h1\<lparr>uh_destAddr := a, uh_dstPort := p\<rparr>)
          }
        }
      })"

section \<open>What the messages look like\<close>

text \<open>Filling a buffer from the left.\<close>

lemma write_at_fill [simp]:
  assumes "n = length xs" and "n + length ys \<le> length s"
  shows "write_at (write_at s 0 xs) n ys = write_at s 0 (xs @ ys)"
  using assms write_at_write_at [of 0 xs ys s] by simp

lemma put_at_fill:
  assumes "n = length xs" and "n < length s"
  shows "put_at (write_at s 0 xs) n b = Some (write_at s 0 (xs @ [b]))"
  using assms Cons_nth_drop_Suc [of n s]
  by (simp add: put_at_def write_at_def list_update_append Cons_nth_drop_Suc [symmetric])

lemma copy_at_fill:
  assumes "n = length xs" and "n < length s" and "n + length ys \<le> length s"
  shows "copy_at z (write_at s 0 xs) n ys = Some (Some (write_at s 0 (xs @ ys)))"
  using assms by (simp add: copy_at_def)

lemma write_at_0_Nil [simp]: "write_at s 0 [] = s"
  by (simp add: write_at_def)

lemma write_at_all: "length xs = length s \<Longrightarrow> write_at s 0 xs = xs"
  by (simp add: write_at_def)

lemma resize_Nil [simp]: "resize n [] = replicate n 0"
  by (simp add: resize_def)

text \<open>The bytes RFC 1928 prescribes for an address.\<close>

definition address_bytes :: "net_env \<Rightarrow> Socks5AddrType \<Rightarrow> string \<Rightarrow> byte list option" where
  "address_bytes env t a =
     (case t of
        ATYP_IPV4 \<Rightarrow> ne_pton env AF_INET (c_str a)
      | ATYP_IPV6 \<Rightarrow> ne_pton env AF_INET6 (c_str a)
      | ATYP_DOMAIN_NAME \<Rightarrow> if length a \<le> 255 then Some (word_of_nat (length a) # map char_to_byte a) else None
      | ATYP_other _ \<Rightarrow> None)"

fun atyp_known :: "Socks5AddrType \<Rightarrow> bool" where
  "atyp_known (ATYP_other _) = False"
| "atyp_known _ = True"

lemma CopyAddrToStr_fill:
  assumes "pton_laws env" and "n = length xs" and "n + 1 < length s"
    and "\<And>bs. address_bytes env t a = Some bs \<Longrightarrow> n + length bs \<le> length s \<and> n < length s"
    and "t = ATYP_DOMAIN_NAME \<longrightarrow> n + 1 + length a < length s"
  shows "CopyAddrToStr env z t a (write_at s 0 xs) n =
           Some (map_option (\<lambda>bs. (n + length bs, write_at s 0 (xs @ bs))) (address_bytes env t a))"
proof (cases t)
  case ATYP_DOMAIN_NAME
  then have "put_at (write_at s 0 xs) n b = Some (write_at s 0 (xs @ [b]))" for b
    using assms by (intro put_at_fill) auto
  moreover have "copy_at z (write_at s 0 (xs @ [b])) (n + 1) (map char_to_byte a) = Some (Some (write_at s 0 ((xs @ [b]) @ map char_to_byte a)))" for b
    using assms ATYP_DOMAIN_NAME by (intro copy_at_fill) auto
  ultimately show ?thesis
    using ATYP_DOMAIN_NAME by (auto simp: CopyAddrToStr_def address_bytes_def SOCKS5_MAX_DOMAIN_LEN_def)
next
  case ATYP_IPV4
  then show ?thesis
    using assms by (auto simp: CopyAddrToStr_def address_bytes_def pton_laws_def IPV4_LEN_def copy_at_fill split: option.split)
next
  case ATYP_IPV6
  then show ?thesis
    using assms by (auto simp: CopyAddrToStr_def address_bytes_def pton_laws_def IPV6_LEN_def copy_at_fill split: option.split)
qed (auto simp: CopyAddrToStr_def address_bytes_def)

lemma length_address_bytes:
  assumes "pton_laws env" and "address_bytes env t a = Some bs"
  shows "ResizeStrByAType t a n [] = replicate (n + length bs) 0"
  using assms by (cases t) (auto simp: address_bytes_def pton_laws_def ResizeStrByAType_def IPV4_LEN_def IPV6_LEN_def split: if_splits)

lemma length_resized: "atyp_known t \<Longrightarrow> length (ResizeStrByAType t a n []) = n + (case t of ATYP_IPV4 \<Rightarrow> 4 | ATYP_IPV6 \<Rightarrow> 16 | _ \<Rightarrow> length a + 1)"
  by (cases t) (auto simp: ResizeStrByAType_def IPV4_LEN_def IPV6_LEN_def)

text \<open>What both serializers do behind the first four bytes.\<close>

lemma serialize_tail:
  assumes laws: "pton_laws env" and known: "atyp_known t" and n: "length xs = 4"
    and s: "s = ResizeStrByAType t a 6 []"
  shows "(CopyAddrToStr env z t a (write_at s 0 xs) 4 \<bind>
           (\<lambda>c. case c of None \<Rightarrow> Some []
                | Some (pos, s4) \<Rightarrow> copy_at z s4 pos (port_bytes p) \<bind> (\<lambda>d. Some (case d of None \<Rightarrow> [] | Some s5 \<Rightarrow> s5)))) =
         Some (case address_bytes env t a of None \<Rightarrow> [] | Some bs \<Rightarrow> xs @ bs @ port_bytes p)"
proof -
  have len: "length s = 6 + (case t of ATYP_IPV4 \<Rightarrow> 4 | ATYP_IPV6 \<Rightarrow> 16 | _ \<Rightarrow> length a + 1)"
    using length_resized [OF known] s by simp
  have fit: "length s = 6 + length bs" if "address_bytes env t a = Some bs" for bs
    using length_address_bytes [OF laws that] s by simp
  have c: "CopyAddrToStr env z t a (write_at s 0 xs) 4 =
      Some (map_option (\<lambda>bs. (4 + length bs, write_at s 0 (xs @ bs))) (address_bytes env t a))"
    using len fit n by (intro CopyAddrToStr_fill [OF laws]) auto
  show ?thesis
  proof (cases "address_bytes env t a")
    case (Some bs)
    then have "copy_at z (write_at s 0 (xs @ bs)) (4 + length bs) (port_bytes p) = Some (Some (write_at s 0 ((xs @ bs) @ port_bytes p)))"
      using fit n by (intro copy_at_fill) auto
    moreover have "write_at s 0 ((xs @ bs) @ port_bytes p) = (xs @ bs) @ port_bytes p"
      using fit Some n by (intro write_at_all) auto
    ultimately show ?thesis
      by (simp add: c Some)
  qed (simp add: c)
qed

lemma put_at_first: "s \<noteq> [] \<Longrightarrow> put_at s 0 b = Some (write_at s 0 [b])"
  using put_at_fill [of 0 "[]" s b] by simp

lemma ProxyRequest_bytes:
  assumes "pton_laws env" and "atyp_known (pq_addrType r)"
  shows "Socks5ProxyRequest_Serialize env z r =
    Some (case address_bytes env (pq_addrType r) (pq_destAddr r) of
            None \<Rightarrow> []
          | Some bs \<Rightarrow> [pq_version r, command_byte (pq_cmd r), pq_reserved r, atyp_byte (pq_addrType r)] @ bs @ port_bytes (pq_destPort r))"
proof -
  let ?s = "ResizeStrByAType (pq_addrType r) (pq_destAddr r) 6 []"
  have "6 < length ?s"
    using length_resized [OF assms(2), of "pq_destAddr r" 6] by (simp split: Socks5AddrType.splits)
  moreover from this have "?s \<noteq> []"
    by auto
  ultimately show ?thesis
    using serialize_tail [OF assms, of "[pq_version r, command_byte (pq_cmd r), pq_reserved r, atyp_byte (pq_addrType r)]", OF _ refl]
    by (simp add: Socks5ProxyRequest_Serialize_def put_at_first put_at_fill)
qed

lemma UdpHeader_bytes:
  assumes "pton_laws env" and "atyp_known (uh_addrType h)"
  shows "Socks5UdpHeader_Serialize env z h =
    Some (case address_bytes env (uh_addrType h) (uh_destAddr h) of
            None \<Rightarrow> []
          | Some bs \<Rightarrow> (host_bytes (ne_be env) 2 (unat (uh_reserved h)) @ [uh_frag h, atyp_byte (uh_addrType h)]) @ bs @ port_bytes (uh_dstPort h))"
proof -
  let ?s = "ResizeStrByAType (uh_addrType h) (uh_destAddr h) 6 []"
  let ?r = "host_bytes (ne_be env) 2 (unat (uh_reserved h))"
  have len: "6 < length ?s"
    using length_resized [OF assms(2), of "uh_destAddr h" 6] by (simp split: Socks5AddrType.splits)
  then have "?s \<noteq> []"
    by auto
  then have "copy_at z ?s 0 ?r = Some (Some (write_at ?s 0 ?r))"
    using len copy_at_fill [of 0 "[]" ?s ?r z] by auto
  then show ?thesis
    using len serialize_tail [OF assms, of "?r @ [uh_frag h, atyp_byte (uh_addrType h)]", OF _ refl]
    by (simp add: Socks5UdpHeader_Serialize_def put_at_fill)
qed

text \<open>The other two requests.\<close>

lemma put_methods_fill:
  "n = length xs \<Longrightarrow> n + length ms \<le> length s \<Longrightarrow>
   put_methods (write_at s 0 xs) n ms = Some (write_at s 0 (xs @ map method_byte ms))"
proof (induction ms arbitrary: n xs)
  case (Cons m ms)
  then show ?case
    using Cons.IH [of "Suc n" "xs @ [method_byte m]"] by (simp add: put_at_fill)
qed simp

lemma MethodRequest_bytes:
  "Socks5MethodRequest_Serialize r = Some ([mq_version r, word_of_nat (length (mq_methods r))] @ map method_byte (mq_methods r))"
  by (simp add: Socks5MethodRequest_Serialize_def put_at_first put_at_fill put_methods_fill write_at_all del: replicate.simps)

lemma AuthRequest_bytes:
  assumes "0 < length (aq_username r)" and "0 < length (aq_password r)"
  shows "Socks5AuthRequest_Serialize z r =
    Some (if length (aq_username r) > 255 \<or> length (aq_password r) > 255 then []
          else [aq_version r, word_of_nat (length (aq_username r))] @ aq_username r @
               word_of_nat (length (aq_password r)) # aq_password r)"
proof (cases "length (aq_username r) > 255 \<or> length (aq_password r) > 255")
  case True
  then show ?thesis
    by (simp add: Socks5AuthRequest_Serialize_def SOCKS5_MAX_USERNAME_LEN_def SOCKS5_MAX_PASSWORD_LEN_def)
next
  case False
  let ?u = "aq_username r" and ?p = "aq_password r"
  let ?s = "replicate (3 + length ?u + length ?p) 0 :: byte list"
  have "put_at ?s 0 (aq_version r) = Some (write_at ?s 0 [aq_version r])"
    by (intro put_at_first) simp
  moreover have "put_at (write_at ?s 0 [aq_version r]) 1 b = Some (write_at ?s 0 ([aq_version r] @ [b]))" for b
    by (intro put_at_fill) auto
  moreover have "copy_at z (write_at ?s 0 ([aq_version r] @ [b])) 2 ?u = Some (Some (write_at ?s 0 (([aq_version r] @ [b]) @ ?u)))" for b
    by (intro copy_at_fill) auto
  moreover have "put_at (write_at ?s 0 (([aq_version r] @ [b]) @ ?u)) (2 + length ?u) c =
      Some (write_at ?s 0 ((([aq_version r] @ [b]) @ ?u) @ [c]))" for b c
    by (intro put_at_fill) auto
  moreover have "copy_at z (write_at ?s 0 ((([aq_version r] @ [b]) @ ?u) @ [c])) (3 + length ?u) ?p =
      Some (Some (write_at ?s 0 (((([aq_version r] @ [b]) @ ?u) @ [c]) @ ?p)))" for b c
    using assms by (intro copy_at_fill) auto
  moreover have "write_at ?s 0 (((([aq_version r] @ [b]) @ ?u) @ [c]) @ ?p) = ((([aq_version r] @ [b]) @ ?u) @ [c]) @ ?p" for b c
    by (intro write_at_all) auto
  ultimately show ?thesis
    using False unfolding Socks5AuthRequest_Serialize_def SOCKS5_MAX_USERNAME_LEN_def SOCKS5_MAX_PASSWORD_LEN_def Let_def resize_Nil
    by (simp del: replicate.simps)
qed

section \<open>What is read from a message\<close>

text \<open>The length of the address field, given the whole message.\<close>

definition address_len :: "byte list \<Rightarrow> nat" where
  "address_len data =
     (case atyp_of (data ! 3) of
        ATYP_IPV4 \<Rightarrow> 4 | ATYP_IPV6 \<Rightarrow> 16 | ATYP_DOMAIN_NAME \<Rightarrow> unat (data ! 4) + 1 | ATYP_other _ \<Rightarrow> 0)"

definition address_fits :: "byte list \<Rightarrow> bool" where
  "address_fits data \<longleftrightarrow> 6 \<le> length data \<and> atyp_known (atyp_of (data ! 3)) \<and> 4 + address_len data + 2 \<le> length data"

lemma GetAddrLen_total: "6 \<le> length data \<Longrightarrow> GetAddrLen (atyp_of (data ! 3)) data 4 = Some (address_len data)"
  by (simp add: GetAddrLen_def address_len_def byte_at_def IPV4_LEN_def IPV6_LEN_def split: Socks5AddrType.split)

lemma address_len_0: "address_len data = 0 \<longleftrightarrow> \<not> atyp_known (atyp_of (data ! 3))"
  by (simp add: address_len_def split: Socks5AddrType.split)

lemma GetAddrStr_total: "address_fits data \<Longrightarrow> \<exists>a. GetAddrStr env (atyp_of (data ! 3)) data 4 5 d = Some a"
  by (auto simp: GetAddrStr_def address_fits_def address_len_def bytes_at_def byte_at_def IPV4_LEN_def IPV6_LEN_def
      split: Socks5AddrType.splits)

lemma last_port_total: "2 \<le> length data \<Longrightarrow> \<exists>p. last_port data = Some p"
  by (auto simp: last_port_def byte_at_def)

lemma word_of_port_bytes: "word_of_nat (256 * (unat p div 256) + unat p mod 256) = (p :: u16)"
  by (simp del: word_of_nat_eq_0_iff)

lemma last_port_append: "last_port (xs @ [hi, lo]) = Some (word_of_nat (256 * unat hi + unat lo))"
  by (simp add: last_port_def byte_at_def nth_append)

lemma last_port_port_bytes: "last_port (xs @ port_bytes p) = Some p"
proof -
  have p: "port_bytes p = [word_of_nat (unat p div 256), word_of_nat (unat p)]"
    by (simp add: port_bytes_def numeral_2_eq_2)
  have "unat p div 256 < 256"
    using unsigned_less [of p, where ?'a = nat] by simp
  then have "unat (word_of_nat (unat p div 256) :: byte) = unat p div 256" "unat (word_of_nat (unat p) :: byte) = unat p mod 256"
    by (simp_all only: unat_of_nat) simp_all
  then show ?thesis
    unfolding p last_port_append using word_of_port_bytes [of p] by (simp only:)
qed

lemma ProxyResponse_total:
  "\<exists>r'. Socks5ProxyResponse_Deserialize env r data = Some (address_fits data \<and> data ! 0 = SOCKS5_VERSION, r')"
  using GetAddrLen_total [of data] GetAddrStr_total [of data env "pr_destAddr r"] last_port_total [of data] address_len_0 [of data]
  by (auto simp: Socks5ProxyResponse_Deserialize_def byte_at_def address_fits_def)

lemma UdpHeader_total:
  "\<exists>h'. Socks5UdpHeader_Deserialize env h data =
     Some (address_fits data \<and> data ! 0 = 0 \<and> data ! 1 = 0 \<and> data ! 2 = 0, h')"
  using GetAddrLen_total [of data] GetAddrStr_total [of data env "uh_destAddr h"] last_port_total [of data] address_len_0 [of data]
  by (auto simp: Socks5UdpHeader_Deserialize_def byte_at_def address_fits_def)

lemma atyp_of_byte: "atyp_known t \<Longrightarrow> atyp_of (atyp_byte t) = t"
  by (cases t) (auto simp: atyp_of_def)

text \<open>A message that starts with an address in the form RFC 1928 prescribes.\<close>

lemma address_read:
  assumes laws: "pton_laws env" and known: "atyp_known t" and bs: "address_bytes env t a = Some bs"
    and data: "data = [b0, b1, b2, atyp_byte t] @ bs @ rest" and rest: "2 \<le> length rest"
  shows "address_fits data" and "address_len data = length bs"
    and "\<exists>a'. GetAddrStr env t data 4 5 d = Some a' \<and> address_bytes env t a' = Some bs \<and> (t = ATYP_DOMAIN_NAME \<longrightarrow> a' = a)"
proof -
  have t: "atyp_of (data ! 3) = t"
    using known by (simp add: data atyp_of_byte)
  have dom: "bs = word_of_nat (length a) # map char_to_byte a \<and> unat (word_of_nat (length a) :: byte) = length a" if "t = ATYP_DOMAIN_NAME"
    using bs that by (auto simp: address_bytes_def unat_of_nat split: if_splits)
  have ip: "length bs = (if t = ATYP_IPV4 then 4 else 16)" if "t \<noteq> ATYP_DOMAIN_NAME"
    using bs that known laws by (cases t) (auto simp: address_bytes_def pton_laws_def)
  show len: "address_len data = length bs"
    using t dom ip known by (cases t) (auto simp: address_len_def data)
  show "address_fits data"
    using t known len rest by (cases t) (auto simp: address_fits_def data dest: dom ip)
  show "\<exists>a'. GetAddrStr env t data 4 5 d = Some a' \<and> address_bytes env t a' = Some bs \<and> (t = ATYP_DOMAIN_NAME \<longrightarrow> a' = a)"
  proof (cases t)
    case ATYP_DOMAIN_NAME
    then show ?thesis
      using bs dom by (auto simp: GetAddrStr_def byte_at_def bytes_at_def data comp_def)
  next
    case ATYP_IPV4
    then show ?thesis
      using ip laws by (auto simp: GetAddrStr_def bytes_at_def data address_bytes_def pton_laws_def IPV4_LEN_def)
  next
    case ATYP_IPV6
    then show ?thesis
      using ip laws by (auto simp: GetAddrStr_def bytes_at_def data address_bytes_def pton_laws_def IPV6_LEN_def)
  qed (use known in simp)
qed


definition new_ProxyResponse :: Socks5ProxyResponse where
  "new_ProxyResponse = \<lparr>pr_version = 0, pr_status = 0, pr_reserved = 0, pr_addrType = ATYP_other 0, pr_destAddr = [], pr_destPort = 0\<rparr>"


end
