(* ===== verification/Socks5_Instance.thy ===== *)
theory Socks5_Instance
  imports Socks5_Package
begin

text \<open>
  Connecting through a SOCKS5 proxy (\<open>frameworks/native/proxy/src/socks5_instance.cpp\<close>,
  \<open>socks5_none_method.cpp\<close>, \<open>socks5_passwd_method.cpp\<close>, \<open>socks5_utils.cpp\<close>): the choice of a method, the
  authentication, the connection request, and the headers of datagrams.

  The outcomes of the system calls of a connection attempt are part of the world: one list of outcomes
  per call of \<open>Send\<close> and of \<open>Recv\<close>. The world also records the bytes sent and received and the descriptors
  closed. No value (\<open>None\<close>) is an attempt that has not ended, or one that follows a null pointer.
\<close>

section \<open>Data\<close>

datatype Socks5AuthState = AUTH_INIT | AUTH_FAIL | AUTH_SUCCESS

datatype Socks5Status =
    ST_SUCCESS
  | ST_FAIL
  | CONNECTION_NOT_ALLOWED
  | NETWORK_UNREACHABLE
  | HOST_UNREACHABLE
  | CONNECTION_REFUSED_BY_HOST
  | TTL_EXPIRED
  | COMMAND_NOT_SUPPORTED
  | ADDRESS_TYPE_NOT_SUPPORTED
  | SOCKS5_NOT_ACTIVE
  | SOCKS5_METHOD_ERROR
  | SOCKS5_MAKE_SOCKET_ERROR
  | SOCKS5_OTHER_ERROR
  | SOCKS5_FAIL_TO_CONNECT_PROXY
  | SOCKS5_USER_PASS_INVALID
  | SOCKS5_FAIL_TO_CONNECT_REMOTE
  | SOCKS5_METHOD_NEGO_ERROR
  | SOCKS5_FAIL_TO_SEND_MSG
  | SOCKS5_FAIL_TO_RECV_MSG
  | SOCKS5_SERIALIZE_ERROR
  | SOCKS5_DESERIALIZE_ERROR
  | OTHER_STATUS

fun status_code :: "Socks5Status \<Rightarrow> int" where
  "status_code ST_SUCCESS = 0"
| "status_code ST_FAIL = 1"
| "status_code CONNECTION_NOT_ALLOWED = 2"
| "status_code NETWORK_UNREACHABLE = 3"
| "status_code HOST_UNREACHABLE = 4"
| "status_code CONNECTION_REFUSED_BY_HOST = 5"
| "status_code TTL_EXPIRED = 6"
| "status_code COMMAND_NOT_SUPPORTED = 7"
| "status_code ADDRESS_TYPE_NOT_SUPPORTED = 8"
| "status_code SOCKS5_NOT_ACTIVE = 161"
| "status_code SOCKS5_METHOD_ERROR = 162"
| "status_code SOCKS5_MAKE_SOCKET_ERROR = 163"
| "status_code SOCKS5_OTHER_ERROR = 205"
| "status_code SOCKS5_FAIL_TO_CONNECT_PROXY = 206"
| "status_code SOCKS5_USER_PASS_INVALID = 207"
| "status_code SOCKS5_FAIL_TO_CONNECT_REMOTE = 208"
| "status_code SOCKS5_METHOD_NEGO_ERROR = 209"
| "status_code SOCKS5_FAIL_TO_SEND_MSG = 210"
| "status_code SOCKS5_FAIL_TO_RECV_MSG = 211"
| "status_code SOCKS5_SERIALIZE_ERROR = 212"
| "status_code SOCKS5_DESERIALIZE_ERROR = 213"
| "status_code OTHER_STATUS = 214"

fun g_errStatusMap :: "Socks5Status \<Rightarrow> string" where
  "g_errStatusMap ST_SUCCESS = ''Success''"
| "g_errStatusMap ST_FAIL = ''Socks5 general socks server failure''"
| "g_errStatusMap CONNECTION_NOT_ALLOWED = ''Socks5 connection not allowed by ruleset''"
| "g_errStatusMap NETWORK_UNREACHABLE = ''Socks5 network unreachable''"
| "g_errStatusMap HOST_UNREACHABLE = ''Socks5 host unreachable''"
| "g_errStatusMap CONNECTION_REFUSED_BY_HOST = ''Socks5 connection refused by host''"
| "g_errStatusMap TTL_EXPIRED = ''Socks5 ttl expired''"
| "g_errStatusMap COMMAND_NOT_SUPPORTED = ''Socks5 command not supported''"
| "g_errStatusMap ADDRESS_TYPE_NOT_SUPPORTED = ''Socks5 address type not supported''"
| "g_errStatusMap SOCKS5_NOT_ACTIVE = ''Socks5 is not active''"
| "g_errStatusMap SOCKS5_METHOD_ERROR = ''Socks5 method request error''"
| "g_errStatusMap SOCKS5_MAKE_SOCKET_ERROR = ''Socks5 make tcp socket error''"
| "g_errStatusMap SOCKS5_FAIL_TO_SEND_MSG = ''Socks5 failed to send the message''"
| "g_errStatusMap SOCKS5_FAIL_TO_RECV_MSG = ''Socks5 failed to receive the message''"
| "g_errStatusMap SOCKS5_SERIALIZE_ERROR = ''Socks5 serialization error''"
| "g_errStatusMap SOCKS5_DESERIALIZE_ERROR = ''Socks5 deserialization error''"
| "g_errStatusMap SOCKS5_OTHER_ERROR = ''Socks5 proxy error occured''"
| "g_errStatusMap SOCKS5_FAIL_TO_CONNECT_PROXY = ''Socks5 failed to connect to the proxy server''"
| "g_errStatusMap SOCKS5_USER_PASS_INVALID = ''Socks5 username or password is invalid''"
| "g_errStatusMap SOCKS5_FAIL_TO_CONNECT_REMOTE = ''Socks5 failed to connect to the remote server''"
| "g_errStatusMap SOCKS5_METHOD_NEGO_ERROR = ''Socks5 failed to negotiate the authentication method''"
| "g_errStatusMap OTHER_STATUS = ''Socks5 unassigned status''"

definition SOCKS5_INVALID_SOCKET_FD :: int where "SOCKS5_INVALID_SOCKET_FD = -1"
definition SOCKS5_DO_CONNECT_COUNT_MAX :: int where "SOCKS5_DO_CONNECT_COUNT_MAX = 3"

definition SOCKS5_METHODS :: "Socks5MethodType list" where
  "SOCKS5_METHODS = [NO_AUTH, PASSWORD]"

record Socks5Option =
  op_proxyAddress :: SocketNetAddress
  op_username :: "byte list"
  op_password :: "byte list"

datatype Socks5Method = Socks5NoneMethod | Socks5PasswdMethod

datatype instance_kind = Socks5TcpInstance | Socks5UdpInstance | Socks5TlsInstance

text \<open>\<open>si_self\<close>: the pointer \<open>socks5Instance_\<close> has been set, to the instance itself, as every caller does.\<close>

record Socks5Instance =
  si_kind :: instance_kind
  si_socketId :: int
  si_dest :: SocketNetAddress
  si_options :: "Socks5Option option"
  si_method :: "Socks5Method option"
  si_state :: Socks5AuthState
  si_proxyBindAddr :: SocketNetAddress
  si_doConnectCount :: int
  si_errorCode :: int
  si_errorMessage :: string
  si_self :: bool
  si_header :: "byte list"

text \<open>One \<open>recvfrom\<close>: the bytes waiting (none if the peer has closed the connection), or a failure.\<close>

datatype recv_out = Received "byte list" | Recv_error errno

record sock_world =
  sw_errno :: errno
  sw_opts :: sock_opts
  sw_socket :: "errno + int"
  sw_fcntl :: "fcntl_out list"
  sw_keepalive :: "errno option"
  sw_connect :: "errno option \<times> poll_out list"
  sw_sends :: "(poll_out \<times> send_out) list list"
  sw_recvs :: "(poll_out \<times> recv_out) list list"
  sw_sent :: "byte list list"
  sw_received :: "byte list list"
  sw_closed :: "int list"

type_synonym 'a socks_run = "('a \<times> Socks5Instance \<times> sock_world) option"

section \<open>Small operations\<close>

definition UpdateErrorInfo :: "Socks5Status \<Rightarrow> Socks5Instance \<Rightarrow> Socks5Instance" where
  "UpdateErrorInfo status s = s\<lparr>si_errorCode := status_code status, si_errorMessage := g_errStatusMap status\<rparr>"

definition UpdateErrorInfo_code :: "int \<Rightarrow> string \<Rightarrow> Socks5Instance \<Rightarrow> Socks5Instance" where
  "UpdateErrorInfo_code errCode errMessage s = s\<lparr>si_errorCode := errCode, si_errorMessage := errMessage\<rparr>"

text \<open>\<open>socks5Inst->UpdateErrorInfo(status)\<close>, then \<open>return\<close>.\<close>

definition fail_via :: "Socks5Status \<Rightarrow> 'a \<Rightarrow> Socks5Instance \<Rightarrow> sock_world \<Rightarrow> 'a socks_run" where
  "fail_via status result s w = (if si_self s then Some (result, UpdateErrorInfo status s, w) else None)"

definition SetSocks5Option :: "Socks5Option option \<Rightarrow> Socks5Instance \<Rightarrow> Socks5Instance" where
  "SetSocks5Option opt s = s\<lparr>si_options := opt\<rparr>"

definition SetDestAddress :: "SocketNetAddress \<Rightarrow> Socks5Instance \<Rightarrow> Socks5Instance" where
  "SetDestAddress dest s = s\<lparr>si_dest := dest\<rparr>"

definition IsConnected :: "Socks5Instance \<Rightarrow> bool" where
  "IsConnected s \<longleftrightarrow> si_state s = AUTH_SUCCESS"

definition OnProxySocketError :: "Socks5Instance \<Rightarrow> Socks5Instance" where
  "OnProxySocketError s = s\<lparr>si_state := AUTH_FAIL\<rparr>"

definition SetSocks5Instance :: "Socks5Instance \<Rightarrow> Socks5Instance" where
  "SetSocks5Instance s = s\<lparr>si_self := True\<rparr>"

definition CloseSocket :: "Socks5Instance \<Rightarrow> sock_world \<Rightarrow> Socks5Instance \<times> sock_world" where
  "CloseSocket s w =
     (if si_socketId s \<noteq> SOCKS5_INVALID_SOCKET_FD
      then (s\<lparr>si_socketId := SOCKS5_INVALID_SOCKET_FD\<rparr>, w\<lparr>sw_closed := sw_closed w @ [si_socketId s]\<rparr>)
      else (s, w))"

section \<open>One question and its answer\<close>

definition Send :: "byte list \<Rightarrow> sock_world \<Rightarrow> (bool \<times> sock_world) option" where
  "Send data w =
     (case sw_sends w of
        [] \<Rightarrow> None
      | outs # rest \<Rightarrow>
          do {
            (ok, err, pieces) \<leftarrow> PollSendData (sw_opts w) outs (sw_errno w) data;
            Some (ok, w\<lparr>sw_errno := err, sw_sends := rest, sw_sent := sw_sent w @ [concat pieces]\<rparr>)
          })"

text \<open>
  The loop of \<open>Recv\<close>: a time-out of \<open>poll\<close> is not an end. If \<open>recvfrom\<close> returns 0, \<open>errno\<close> is read although
  the call has not failed.
\<close>

fun recv_loop :: "nat \<Rightarrow> (poll_out \<times> recv_out) list \<Rightarrow> errno \<Rightarrow> (byte list option \<times> errno) option" where
  "recv_loop bufferSize [] err = None"
| "recv_loop bufferSize ((Poll_error e _, _) # outs) err =
     (if e = EINTR then recv_loop bufferSize outs e else Some (None, e))"
| "recv_loop bufferSize ((Poll_timeout, _) # outs) err = recv_loop bufferSize outs err"
| "recv_loop bufferSize ((Poll_ready _, Received msg) # outs) err =
     (if msg \<noteq> [] then Some (Some (take bufferSize msg), err)
      else if err = EAGAIN \<or> err = EINTR then recv_loop bufferSize outs err
      else Some (None, err))"
| "recv_loop bufferSize ((Poll_ready _, Recv_error e) # outs) err =
     (if e = EAGAIN \<or> e = EINTR then recv_loop bufferSize outs e else Some (None, e))"

definition Recv :: "sock_world \<Rightarrow> (byte list option \<times> sock_world) option" where
  "Recv w =
     (case sw_recvs w of
        [] \<Rightarrow> None
      | outs # rest \<Rightarrow>
          do {
            let err0 = errno_after (so_rcvtimeo (sw_opts w)) (errno_after (so_rcvbuf (sw_opts w)) (sw_errno w));
            (msg, err) \<leftarrow> recv_loop (nat (ConfirmBufferSize (sw_opts w))) outs err0;
            Some (msg, w\<lparr>sw_errno := err, sw_recvs := rest,
                         sw_received := sw_received w @ (case msg of None \<Rightarrow> [] | Some m \<Rightarrow> [m])\<rparr>)
          })"

text \<open>\<open>serialized\<close> is the result of \<open>req->Serialize()\<close>; \<open>rsp\<close> is the response object before the call.\<close>

definition RequestProxyServer ::
  "byte list option \<Rightarrow> 'r \<Rightarrow> (byte list \<Rightarrow> (bool \<times> 'r) option) \<Rightarrow> Socks5Instance \<Rightarrow> sock_world \<Rightarrow> (bool \<times> 'r) socks_run" where
  "RequestProxyServer serialized rsp deserialize s w =
     do {
       msg \<leftarrow> serialized;
       if length msg = 0 then fail_via SOCKS5_SERIALIZE_ERROR (False, rsp) s w
       else do {
         (ok, w1) \<leftarrow> Send msg w;
         if \<not> ok then fail_via SOCKS5_FAIL_TO_SEND_MSG (False, rsp) s w1
         else do {
           (result, w2) \<leftarrow> Recv w1;
           case result of
             None \<Rightarrow> fail_via SOCKS5_FAIL_TO_RECV_MSG (False, rsp) s w2
           | Some answer \<Rightarrow> do {
               (ok2, rsp2) \<leftarrow> deserialize answer;
               if \<not> ok2 then fail_via SOCKS5_DESERIALIZE_ERROR (False, rsp2) s w2
               else Some ((True, rsp2), s, w2)
             }
         }
       }
     }"

section \<open>The methods\<close>

definition RequestAuth_None :: "Socks5Instance \<Rightarrow> sock_world \<Rightarrow> bool socks_run" where
  "RequestAuth_None s w = Some (True, s, w)"

definition RequestAuth_Passwd :: "bool \<Rightarrow> byte list \<Rightarrow> byte list \<Rightarrow> Socks5Instance \<Rightarrow> sock_world \<Rightarrow> bool socks_run" where
  "RequestAuth_Passwd zero_ok username password s w =
     (if length username = 0 \<or> length password = 0 then fail_via SOCKS5_USER_PASS_INVALID False s w
      else do {
        let request = \<lparr>aq_version = SOCKS5_SUBVERSION, aq_username = SecureData_assign [] username,
                       aq_password = SecureData_assign [] password\<rparr>;
        ((ok, response), s1, w1) \<leftarrow>
          RequestProxyServer (Socks5AuthRequest_Serialize zero_ok request) \<lparr>ar_version = 0, ar_status = 0\<rparr>
            (Socks5AuthResponse_Deserialize \<lparr>ar_version = 0, ar_status = 0\<rparr>) s w;
        if \<not> ok then Some (False, s1, w1)
        else if ar_status response \<noteq> 0 then fail_via SOCKS5_USER_PASS_INVALID False s1 w1
        else Some (True, s1, w1)
      })"

definition RequestAuth :: "bool \<Rightarrow> Socks5Method \<Rightarrow> byte list \<Rightarrow> byte list \<Rightarrow> Socks5Instance \<Rightarrow> sock_world \<Rightarrow> bool socks_run" where
  "RequestAuth zero_ok m username password s w =
     (case m of
        Socks5NoneMethod \<Rightarrow> RequestAuth_None s w
      | Socks5PasswdMethod \<Rightarrow> RequestAuth_Passwd zero_ok username password s w)"

fun family_atyp :: "Family \<Rightarrow> Socks5AddrType" where
  "family_atyp IPv4 = ATYP_IPV4"
| "family_atyp IPv6 = ATYP_IPV6"
| "family_atyp DOMAIN_NAME = ATYP_DOMAIN_NAME"

definition proxy_request :: "Socks5Command \<Rightarrow> SocketNetAddress \<Rightarrow> Socks5ProxyRequest" where
  "proxy_request command destAddr =
     \<lparr>pq_version = SOCKS5_VERSION, pq_cmd = command, pq_reserved = 0, pq_addrType = family_atyp (ad_family destAddr),
      pq_destAddr = ad_address destAddr, pq_destPort = ad_port destAddr\<rparr>"

definition RequestProxy ::
  "net_env \<Rightarrow> bool \<Rightarrow> Socks5Command \<Rightarrow> SocketNetAddress \<Rightarrow> Socks5Instance \<Rightarrow> sock_world \<Rightarrow> (bool \<times> Socks5ProxyResponse) socks_run" where
  "RequestProxy env zero_ok command destAddr s w =
     do {
       ((ok, response), s1, w1) \<leftarrow>
         RequestProxyServer (Socks5ProxyRequest_Serialize env zero_ok (proxy_request command destAddr)) new_ProxyResponse
           (Socks5ProxyResponse_Deserialize env new_ProxyResponse) s w;
       if \<not> ok then Some ((False, response), s1, w1)
       else if pr_status response \<noteq> 0 then fail_via SOCKS5_FAIL_TO_CONNECT_REMOTE (False, response) s1 w1
       else Some ((True, response), s1, w1)
     }"

section \<open>Connecting\<close>

definition CreateSocks5MethodByType :: "Socks5MethodType \<Rightarrow> Socks5Method option" where
  "CreateSocks5MethodByType t =
     (if t = NO_AUTH then Some Socks5NoneMethod
      else if t = PASSWORD then Some Socks5PasswdMethod
      else None)"

definition RequestMethod :: "Socks5MethodType list \<Rightarrow> Socks5Instance \<Rightarrow> sock_world \<Rightarrow> bool socks_run" where
  "RequestMethod methods s w =
     do {
       options \<leftarrow> si_options s;
       ((ok, response), s1, w1) \<leftarrow>
         RequestProxyServer (Socks5MethodRequest_Serialize \<lparr>mq_version = SOCKS5_VERSION, mq_methods = methods\<rparr>)
           \<lparr>mr_version = 0, mr_method = 0\<rparr> (Socks5MethodResponse_Deserialize \<lparr>mr_version = 0, mr_method = 0\<rparr>) s w;
       if \<not> ok then Some (False, s1, w1)
       else Some (True, s1\<lparr>si_method := CreateSocks5MethodByType (method_of (mr_method response))\<rparr>, w1)
     }"

text \<open>The address the proxy has bound, as \<open>DoConnect\<close> stores it: the family is set after the address.\<close>

definition store_bind_address :: "net_env \<Rightarrow> Socks5ProxyResponse \<Rightarrow> SocketNetAddress \<Rightarrow> SocketNetAddress" where
  "store_bind_address env response a =
     (let a1 = SetPort (SetAddress_dns env a (pr_destAddr response) False) (pr_destPort response)
      in case pr_addrType response of
           ATYP_IPV4 \<Rightarrow> SetFamilyByJsValue a1 (family_number IPv4)
         | ATYP_IPV6 \<Rightarrow> SetFamilyByJsValue a1 (family_number IPv6)
         | ATYP_DOMAIN_NAME \<Rightarrow> SetFamilyByJsValue a1 (family_number DOMAIN_NAME)
         | ATYP_other _ \<Rightarrow> a1)"

definition DoConnect :: "net_env \<Rightarrow> bool \<Rightarrow> Socks5Command \<Rightarrow> Socks5Instance \<Rightarrow> sock_world \<Rightarrow> bool socks_run" where
  "DoConnect env zero_ok command s0 w =
     (let s = s0\<lparr>si_doConnectCount := si_doConnectCount s0 + 1\<rparr>
      in if si_doConnectCount s0 \<ge> SOCKS5_DO_CONNECT_COUNT_MAX then Some (False, s, w)
         else do {
           (ok1, s1, w1) \<leftarrow> RequestMethod SOCKS5_METHODS s w;
           if \<not> ok1 then Some (False, s1, w1)
           else case si_method s1 of
                  None \<Rightarrow> Some (False, UpdateErrorInfo SOCKS5_METHOD_NEGO_ERROR s1, w1)
                | Some m \<Rightarrow> do {
                    options \<leftarrow> si_options s1;
                    (ok2, s2, w2) \<leftarrow> RequestAuth zero_ok m (op_username options) (op_password options) s1 w1;
                    if \<not> ok2 then Some (False, s2, w2)
                    else do {
                      ((ok3, response), s3, w3) \<leftarrow> RequestProxy env zero_ok command (si_dest s2) s2 w2;
                      if \<not> ok3 then Some (False, s3, w3)
                      else Some (True, s3\<lparr>si_proxyBindAddr := store_bind_address env response (si_proxyBindAddr s3),
                                          si_state := AUTH_SUCCESS\<rparr>, w3)
                    }
                  }
         })"

definition ConnectProxy :: "Socks5Instance \<Rightarrow> sock_world \<Rightarrow> bool socks_run" where
  "ConnectProxy s w =
     do {
       options \<leftarrow> si_options s;
       (ok, err) \<leftarrow> NonBlockConnect (sw_opts w) (fst (sw_connect w)) (snd (sw_connect w)) (sw_errno w) 0;
       let w1 = w\<lparr>sw_errno := err\<rparr>;
       if \<not> ok then
         if err = EISCONN then Some (True, s, w1)
         else Some (False, UpdateErrorInfo SOCKS5_FAIL_TO_CONNECT_PROXY s, w1)
       else Some (True, s, w1)
     }"

text \<open>The part the three kinds of instances share, behind their own preparation.\<close>

definition connect_steps :: "net_env \<Rightarrow> bool \<Rightarrow> Socks5Command \<Rightarrow> Socks5Instance \<Rightarrow> sock_world \<Rightarrow> bool socks_run" where
  "connect_steps env zero_ok command s w =
     do {
       (ok1, s1, w1) \<leftarrow> ConnectProxy s w;
       if \<not> ok1 then Some (False, CloseSocket s1 w1)
       else do {
         (ok2, s2, w2) \<leftarrow> DoConnect env zero_ok command s1 w1;
         if \<not> ok2 then Some (False, CloseSocket s2 w2)
         else Some (True, s2, w2)
       }
     }"

definition Socks5TcpInstance_Connect :: "net_env \<Rightarrow> bool \<Rightarrow> Socks5Instance \<Rightarrow> sock_world \<Rightarrow> bool socks_run" where
  "Socks5TcpInstance_Connect env zero_ok s0 w =
     (let s = UpdateErrorInfo_code 0 [] s0
      in if si_state s = AUTH_SUCCESS then Some (True, s, w)
         else connect_steps env zero_ok TCP_CONNECTION s w)"

definition Socks5TlsInstance_Connect :: "net_env \<Rightarrow> bool \<Rightarrow> Socks5Instance \<Rightarrow> sock_world \<Rightarrow> bool socks_run" where
  "Socks5TlsInstance_Connect env zero_ok s0 w =
     (let s = UpdateErrorInfo_code 0 [] s0
      in if si_state s = AUTH_SUCCESS then Some (True, s, w)
         else do {
           (_, err) \<leftarrow> MakeNonBlock (sw_fcntl w) (sw_errno w);
           connect_steps env zero_ok TCP_CONNECTION s (w\<lparr>sw_errno := err\<rparr>)
         })"

definition CreateSocket :: "Socks5Instance \<Rightarrow> sock_world \<Rightarrow> bool socks_run" where
  "CreateSocket s w =
     do {
       options \<leftarrow> si_options s;
       (fd, closed, err) \<leftarrow> MakeTcpSocket (sw_socket w) (sw_fcntl w) (sw_errno w) (GetSaFamily (op_proxyAddress options)) True;
       let s1 = s\<lparr>si_socketId := fd\<rparr>;
       let w1 = w\<lparr>sw_errno := err, sw_closed := sw_closed w @ closed\<rparr>;
       if fd = SOCKS5_INVALID_SOCKET_FD then Some (False, UpdateErrorInfo SOCKS5_MAKE_SOCKET_ERROR s1, w1)
       else case sw_keepalive w of
              Some e \<Rightarrow> Some (False, CloseSocket s1 (w1\<lparr>sw_errno := e\<rparr>))
            | None \<Rightarrow> Some (True, s1, w1)
     }"

definition Socks5UdpInstance_Connect :: "net_env \<Rightarrow> bool \<Rightarrow> Socks5Instance \<Rightarrow> sock_world \<Rightarrow> bool socks_run" where
  "Socks5UdpInstance_Connect env zero_ok s0 w =
     (let s = UpdateErrorInfo_code 0 [] s0
      in if si_state s = AUTH_SUCCESS then Some (True, s, w)
         else do {
           (ok, s1, w1) \<leftarrow> CreateSocket s w;
           if \<not> ok then Some (False, s1, w1)
           else connect_steps env zero_ok UDP_ASSOCIATE s1 w1
         })"

definition Connect :: "net_env \<Rightarrow> bool \<Rightarrow> Socks5Instance \<Rightarrow> sock_world \<Rightarrow> bool socks_run" where
  "Connect env zero_ok s w =
     (case si_kind s of
        Socks5TcpInstance \<Rightarrow> Socks5TcpInstance_Connect env zero_ok s w
      | Socks5UdpInstance \<Rightarrow> Socks5UdpInstance_Connect env zero_ok s w
      | Socks5TlsInstance \<Rightarrow> Socks5TlsInstance_Connect env zero_ok s w)"

section \<open>Headers of datagrams\<close>

definition new_UdpHeader :: Socks5UdpHeader where
  "new_UdpHeader = \<lparr>uh_reserved = 0, uh_frag = 0, uh_addrType = ATYP_other 0, uh_destAddr = [], uh_dstPort = 0\<rparr>"

text \<open>The new \<open>len\<close> bytes at \<open>data\<close>.\<close>

definition Socks5UdpInstance_RemoveHeader :: "net_env \<Rightarrow> bool \<Rightarrow> byte list option \<Rightarrow> (bool \<times> byte list option) option" where
  "Socks5UdpInstance_RemoveHeader env zero_ok data =
     (case data of
        None \<Rightarrow> Some (False, data)
      | Some bs \<Rightarrow> do {
          (ok, header) \<leftarrow> Socks5UdpHeader_Deserialize env new_UdpHeader bs;
          if \<not> ok then Some (False, data)
          else case (case uh_addrType header of
                       ATYP_IPV4 \<Rightarrow> Some (4 + IPV4_LEN + 2)
                     | ATYP_IPV6 \<Rightarrow> Some (4 + IPV6_LEN + 2)
                     | ATYP_DOMAIN_NAME \<Rightarrow> Some (4 + 1 + length (uh_destAddr header) + 2)
                     | ATYP_other _ \<Rightarrow> None) of
                 None \<Rightarrow> Some (False, data)
               | Some headerLen \<Rightarrow>
                   if length bs < headerLen then Some (False, data)
                   else if length bs - headerLen = 0 \<and> \<not> zero_ok then Some (False, Some [])
                   else Some (True, Some (drop headerLen bs))
        })"

definition RemoveHeader :: "net_env \<Rightarrow> bool \<Rightarrow> Socks5Instance \<Rightarrow> byte list option \<Rightarrow> (bool \<times> byte list option) option" where
  "RemoveHeader env zero_ok s data =
     (if si_kind s = Socks5UdpInstance then Socks5UdpInstance_RemoveHeader env zero_ok data else Some (True, data))"

definition Socks5_SetHeader :: "byte list \<Rightarrow> Socks5Instance \<Rightarrow> Socks5Instance" where
  "Socks5_SetHeader header s = (if si_kind s = Socks5UdpInstance then s\<lparr>si_header := header\<rparr> else s)"

definition GetHeader :: "Socks5Instance \<Rightarrow> byte list" where
  "GetHeader s = (if si_kind s = Socks5UdpInstance then si_header s else [])"

definition AddHeader :: "net_env \<Rightarrow> bool \<Rightarrow> Socks5Instance \<Rightarrow> Socks5Instance option" where
  "AddHeader env zero_ok s =
     (if si_kind s = Socks5UdpInstance then
        do {
          header \<leftarrow> Socks5UdpHeader_Serialize env zero_ok
            (new_UdpHeader\<lparr>uh_addrType := family_atyp (ad_family (si_dest s)), uh_destAddr := ad_address (si_dest s),
                           uh_dstPort := ad_port (si_dest s)\<rparr>);
          Some (Socks5_SetHeader header s)
        }
      else Some s)"

definition Close :: "Socks5Instance \<Rightarrow> sock_world \<Rightarrow> Socks5Instance \<times> sock_world" where
  "Close s w = (if si_kind s = Socks5UdpInstance then CloseSocket s w else (s, w))"

end
