(* ===== verification/Socks5_Correct.thy ===== *)
theory Socks5_Correct
  imports Socks5_Instance
begin

text \<open>
  Correctness of the connection through a SOCKS5 proxy: what a successful attempt has said and heard, what
  a failed one leaves behind, when an attempt ends, and the headers of datagrams.
\<close>

section \<open>One question and its answer\<close>

lemma PollSendData_True: "PollSendData os outs err data = Some (True, err', pieces) \<Longrightarrow> concat pieces = data"
  by (auto simp: PollSendData_def split: prod.splits option.splits if_splits dest!: send_loop_sent)

lemma Send_world:
  assumes "Send msg w = Some (ok, w')"
  shows "sw_closed w' = sw_closed w \<and> sw_received w' = sw_received w \<and> (ok \<longrightarrow> sw_sent w' = sw_sent w @ [msg])"
  using assms by (auto simp: Send_def bind_eq_Some_conv split: list.splits dest: PollSendData_True)

lemma Recv_world:
  assumes "Recv w = Some (r, w')"
  shows "sw_closed w' = sw_closed w \<and> sw_sent w' = sw_sent w \<and> (\<forall>m. r = Some m \<longrightarrow> sw_received w' = sw_received w @ [m])"
  using assms by (auto simp: Recv_def bind_eq_Some_conv split: list.splits)

lemma fail_via_Some [simp]:
  "fail_via st x s w = Some (y, s', w') \<longleftrightarrow> si_self s \<and> y = x \<and> s' = UpdateErrorInfo st s \<and> w' = w"
  by (auto simp: fail_via_def)

text \<open>A failure changes nothing of the instance but the error, which is one.\<close>

definition failed_from :: "Socks5Instance \<Rightarrow> Socks5Instance \<Rightarrow> bool" where
  "failed_from s s' \<longleftrightarrow> (\<exists>st. s' = UpdateErrorInfo st s \<and> status_code st \<noteq> 0)"

lemma failed_from_error:
  "status_code st \<noteq> 0 \<Longrightarrow> failed_from s (UpdateErrorInfo st s)"
  by (auto simp: failed_from_def)

lemma failed_from_keeps:
  assumes "failed_from s s'"
  shows "si_errorCode s' \<noteq> 0 \<and> si_socketId s' = si_socketId s \<and> si_state s' = si_state s \<and> si_kind s' = si_kind s"
  using assms by (auto simp: failed_from_def UpdateErrorInfo_def)

lemma RequestProxyServer_cases:
  assumes "RequestProxyServer ser rsp d s w = Some ((ok, r), s', w')"
  shows "sw_closed w' = sw_closed w \<and>
    (if ok then s' = s \<and> (\<exists>msg ans. ser = Some msg \<and> msg \<noteq> [] \<and> d ans = Some (True, r) \<and>
                            sw_sent w' = sw_sent w @ [msg] \<and> sw_received w' = sw_received w @ [ans])
     else failed_from s s')"
proof -
  obtain msg where msg: "ser = Some msg"
    using assms by (auto simp: RequestProxyServer_def bind_eq_Some_conv)
  show ?thesis
  proof (cases "msg = []")
    case True
    then show ?thesis
      using assms msg by (auto simp: RequestProxyServer_def failed_from_error)
  next
    case False
    then obtain ok1 w1 where w1: "Send msg w = Some (ok1, w1)"
      using assms msg by (auto simp: RequestProxyServer_def bind_eq_Some_conv)
    show ?thesis
    proof (cases ok1)
      case sent: True
      then obtain a w2 where w2: "Recv w1 = Some (a, w2)"
        using assms msg w1 False by (auto simp: RequestProxyServer_def bind_eq_Some_conv)
      show ?thesis
        using assms msg w1 w2 False sent Send_world [OF w1] Recv_world [OF w2]
        by (cases a) (auto simp: RequestProxyServer_def bind_eq_Some_conv failed_from_error split: if_splits)
    qed (use assms msg w1 False Send_world [OF w1] in \<open>auto simp: RequestProxyServer_def failed_from_error\<close>)
  qed
qed

section \<open>The three steps of a negotiation\<close>

lemma methods_bytes: "Socks5MethodRequest_Serialize \<lparr>mq_version = SOCKS5_VERSION, mq_methods = SOCKS5_METHODS\<rparr> = Some [5, 2, 0, 2]"
  by (simp add: MethodRequest_bytes SOCKS5_METHODS_def SOCKS5_VERSION_def)

lemma RequestMethod_cases:
  assumes "RequestMethod SOCKS5_METHODS s w = Some (ok, s', w')"
  shows "si_options s \<noteq> None \<and> sw_closed w' = sw_closed w \<and>
    (if ok then \<exists>choice. 2 \<le> length choice \<and> choice ! 0 = 5 \<and>
                 s' = s\<lparr>si_method := CreateSocks5MethodByType (method_of (choice ! 1))\<rparr> \<and>
                 sw_sent w' = sw_sent w @ [[5, 2, 0, 2]] \<and> sw_received w' = sw_received w @ [choice]
     else failed_from s s')"
proof -
  obtain ok1 r s1 where r: "RequestProxyServer (Some [5, 2, 0, 2]) \<lparr>mr_version = 0, mr_method = 0\<rparr>
        (Socks5MethodResponse_Deserialize \<lparr>mr_version = 0, mr_method = 0\<rparr>) s w = Some ((ok1, r), s1, w')"
      "si_options s \<noteq> None" "ok = ok1"
      "s' = (if ok1 then s1\<lparr>si_method := CreateSocks5MethodByType (method_of (mr_method r))\<rparr> else s1)"
    using assms by (auto simp: RequestMethod_def bind_eq_Some_conv methods_bytes split: if_splits)
  then show ?thesis
    using RequestProxyServer_cases [OF r(1)]
    by (auto simp: Socks5MethodResponse_Deserialize_def byte_at_def SOCKS5_VERSION_def split: if_splits)
qed

definition auth_bytes :: "byte list \<Rightarrow> byte list \<Rightarrow> byte list" where
  "auth_bytes user pass = [1, word_of_nat (length user)] @ user @ word_of_nat (length pass) # pass"

lemma RequestAuth_Passwd_cases:
  assumes "RequestAuth_Passwd z user pass s w = Some (ok, s', w')"
  shows "sw_closed w' = sw_closed w \<and>
    (if ok then s' = s \<and> user \<noteq> [] \<and> pass \<noteq> [] \<and> length user \<le> 255 \<and> length pass \<le> 255 \<and>
                (\<exists>auth. 2 \<le> length auth \<and> auth ! 0 = 1 \<and> auth ! 1 = 0 \<and>
                  sw_sent w' = sw_sent w @ [auth_bytes user pass] \<and> sw_received w' = sw_received w @ [auth])
     else failed_from s s')"
proof (cases "user = [] \<or> pass = []")
  case True
  then show ?thesis
    using assms by (auto simp: RequestAuth_Passwd_def failed_from_error)
next
  case False
  let ?r0 = "\<lparr>ar_version = 0, ar_status = 0\<rparr>"
  let ?m = "if length user > 255 \<or> length pass > 255 then [] else auth_bytes user pass"
  have ser: "Socks5AuthRequest_Serialize z \<lparr>aq_version = SOCKS5_SUBVERSION, aq_username = SecureData_assign [] user,
      aq_password = SecureData_assign [] pass\<rparr> = Some ?m"
    using False by (subst AuthRequest_bytes) (auto simp: SecureData_assign_def auth_bytes_def SOCKS5_SUBVERSION_def)
  obtain ok1 r s1 w1 where r: "RequestProxyServer (Some ?m) ?r0 (Socks5AuthResponse_Deserialize ?r0) s w = Some ((ok1, r), s1, w1)"
    using assms False unfolding RequestAuth_Passwd_def Let_def ser by (auto simp: bind_eq_Some_conv)
  have "w' = w1" "ok = (ok1 \<and> ar_status r = 0)"
    "s' = (if ok1 \<and> ar_status r \<noteq> 0 then UpdateErrorInfo SOCKS5_USER_PASS_INVALID s1 else s1)"
    using assms False r unfolding RequestAuth_Passwd_def Let_def ser by (auto split: if_splits)
  then show ?thesis
    using False RequestProxyServer_cases [OF r]
    by (auto simp: Socks5AuthResponse_Deserialize_def byte_at_def SOCKS5_SUBVERSION_def failed_from_error split: if_splits)
qed

lemma atyp_known_family [simp]: "atyp_known (family_atyp f)"
  by (cases f) auto

definition request_bytes :: "net_env \<Rightarrow> Socks5Command \<Rightarrow> SocketNetAddress \<Rightarrow> byte list option" where
  "request_bytes env command dest =
     map_option (\<lambda>bs. [5, command_byte command, 0, atyp_byte (family_atyp (ad_family dest))] @ bs @ port_bytes (ad_port dest))
       (address_bytes env (family_atyp (ad_family dest)) (ad_address dest))"

lemma proxy_request_bytes:
  "pton_laws env \<Longrightarrow> Socks5ProxyRequest_Serialize env z (proxy_request command dest) =
     Some (case request_bytes env command dest of None \<Rightarrow> [] | Some m \<Rightarrow> m)"
  by (subst ProxyRequest_bytes) (auto simp: proxy_request_def request_bytes_def SOCKS5_VERSION_def split: option.split)

lemma ProxyResponse_status:
  assumes "Socks5ProxyResponse_Deserialize env r0 data = Some (True, r)"
  shows "address_fits data \<and> data ! 0 = 5 \<and> pr_status r = data ! 1"
  using assms ProxyResponse_total [of env r0 data]
  by (auto simp: Socks5ProxyResponse_Deserialize_def byte_at_def bind_eq_Some_conv SOCKS5_VERSION_def split: if_splits)

lemma RequestProxy_cases:
  assumes "pton_laws env" and "RequestProxy env z command dest s w = Some ((ok, r), s', w')"
  shows "sw_closed w' = sw_closed w \<and>
    (if ok then s' = s \<and> (\<exists>request reply. request_bytes env command dest = Some request \<and>
                  address_fits reply \<and> reply ! 0 = 5 \<and> reply ! 1 = 0 \<and>
                  sw_sent w' = sw_sent w @ [request] \<and> sw_received w' = sw_received w @ [reply])
     else failed_from s s')"
proof -
  let ?m = "case request_bytes env command dest of None \<Rightarrow> [] | Some m \<Rightarrow> m"
  obtain ok1 r1 s1 w1 where r: "RequestProxyServer (Some ?m) new_ProxyResponse (Socks5ProxyResponse_Deserialize env new_ProxyResponse) s w =
        Some ((ok1, r1), s1, w1)"
    using assms(2) unfolding RequestProxy_def proxy_request_bytes [OF assms(1)] by (auto simp: bind_eq_Some_conv)
  have "w' = w1" "r = r1" "ok = (ok1 \<and> pr_status r = 0)"
    "s' = (if ok1 \<and> pr_status r \<noteq> 0 then UpdateErrorInfo SOCKS5_FAIL_TO_CONNECT_REMOTE s1 else s1)"
    using assms(2) r unfolding RequestProxy_def proxy_request_bytes [OF assms(1)] by (auto split: if_splits)
  then show ?thesis
    using RequestProxyServer_cases [OF r]
    by (auto simp: failed_from_error dest!: ProxyResponse_status split: if_splits option.splits)
qed

section \<open>Negotiation\<close>

text \<open>What is said and heard in a successful negotiation, as RFC 1928 and RFC 1929 prescribe it.\<close>

definition socks5_dialogue ::
  "net_env \<Rightarrow> Socks5Command \<Rightarrow> SocketNetAddress \<Rightarrow> Socks5Option \<Rightarrow> byte list list \<Rightarrow> byte list list \<Rightarrow> bool" where
  "socks5_dialogue env command dest options sent received \<longleftrightarrow>
     (\<exists>choice request reply. 2 \<le> length choice \<and> choice ! 0 = 5 \<and>
        request_bytes env command dest = Some request \<and> address_fits reply \<and> reply ! 0 = 5 \<and> reply ! 1 = 0 \<and>
        (choice ! 1 = 0 \<and> sent = [[5, 2, 0, 2], request] \<and> received = [choice, reply] \<or>
         choice ! 1 = 2 \<and> op_username options \<noteq> [] \<and> op_password options \<noteq> [] \<and>
         length (op_username options) \<le> 255 \<and> length (op_password options) \<le> 255 \<and>
         (\<exists>auth. 2 \<le> length auth \<and> auth ! 0 = 1 \<and> auth ! 1 = 0 \<and>
            sent = [[5, 2, 0, 2], auth_bytes (op_username options) (op_password options), request] \<and>
            received = [choice, auth, reply])))"

lemma method_choice:
  "CreateSocks5MethodByType (method_of b) = (if b = 0 then Some Socks5NoneMethod else if b = 2 then Some Socks5PasswdMethod else None)"
  by (auto simp: CreateSocks5MethodByType_def method_of_def)

lemma RequestAuth_cases:
  assumes "RequestAuth z m user pass s w = Some (ok, s', w')"
  shows "sw_closed w' = sw_closed w \<and>
    (if ok then s' = s \<and>
       (m = Socks5NoneMethod \<and> sw_sent w' = sw_sent w \<and> sw_received w' = sw_received w \<or>
        m = Socks5PasswdMethod \<and> user \<noteq> [] \<and> pass \<noteq> [] \<and> length user \<le> 255 \<and> length pass \<le> 255 \<and>
        (\<exists>auth. 2 \<le> length auth \<and> auth ! 0 = 1 \<and> auth ! 1 = 0 \<and>
            sw_sent w' = sw_sent w @ [auth_bytes user pass] \<and> sw_received w' = sw_received w @ [auth]))
     else failed_from s s')"
  using assms by (cases m) (auto simp: RequestAuth_def RequestAuth_None_def dest!: RequestAuth_Passwd_cases split: if_splits)

text \<open>What a call of \<open>DoConnect\<close> keeps of the instance.\<close>

definition same_socket :: "Socks5Instance \<Rightarrow> Socks5Instance \<Rightarrow> bool" where
  "same_socket s s' \<longleftrightarrow> si_socketId s' = si_socketId s \<and> si_kind s' = si_kind s"

lemma DoConnect_True:
  assumes laws: "pton_laws env" and run: "DoConnect env z command s w = Some (True, s', w')"
  shows "sw_closed w' = sw_closed w \<and> same_socket s s' \<and> si_state s' = AUTH_SUCCESS \<and> si_errorCode s' = si_errorCode s \<and>
     (\<exists>options sent received. si_options s = Some options \<and> socks5_dialogue env command (si_dest s) options sent received \<and>
        sw_sent w' = sw_sent w @ sent \<and> sw_received w' = sw_received w @ received)"
proof -
  let ?s = "s\<lparr>si_doConnectCount := si_doConnectCount s + 1\<rparr>"
  obtain s1 w1 m options s2 w2 r s3 where
      1: "RequestMethod SOCKS5_METHODS ?s w = Some (True, s1, w1)" "si_method s1 = Some m" "si_options s1 = Some options"
    and 2: "RequestAuth z m (op_username options) (op_password options) s1 w1 = Some (True, s2, w2)"
    and 3: "RequestProxy env z command (si_dest s2) s2 w2 = Some ((True, r), s3, w')"
    and s': "s' = s3\<lparr>si_proxyBindAddr := store_bind_address env r (si_proxyBindAddr s3), si_state := AUTH_SUCCESS\<rparr>"
    using run by (auto simp: DoConnect_def bind_eq_Some_conv split: if_splits option.splits)
  obtain choice where c: "2 \<le> length choice" "choice ! 0 = 5"
      "s1 = ?s\<lparr>si_method := CreateSocks5MethodByType (method_of (choice ! 1))\<rparr>"
      "sw_sent w1 = sw_sent w @ [[5, 2, 0, 2]]" "sw_received w1 = sw_received w @ [choice]" "sw_closed w1 = sw_closed w"
    using RequestMethod_cases [OF 1(1)] by auto
  have m: "choice ! 1 = (if m = Socks5NoneMethod then 0 else 2)"
    using 1(2) c(3) by (auto simp: method_choice split: if_splits)
  note a = RequestAuth_cases [OF 2, simplified]
  note p = RequestProxy_cases [OF laws 3, simplified]
  have opt: "si_options s = Some options" "si_dest s2 = si_dest s"
    using 1(3) c(3) a by auto
  obtain request reply where q: "request_bytes env command (si_dest s) = Some request" "address_fits reply" "reply ! 0 = 5"
      "reply ! 1 = 0" "sw_sent w' = sw_sent w2 @ [request]" "sw_received w' = sw_received w2 @ [reply]"
    using p opt(2) by auto
  have "\<exists>sent received. socks5_dialogue env command (si_dest s) options sent received \<and>
        sw_sent w' = sw_sent w @ sent \<and> sw_received w' = sw_received w @ received"
  proof (cases m)
    case Socks5NoneMethod
    then show ?thesis
      using a m c q
      by (intro exI [of _ "[[5, 2, 0, 2], request]"] exI [of _ "[choice, reply]"]) (auto simp: socks5_dialogue_def)
  next
    case Socks5PasswdMethod
    then obtain auth where "2 \<le> length auth" "auth ! 0 = 1" "auth ! 1 = 0"
        "sw_sent w2 = sw_sent w1 @ [auth_bytes (op_username options) (op_password options)]" "sw_received w2 = sw_received w1 @ [auth]"
      using a by auto
    then show ?thesis
      using a m c q Socks5PasswdMethod
      by (intro exI [of _ "[[5, 2, 0, 2], auth_bytes (op_username options) (op_password options), request]"]
            exI [of _ "[choice, auth, reply]"]) (auto simp: socks5_dialogue_def)
  qed
  then show ?thesis
    using opt a p c s' by (auto simp: same_socket_def)
qed

lemma DoConnect_False:
  assumes laws: "pton_laws env" and run: "DoConnect env z command s w = Some (False, s', w')"
  shows "sw_closed w' = sw_closed w \<and> same_socket s s' \<and> si_state s' = si_state s \<and>
         (si_errorCode s' \<noteq> 0 \<or> SOCKS5_DO_CONNECT_COUNT_MAX \<le> si_doConnectCount s)"
proof (cases "SOCKS5_DO_CONNECT_COUNT_MAX \<le> si_doConnectCount s")
  case True
  then show ?thesis
    using run by (auto simp: DoConnect_def same_socket_def)
next
  case False
  let ?s = "s\<lparr>si_doConnectCount := si_doConnectCount s + 1\<rparr>"
  obtain ok1 s1 w1 where 1: "RequestMethod SOCKS5_METHODS ?s w = Some (ok1, s1, w1)"
    using run False by (auto simp: DoConnect_def bind_eq_Some_conv)
  note m = RequestMethod_cases [OF 1]
  show ?thesis
  proof (cases "ok1 \<and> si_method s1 \<noteq> None")
    case no_method: False
    then show ?thesis
      using run False 1 m
      by (auto simp: DoConnect_def same_socket_def UpdateErrorInfo_def split: if_splits dest!: failed_from_keeps)
  next
    case True
    then obtain meth where meth: "si_method s1 = Some meth" "ok1"
      by auto
    then have s1: "same_socket s s1" "si_state s1 = si_state s" "sw_closed w1 = sw_closed w"
      using m by (auto simp: same_socket_def)
    obtain options ok2 s2 w2 where 2: "si_options s1 = Some options"
        "RequestAuth z meth (op_username options) (op_password options) s1 w1 = Some (ok2, s2, w2)"
      using run False 1 meth by (auto simp: DoConnect_def bind_eq_Some_conv)
    note a = RequestAuth_cases [OF 2(2)]
    show ?thesis
    proof (cases ok2)
      case no_auth: False
      then show ?thesis
        using run False 1 meth 2 a s1 by (auto simp: DoConnect_def same_socket_def dest!: failed_from_keeps)
    next
      case auth: True
      obtain ok3 r s3 w3 where 3: "RequestProxy env z command (si_dest s2) s2 w2 = Some ((ok3, r), s3, w3)"
        using run False 1 meth 2 auth by (auto simp: DoConnect_def bind_eq_Some_conv)
      then show ?thesis
        using run False 1 meth 2 a s1 auth RequestProxy_cases [OF laws 3]
        by (auto simp: DoConnect_def same_socket_def split: if_splits dest!: failed_from_keeps)
    qed
  qed
qed

section \<open>The whole connection\<close>

lemma ConnectProxy_cases:
  assumes "ConnectProxy s w = Some (ok, s', w')"
  shows "sw_closed w' = sw_closed w \<and> sw_sent w' = sw_sent w \<and> sw_received w' = sw_received w \<and> (if ok then s' = s else failed_from s s')"
  using assms by (auto simp: ConnectProxy_def bind_eq_Some_conv failed_from_error split: if_splits)

lemma connect_steps_True:
  assumes laws: "pton_laws env" and run: "connect_steps env z command s w = Some (True, s', w')"
  shows "sw_closed w' = sw_closed w \<and> same_socket s s' \<and> si_state s' = AUTH_SUCCESS \<and> si_errorCode s' = si_errorCode s \<and>
     (\<exists>options sent received. si_options s = Some options \<and> socks5_dialogue env command (si_dest s) options sent received \<and>
        sw_sent w' = sw_sent w @ sent \<and> sw_received w' = sw_received w @ received)"
proof -
  obtain s1 w1 where 1: "ConnectProxy s w = Some (True, s1, w1)" "DoConnect env z command s1 w1 = Some (True, s', w')"
    using run by (auto simp: connect_steps_def bind_eq_Some_conv split: if_splits)
  show ?thesis
    using ConnectProxy_cases [OF 1(1)] DoConnect_True [OF laws 1(2)] by auto
qed

definition close_if_open :: "int \<Rightarrow> int list" where
  "close_if_open fd = (if fd = SOCKS5_INVALID_SOCKET_FD then [] else [fd])"

lemma CloseSocket_cases:
  "CloseSocket s w = (s', w') \<Longrightarrow>
   si_socketId s' = SOCKS5_INVALID_SOCKET_FD \<and> sw_closed w' = sw_closed w @ close_if_open (si_socketId s) \<and>
   si_state s' = si_state s \<and> si_errorCode s' = si_errorCode s"
  by (auto simp: CloseSocket_def close_if_open_def split: if_splits)

lemma connect_steps_False:
  assumes laws: "pton_laws env" and run: "connect_steps env z command s w = Some (False, s', w')"
  shows "si_socketId s' = SOCKS5_INVALID_SOCKET_FD \<and> sw_closed w' = sw_closed w @ close_if_open (si_socketId s) \<and>
         si_state s' = si_state s \<and> (si_errorCode s' \<noteq> 0 \<or> SOCKS5_DO_CONNECT_COUNT_MAX \<le> si_doConnectCount s)"
proof -
  obtain ok1 s1 w1 where 1: "ConnectProxy s w = Some (ok1, s1, w1)"
    using run by (auto simp: connect_steps_def bind_eq_Some_conv)
  note c = ConnectProxy_cases [OF 1]
  show ?thesis
  proof (cases ok1)
    case False
    then show ?thesis
      using run 1 c by (auto simp: connect_steps_def dest!: failed_from_keeps CloseSocket_cases)
  next
    case True
    then obtain s2 w2 where 2: "DoConnect env z command s1 w1 = Some (False, s2, w2)" "CloseSocket s2 w2 = (s', w')"
      using run 1 by (auto simp: connect_steps_def bind_eq_Some_conv split: if_splits)
    show ?thesis
      using True c DoConnect_False [OF laws 2(1)] CloseSocket_cases [OF 2(2)] by (auto simp: same_socket_def)
  qed
qed

lemma CreateSocket_cases:
  assumes "CreateSocket s w = Some (ok, s', w')" and "\<And>fd. sw_socket w = Inr fd \<Longrightarrow> 0 \<le> fd"
  shows "if ok then \<exists>fd. sw_socket w = Inr fd \<and> s' = s\<lparr>si_socketId := fd\<rparr> \<and> sw_closed w' = sw_closed w \<and>
                     sw_sent w' = sw_sent w \<and> sw_received w' = sw_received w
         else si_socketId s' = SOCKS5_INVALID_SOCKET_FD \<and> si_state s' = si_state s \<and>
              (si_errorCode s' \<noteq> 0 \<or> sw_keepalive w \<noteq> None) \<and>
              sw_closed w' = sw_closed w @ (case sw_socket w of Inl _ \<Rightarrow> [] | Inr fd \<Rightarrow> [fd])"
  using assms
  by (auto simp: CreateSocket_def bind_eq_Some_conv MakeTcpSocket_def make_socket_def GetSaFamily_def SOCKS5_INVALID_SOCKET_FD_def
      UpdateErrorInfo_def CloseSocket_def split: if_splits option.splits sum.splits)

fun command_of :: "instance_kind \<Rightarrow> Socks5Command" where
  "command_of Socks5UdpInstance = UDP_ASSOCIATE"
| "command_of _ = TCP_CONNECTION"

text \<open>The socket of an attempt: the one of the instance, or the one a datagram instance creates.\<close>

definition attempt_socket :: "Socks5Instance \<Rightarrow> sock_world \<Rightarrow> int" where
  "attempt_socket s w =
     (if si_kind s = Socks5UdpInstance then case sw_socket w of Inl _ \<Rightarrow> SOCKS5_INVALID_SOCKET_FD | Inr fd \<Rightarrow> fd
      else si_socketId s)"

definition valid_fds :: "sock_world \<Rightarrow> bool" where
  "valid_fds w \<longleftrightarrow> (case sw_socket w of Inl _ \<Rightarrow> True | Inr fd \<Rightarrow> 0 \<le> fd)"

text \<open>An attempt of a stream instance on a small example.\<close>

definition demo_instance :: Socks5Instance where
  "demo_instance =
     \<lparr>si_kind = Socks5TcpInstance, si_socketId = 7, si_dest = \<lparr>ad_address = ''AAAAAAAB'', ad_family = IPv4, ad_port = 80\<rparr>,
      si_options = Some \<lparr>op_proxyAddress = new_NetAddress, op_username = [1], op_password = [2]\<rparr>, si_method = None,
      si_state = AUTH_INIT, si_proxyBindAddr = new_NetAddress, si_doConnectCount = 0, si_errorCode = 0, si_errorMessage = [],
      si_self = True, si_header = []\<rparr>"

definition demo_world :: "byte list list \<Rightarrow> nat \<Rightarrow> sock_world" where
  "demo_world answers k =
     \<lparr>sw_errno = E_OK, sw_opts = udp_opts\<lparr>so_sndbuf := Inr 8192, so_type := Inr SOCK_STREAM\<rparr>, sw_socket = Inr 9, sw_fcntl = [],
      sw_keepalive = None, sw_connect = (None, []), sw_sends = map (\<lambda>_. replicate k (Poll_ready False, Room 1000)) answers,
      sw_recvs = map (\<lambda>m. [(Poll_ready False, Received m)]) answers, sw_sent = [], sw_received = [], sw_closed = []\<rparr>"

definition demo_run :: "byte list list \<Rightarrow> bool socks_run" where
  "demo_run answers = Connect letters_env False demo_instance (demo_world answers 1)"

lemma demo_valid: "valid_fds (demo_world answers k)"
  by (simp add: valid_fds_def demo_world_def)

lemma demo_True: "map_option fst (demo_run [[5, 2], [1, 0], [5, 0, 0, 1, 9, 9, 9, 9, 0, 80]]) = Some True"
  by code_simp

lemma demo_False: "map_option fst (demo_run [[5, 255]]) = Some False"
  by code_simp

text \<open>
  C15. If an attempt to connect through the proxy returns true, a complete SOCKS5 dialogue has taken place, with exactly
  the messages RFC 1928 and RFC 1929 prescribe: the offer of the methods "none" and "password"; if the
  server chose "password", user name and password, answered with success; the request for the destination,
  answered with success. The instance is then connected, without an error, and its socket is open.
\<close>

theorem socks5_connect_true:
  assumes "pton_laws env" and "valid_fds w" and "si_state s \<noteq> AUTH_SUCCESS" and "Connect env z s w = Some (True, s', w')"
  shows "(\<exists>options sent received. si_options s = Some options \<and>
            socks5_dialogue env (command_of (si_kind s)) (si_dest s) options sent received \<and>
            sw_sent w' = sw_sent w @ sent \<and> sw_received w' = sw_received w @ received) \<and>
         IsConnected s' \<and> si_errorCode s' = 0 \<and> si_socketId s' = attempt_socket s w \<and> sw_closed w' = sw_closed w"
proof (cases "si_kind s")
  case Socks5UdpInstance
  let ?s = "UpdateErrorInfo_code 0 [] s"
  obtain s1 w1 where 1: "CreateSocket ?s w = Some (True, s1, w1)" "connect_steps env z UDP_ASSOCIATE s1 w1 = Some (True, s', w')"
    using assms(3,4) Socks5UdpInstance
    by (auto simp: Connect_def Socks5UdpInstance_Connect_def UpdateErrorInfo_code_def bind_eq_Some_conv split: if_splits)
  have fds: "\<And>fd. sw_socket w = Inr fd \<Longrightarrow> 0 \<le> fd"
    using assms(2) by (auto simp: valid_fds_def)
  show ?thesis
    using CreateSocket_cases [OF 1(1) fds] connect_steps_True [OF assms(1) 1(2)] Socks5UdpInstance
    by (auto simp: same_socket_def IsConnected_def attempt_socket_def UpdateErrorInfo_code_def)
next
  case Socks5TcpInstance
  then have "connect_steps env z TCP_CONNECTION (UpdateErrorInfo_code 0 [] s) w = Some (True, s', w')"
    using assms(3,4) by (auto simp: Connect_def Socks5TcpInstance_Connect_def UpdateErrorInfo_code_def)
  from connect_steps_True [OF assms(1) this] show ?thesis
    using Socks5TcpInstance by (auto simp: same_socket_def IsConnected_def attempt_socket_def UpdateErrorInfo_code_def)
next
  case Socks5TlsInstance
  then obtain err where "connect_steps env z TCP_CONNECTION (UpdateErrorInfo_code 0 [] s) (w\<lparr>sw_errno := err\<rparr>) = Some (True, s', w')"
    using assms(3,4) by (auto simp: Connect_def Socks5TlsInstance_Connect_def UpdateErrorInfo_code_def bind_eq_Some_conv)
  from connect_steps_True [OF assms(1) this] show ?thesis
    using Socks5TlsInstance by (auto simp: same_socket_def IsConnected_def attempt_socket_def UpdateErrorInfo_code_def)
qed

theorem socks5_connect_true_witness:
  "\<exists>s' w'. demo_run [[5, 2], [1, 0], [5, 0, 0, 1, 9, 9, 9, 9, 0, 80]] = Some (True, s', w') \<and> IsConnected s' \<and> si_socketId s' = 7"
proof -
  let ?w = "demo_world [[5, 2], [1, 0], [5, 0, 0, 1, 9, 9, 9, 9, 0, 80]] 1"
  obtain s' w' where run: "Connect letters_env False demo_instance ?w = Some (True, s', w')"
    using demo_True by (auto simp: demo_run_def)
  have "si_state demo_instance \<noteq> AUTH_SUCCESS" "attempt_socket demo_instance ?w = 7"
    by (simp_all add: demo_instance_def attempt_socket_def)
  then show ?thesis
    using socks5_connect_true [OF letters_env_laws demo_valid _ run] run by (auto simp: demo_run_def)
qed

text \<open>
  C36. If an attempt returns false, the socket of the attempt has been closed, once, and the instance has
  none any more; the instance is not connected. There is an error code, except if the attempt was refused
  because there had been three before, or because the socket could not be kept alive.
\<close>

theorem socks5_connect_false:
  assumes "pton_laws env" and "valid_fds w" and "Connect env z s w = Some (False, s', w')"
  shows "si_socketId s' = SOCKS5_INVALID_SOCKET_FD \<and> sw_closed w' = sw_closed w @ close_if_open (attempt_socket s w) \<and>
         \<not> IsConnected s' \<and>
         (si_errorCode s' \<noteq> 0 \<or> SOCKS5_DO_CONNECT_COUNT_MAX \<le> si_doConnectCount s \<or>
          si_kind s = Socks5UdpInstance \<and> sw_keepalive w \<noteq> None)"
proof (cases "si_kind s")
  case Socks5UdpInstance
  let ?s = "UpdateErrorInfo_code 0 [] s"
  have fds: "\<And>fd. sw_socket w = Inr fd \<Longrightarrow> 0 \<le> fd"
    using assms(2) by (auto simp: valid_fds_def)
  have st: "si_state s \<noteq> AUTH_SUCCESS"
    using assms(3) Socks5UdpInstance by (auto simp: Connect_def Socks5UdpInstance_Connect_def UpdateErrorInfo_code_def)
  obtain ok s1 w1 where 1: "CreateSocket ?s w = Some (ok, s1, w1)"
      "if ok then connect_steps env z UDP_ASSOCIATE s1 w1 = Some (False, s', w') else s' = s1 \<and> w' = w1"
    using assms(3) Socks5UdpInstance st
    by (auto simp: Connect_def Socks5UdpInstance_Connect_def UpdateErrorInfo_code_def bind_eq_Some_conv split: if_splits)
  note c = CreateSocket_cases [OF 1(1) fds]
  show ?thesis
  proof (cases ok)
    case True
    then have "connect_steps env z UDP_ASSOCIATE s1 w1 = Some (False, s', w')"
      using 1(2) by simp
    from connect_steps_False [OF assms(1) this] show ?thesis
      using c True st Socks5UdpInstance by (auto simp: IsConnected_def attempt_socket_def UpdateErrorInfo_code_def)
  next
    case False
    then show ?thesis
      using c 1(2) st fds Socks5UdpInstance
      by (auto simp: IsConnected_def attempt_socket_def UpdateErrorInfo_code_def close_if_open_def SOCKS5_INVALID_SOCKET_FD_def
          split: sum.splits)
  qed
next
  case Socks5TcpInstance
  then have "si_state s \<noteq> AUTH_SUCCESS" "connect_steps env z TCP_CONNECTION (UpdateErrorInfo_code 0 [] s) w = Some (False, s', w')"
    using assms(3) by (auto simp: Connect_def Socks5TcpInstance_Connect_def UpdateErrorInfo_code_def split: if_splits)
  then show ?thesis
    using connect_steps_False [OF assms(1)] Socks5TcpInstance
    by (fastforce simp: IsConnected_def attempt_socket_def UpdateErrorInfo_code_def)
next
  case Socks5TlsInstance
  then obtain err where "si_state s \<noteq> AUTH_SUCCESS"
      "connect_steps env z TCP_CONNECTION (UpdateErrorInfo_code 0 [] s) (w\<lparr>sw_errno := err\<rparr>) = Some (False, s', w')"
    using assms(3) by (auto simp: Connect_def Socks5TlsInstance_Connect_def UpdateErrorInfo_code_def bind_eq_Some_conv split: if_splits)
  then show ?thesis
    using connect_steps_False [OF assms(1), of z TCP_CONNECTION "UpdateErrorInfo_code 0 [] s" "w\<lparr>sw_errno := err\<rparr>"] Socks5TlsInstance
    by (auto simp: IsConnected_def attempt_socket_def UpdateErrorInfo_code_def)
qed

theorem socks5_connect_false_witness:
  "\<exists>s' w'. demo_run [[5, 255]] = Some (False, s', w') \<and> \<not> IsConnected s' \<and> sw_closed w' = [7]"
proof -
  let ?w = "demo_world [[5, 255]] 1"
  obtain s' w' where run: "Connect letters_env False demo_instance ?w = Some (False, s', w')"
    using demo_False by (auto simp: demo_run_def)
  have "close_if_open (attempt_socket demo_instance ?w) = [7]" "sw_closed ?w = []"
    by (simp_all add: demo_instance_def demo_world_def attempt_socket_def close_if_open_def SOCKS5_INVALID_SOCKET_FD_def)
  then show ?thesis
    using socks5_connect_false [OF letters_env_laws demo_valid run] run by (auto simp: demo_run_def)
qed

section \<open>When an attempt ends\<close>

fun decisive :: "poll_out \<times> recv_out \<Rightarrow> bool" where
  "decisive (Poll_error e _, _) = (e \<noteq> EINTR)"
| "decisive (Poll_timeout, _) = False"
| "decisive (Poll_ready _, Received m) = (m \<noteq> [])"
| "decisive (Poll_ready _, Recv_error e) = (e \<noteq> EAGAIN \<and> e \<noteq> EINTR)"

lemma recv_loop_returns: "list_ex decisive outs \<Longrightarrow> \<exists>r err'. recv_loop n outs err = Some (r, err')"
  by (induction n outs err rule: recv_loop.induct) auto

text \<open>Outcomes of system calls that let every message of a dialogue through and bring some answer.\<close>

definition talking :: "sock_world \<Rightarrow> bool" where
  "talking w \<longleftrightarrow> list_all (\<lambda>outs. list_all accepting outs \<and> 513 \<le> length outs) (sw_sends w) \<and>
                 list_all (list_ex decisive) (sw_recvs w)"

lemma Send_returns:
  assumes "talking w" and "sw_sends w \<noteq> []" and "length msg \<le> 513"
  shows "\<exists>ok w'. Send msg w = Some (ok, w') \<and> talking w' \<and> length (sw_sends w) = Suc (length (sw_sends w')) \<and> sw_recvs w' = sw_recvs w"
proof -
  obtain outs rest where w: "sw_sends w = outs # rest"
    using assms(2) by (cases "sw_sends w") auto
  have outs: "list_all accepting outs" "length msg \<le> length outs"
    using assms w by (auto simp: talking_def)
  obtain ok err pieces where "PollSendData (sw_opts w) outs (sw_errno w) msg = Some (ok, err, pieces)"
  proof (cases "GetSendBufferSize (sw_opts w) (sw_errno w)")
    case (Pair b e)
    show thesis
    proof (cases b)
      case None
      then show thesis
        using Pair by (intro that [of False e "[]"]) (simp add: PollSendData_def)
    next
      case (Some nt)
      then obtain n t where nt: "b = Some (n, t)"
        by (cases nt) auto
      have "0 < nat n"
        using bufferSize_pos Pair nt by fastforce
      from send_loop_returns [OF outs this] obtain e2 sent where
          "send_loop t (nat n) outs (errno_after (so_tfo (sw_opts w)) (errno_after (so_sndtimeo (sw_opts w)) e)) msg [] = Some (True, e2, sent)"
        by blast
      then show thesis
        using Pair nt by (cases "ConfirmSocketTimeoutMs (sw_opts w) False DEFAULT_TIMEOUT_MS < 0") (auto intro: that simp: PollSendData_def)
    qed
  qed
  then show ?thesis
    using assms(1) w by (auto simp: Send_def talking_def)
qed

lemma Recv_returns:
  assumes "talking w" and "sw_recvs w \<noteq> []"
  shows "\<exists>r w'. Recv w = Some (r, w') \<and> talking w' \<and> length (sw_recvs w) = Suc (length (sw_recvs w')) \<and> sw_sends w' = sw_sends w"
proof -
  obtain outs rest where w: "sw_recvs w = outs # rest"
    using assms(2) by (cases "sw_recvs w") auto
  then show ?thesis
    using assms(1)
      recv_loop_returns [of outs "nat (ConfirmBufferSize (sw_opts w))" "errno_after (so_rcvtimeo (sw_opts w)) (errno_after (so_rcvbuf (sw_opts w)) (sw_errno w))"]
    by (auto simp: Recv_def talking_def)
qed

text \<open>\<open>k\<close> more questions can be asked.\<close>

definition can_ask :: "nat \<Rightarrow> sock_world \<Rightarrow> bool" where
  "can_ask k w \<longleftrightarrow> talking w \<and> k \<le> length (sw_sends w) \<and> k \<le> length (sw_recvs w)"

lemma RequestProxyServer_returns:
  assumes w: "can_ask (Suc k) w" and self: "si_self s" and msg: "length msg \<le> 513" and d: "\<And>a. d a \<noteq> None"
  shows "\<exists>ok r s' w'. RequestProxyServer (Some msg) rsp d s w = Some ((ok, r), s', w') \<and> (ok \<longrightarrow> s' = s \<and> can_ask k w')"
proof -
  have "sw_sends w \<noteq> []" "sw_recvs w \<noteq> []"
    using w by (auto simp: can_ask_def)
  then obtain ok1 w1 where 1: "Send msg w = Some (ok1, w1)" "talking w1" "length (sw_sends w) = Suc (length (sw_sends w1))" "sw_recvs w1 = sw_recvs w"
    using Send_returns [of w msg] w msg by (auto simp: can_ask_def)
  obtain r w2 where 2: "Recv w1 = Some (r, w2)" "talking w2" "length (sw_recvs w1) = Suc (length (sw_recvs w2))" "sw_sends w2 = sw_sends w1"
    using Recv_returns [of w1] 1 \<open>sw_recvs w \<noteq> []\<close> by auto
  have k: "can_ask k w2"
    using w 1 2 by (auto simp: can_ask_def)
  show ?thesis
  proof (cases r)
    case None
    then show ?thesis
      using 1 2 self by (auto simp: RequestProxyServer_def fail_via_def)
  next
    case (Some ans)
    obtain ok2 rsp2 where "d ans = Some (ok2, rsp2)"
      using d [of ans] by auto
    then show ?thesis
      using 1 2 self k Some by (auto simp: RequestProxyServer_def fail_via_def)
  qed
qed

lemma RequestMethod_returns:
  assumes "can_ask (Suc k) w" and "si_self s" and "si_options s \<noteq> None"
  shows "\<exists>ok s' w'. RequestMethod SOCKS5_METHODS s w = Some (ok, s', w') \<and>
           (ok \<longrightarrow> can_ask k w' \<and> si_self s' \<and> si_options s' = si_options s)"
proof -
  have "\<exists>ok r s' w'. RequestProxyServer (Some [5, 2, 0, 2]) \<lparr>mr_version = 0, mr_method = 0\<rparr>
      (Socks5MethodResponse_Deserialize \<lparr>mr_version = 0, mr_method = 0\<rparr>) s w = Some ((ok, r), s', w') \<and> (ok \<longrightarrow> s' = s \<and> can_ask k w')"
    using assms by (intro RequestProxyServer_returns) (auto simp: Socks5MethodResponse_Deserialize_def byte_at_def)
  then obtain ok r s' w' where "RequestProxyServer (Some [5, 2, 0, 2]) \<lparr>mr_version = 0, mr_method = 0\<rparr>
      (Socks5MethodResponse_Deserialize \<lparr>mr_version = 0, mr_method = 0\<rparr>) s w = Some ((ok, r), s', w')" "ok \<longrightarrow> s' = s \<and> can_ask k w'"
    by blast
  then show ?thesis
    using assms by (cases ok) (auto simp: RequestMethod_def methods_bytes)
qed

lemma RequestAuth_returns:
  assumes "can_ask (Suc k) w" and "si_self s"
  shows "\<exists>ok s' w'. RequestAuth z m user pass s w = Some (ok, s', w') \<and> (ok \<longrightarrow> s' = s \<and> can_ask k w')"
proof (cases "m = Socks5NoneMethod \<or> user = [] \<or> pass = []")
  case True
  then show ?thesis
    using assms by (cases m) (auto simp: RequestAuth_def RequestAuth_None_def RequestAuth_Passwd_def fail_via_def can_ask_def)
next
  case False
  let ?r0 = "\<lparr>ar_version = 0, ar_status = 0\<rparr>"
  let ?m = "if length user > 255 \<or> length pass > 255 then [] else auth_bytes user pass"
  have ser: "Socks5AuthRequest_Serialize z \<lparr>aq_version = SOCKS5_SUBVERSION, aq_username = SecureData_assign [] user,
      aq_password = SecureData_assign [] pass\<rparr> = Some ?m"
    using False by (subst AuthRequest_bytes) (auto simp: SecureData_assign_def auth_bytes_def SOCKS5_SUBVERSION_def)
  have "\<exists>ok r s' w'. RequestProxyServer (Some ?m) ?r0 (Socks5AuthResponse_Deserialize ?r0) s w = Some ((ok, r), s', w') \<and> (ok \<longrightarrow> s' = s \<and> can_ask k w')"
    using assms by (intro RequestProxyServer_returns) (auto simp: Socks5AuthResponse_Deserialize_def byte_at_def auth_bytes_def)
  then obtain ok r s' w' where "RequestProxyServer (Some ?m) ?r0 (Socks5AuthResponse_Deserialize ?r0) s w = Some ((ok, r), s', w')"
      "ok \<longrightarrow> s' = s \<and> can_ask k w'"
    by blast
  moreover have "m = Socks5PasswdMethod"
    using False by (cases m) auto
  ultimately show ?thesis
    using False assms unfolding RequestAuth_def RequestAuth_Passwd_def Let_def ser
    by (cases ok) (auto simp: fail_via_def)
qed

lemma request_bytes_length: "pton_laws env \<Longrightarrow> request_bytes env command dest = Some m \<Longrightarrow> length m \<le> 513"
  by (cases "ad_family dest") (auto simp: request_bytes_def address_bytes_def pton_laws_def split: if_splits)

lemma RequestProxy_returns:
  assumes "pton_laws env" and "can_ask (Suc k) w" and "si_self s"
  shows "\<exists>x s' w'. RequestProxy env z command dest s w = Some (x, s', w')"
proof -
  let ?m = "case request_bytes env command dest of None \<Rightarrow> [] | Some m \<Rightarrow> m"
  have "Socks5ProxyResponse_Deserialize env new_ProxyResponse a \<noteq> None" for a
    using ProxyResponse_total [of env new_ProxyResponse a] by auto
  then have "\<exists>ok r s' w'. RequestProxyServer (Some ?m) new_ProxyResponse (Socks5ProxyResponse_Deserialize env new_ProxyResponse) s w =
      Some ((ok, r), s', w') \<and> (ok \<longrightarrow> s' = s \<and> can_ask k w')"
    using assms request_bytes_length [OF assms(1)] by (intro RequestProxyServer_returns) (auto split: option.split)
  then obtain ok r s' w' where "RequestProxyServer (Some ?m) new_ProxyResponse (Socks5ProxyResponse_Deserialize env new_ProxyResponse) s w =
      Some ((ok, r), s', w')" "ok \<longrightarrow> s' = s"
    by blast
  then show ?thesis
    using assms unfolding RequestProxy_def proxy_request_bytes [OF assms(1)] by (cases ok) (auto simp: fail_via_def)
qed

lemma DoConnect_returns:
  assumes laws: "pton_laws env" and w: "can_ask 3 w" and s: "si_self s" "si_options s \<noteq> None"
  shows "DoConnect env z command s w \<noteq> None"
proof -
  let ?s = "s\<lparr>si_doConnectCount := si_doConnectCount s + 1\<rparr>"
  obtain ok1 s1 w1 where 1: "RequestMethod SOCKS5_METHODS ?s w = Some (ok1, s1, w1)"
      "ok1 \<longrightarrow> can_ask 2 w1 \<and> si_self s1 \<and> si_options s1 = si_options s"
    using RequestMethod_returns [of 2 w ?s] w s by (auto simp: numeral_3_eq_3 numeral_2_eq_2)
  show ?thesis
  proof (cases "ok1 \<and> si_method s1 \<noteq> None")
    case True
    then obtain m options where m: "si_method s1 = Some m" "si_options s1 = Some options"
      using 1 s by auto
    obtain ok2 s2 w2 where 2: "RequestAuth z m (op_username options) (op_password options) s1 w1 = Some (ok2, s2, w2)"
        "ok2 \<longrightarrow> s2 = s1 \<and> can_ask 1 w2"
      using RequestAuth_returns [of 1 w1 s1 z m "op_username options" "op_password options"] 1 True by (auto simp: numeral_2_eq_2)
    show ?thesis
    proof (cases ok2)
      case auth: True
      obtain x s3 w3 where "RequestProxy env z command (si_dest s2) s2 w2 = Some (x, s3, w3)"
        using RequestProxy_returns [OF laws, of 0 w2 s2 z command "si_dest s2"] 1 2 True auth by auto
      then show ?thesis
        using 1(1) 2(1) m True auth by (cases x) (auto simp: DoConnect_def)
    qed (use 1(1) 2(1) m True in \<open>auto simp: DoConnect_def\<close>)
  next
    case False
    then show ?thesis
      using 1(1) by (cases ok1) (auto simp: DoConnect_def)
  qed
qed

lemma connect_steps_returns:
  assumes "pton_laws env" and "can_ask 3 w" and "si_self s" and "si_options s \<noteq> None"
    and "NonBlockConnect (sw_opts w) (fst (sw_connect w)) (snd (sw_connect w)) (sw_errno w) 0 \<noteq> None"
  shows "connect_steps env z command s w \<noteq> None"
proof -
  obtain b err where "NonBlockConnect (sw_opts w) (fst (sw_connect w)) (snd (sw_connect w)) (sw_errno w) 0 = Some (b, err)"
    using assms(5) by auto
  moreover have "can_ask 3 (w\<lparr>sw_errno := err\<rparr>)"
    using assms(2) by (simp add: can_ask_def talking_def)
  ultimately have "\<exists>ok s1 w1. ConnectProxy s w = Some (ok, s1, w1) \<and> (ok \<longrightarrow> s1 = s \<and> can_ask 3 w1)"
    using assms(4) by (auto simp: ConnectProxy_def)
  then obtain ok s1 w1 where 1: "ConnectProxy s w = Some (ok, s1, w1)" "ok \<longrightarrow> s1 = s \<and> can_ask 3 w1"
    by blast
  then show ?thesis
    using DoConnect_returns [OF assms(1), of w1 s z command] assms
    by (auto simp: connect_steps_def simp del: not_None_eq split: Option.bind_splits)
qed

text \<open>
  C37. An attempt on a TCP instance returns, one way or the other: if connecting to the proxy comes to an
  end, the kernel takes something of every message at every call, and for each of the at most three
  questions \<open>recvfrom\<close> at last gives bytes or a lasting error.
\<close>

theorem socks5_connect_returns:
  assumes "pton_laws env" and "si_kind s = Socks5TcpInstance" and "si_self s" and "si_options s \<noteq> None"
    and "talking w" and "length (sw_sends w) = 3" and "length (sw_recvs w) = 3"
    and "NonBlockConnect (sw_opts w) (fst (sw_connect w)) (snd (sw_connect w)) (sw_errno w) 0 \<noteq> None"
  shows "\<exists>ok s' w'. Connect env z s w = Some (ok, s', w')"
proof -
  have "connect_steps env z TCP_CONNECTION (UpdateErrorInfo_code 0 [] s) w \<noteq> None"
    using assms by (intro connect_steps_returns) (auto simp: can_ask_def UpdateErrorInfo_code_def)
  then show ?thesis
    using assms by (auto simp: Connect_def Socks5TcpInstance_Connect_def UpdateErrorInfo_code_def)
qed

theorem socks5_connect_returns_witness:
  "\<exists>ok s' w'. Connect letters_env False demo_instance (demo_world [[5, 2], [1, 0], [5]] 513) = Some (ok, s', w')"
  by (rule socks5_connect_returns [OF letters_env_laws])
    (simp_all add: demo_instance_def demo_world_def talking_def NonBlockConnect_def list_all_iff del: replicate.simps)

text \<open>
  C38. \<open>Recv\<close> has no time-out: while \<open>poll\<close> reports one after the other, it does not return. A proxy that closes
  the connection is not always noticed either: after an earlier \<open>EAGAIN\<close>, the loop does not return as
  long as \<open>recvfrom\<close> reports the end of the stream.
\<close>

theorem socks5_recv_waits:
  "recv_loop n (replicate k (Poll_timeout, r)) err = None \<and> recv_loop n (replicate k (Poll_ready False, Received [])) EAGAIN = None"
proof -
  have "recv_loop n (replicate k (Poll_timeout, r)) err = None"
    by (induction k) auto
  moreover have "recv_loop n (replicate k (Poll_ready False, Received [])) EAGAIN = None"
    by (induction k) auto
  ultimately show ?thesis ..
qed

section \<open>Headers of datagrams\<close>

text \<open>
  C39. What \<open>AddHeader\<close> puts before a datagram, \<open>RemoveHeader\<close> takes away again, for any payload that is not empty.
  The header is the one RFC 1928 prescribes; it is empty exactly if the destination has no form in bytes.
  The port read from a header is the last two bytes of the whole datagram.
\<close>

theorem udp_header_roundtrip:
  assumes laws: "pton_laws env" and kind: "si_kind s = Socks5UdpInstance" and payload: "payload \<noteq> []"
  shows "\<exists>s'. AddHeader env z s = Some s' \<and>
    GetHeader s' = (case address_bytes env (family_atyp (ad_family (si_dest s))) (ad_address (si_dest s)) of
                      None \<Rightarrow> []
                    | Some bs \<Rightarrow> [0, 0, 0, atyp_byte (family_atyp (ad_family (si_dest s)))] @ bs @ port_bytes (ad_port (si_dest s))) \<and>
    (GetHeader s' \<noteq> [] \<longrightarrow>
      RemoveHeader env z s' (Some (GetHeader s' @ payload)) = Some (True, Some payload) \<and>
      (\<exists>h. Socks5UdpHeader_Deserialize env new_UdpHeader (GetHeader s' @ payload) = Some (True, h) \<and>
           Some (uh_dstPort h) = last_port (GetHeader s' @ payload)))"
proof -
  let ?t = "family_atyp (ad_family (si_dest s))" and ?a = "ad_address (si_dest s)" and ?p = "port_bytes (ad_port (si_dest s))"
  let ?h = "new_UdpHeader\<lparr>uh_addrType := ?t, uh_destAddr := ?a, uh_dstPort := ad_port (si_dest s)\<rparr>"
  have ser: "Socks5UdpHeader_Serialize env z ?h =
      Some (case address_bytes env ?t ?a of None \<Rightarrow> [] | Some bs \<Rightarrow> [0, 0, 0, atyp_byte ?t] @ bs @ ?p)"
    by (subst UdpHeader_bytes [OF laws]) (auto simp: new_UdpHeader_def host_bytes_def numeral_2_eq_2 split: option.split)
  show ?thesis
  proof (cases "address_bytes env ?t ?a")
    case None
    then show ?thesis
      using ser kind by (auto simp: AddHeader_def Socks5_SetHeader_def GetHeader_def)
  next
    case (Some bs)
    let ?d = "[0, 0, 0, atyp_byte ?t] @ bs @ (?p @ payload)"
    have rest: "2 \<le> length (?p @ payload)"
      by simp
    note read = address_read [OF laws atyp_known_family Some refl rest, of 0 0 0]
    obtain a' where a': "GetAddrStr env ?t ?d 4 5 [] = Some a'" "address_bytes env ?t a' = Some bs" "?t = ATYP_DOMAIN_NAME \<longrightarrow> a' = ?a"
      using read(3) by blast
    obtain p where p: "last_port ?d = Some p"
      using last_port_total [of ?d] by auto
    have fits: "6 \<le> length ?d" "length bs \<noteq> 0"
      using read(1,2) address_len_0 [of ?d] by (auto simp: address_fits_def simp del: append.simps)
    have "GetAddrLen ?t ?d 4 = Some (length bs)"
      using GetAddrLen_total [OF fits(1)] read(2) by (simp add: atyp_of_byte)
    then have des: "Socks5UdpHeader_Deserialize env new_UdpHeader ?d =
        Some (True, new_UdpHeader\<lparr>uh_addrType := ?t, uh_destAddr := a', uh_dstPort := p\<rparr>)"
      using fits a' p by (simp add: Socks5UdpHeader_Deserialize_def byte_at_def atyp_of_byte new_UdpHeader_def)
    have len: "length bs = (case ?t of ATYP_IPV4 \<Rightarrow> 4 | ATYP_IPV6 \<Rightarrow> 16 | _ \<Rightarrow> Suc (length a'))"
      using Some a'(3) laws
      by (cases "ad_family (si_dest s)") (auto simp: address_bytes_def pton_laws_def split: if_splits)
    define d where "d = ?d"
    have "d = ([0, 0, 0, atyp_byte ?t] @ bs @ ?p) @ payload" "length ([0, 0, 0, atyp_byte ?t] @ bs @ ?p) = 6 + length bs"
      by (simp_all add: d_def)
    then have d: "length d = 6 + length bs + length payload" "drop (6 + length bs) d = payload"
      by (metis length_append, metis append_eq_conv_conj)
    have "Socks5UdpInstance_RemoveHeader env z (Some d) = Some (True, Some payload)"
      using des len payload d unfolding d_def [symmetric]
      by (cases "ad_family (si_dest s)") (auto simp: Socks5UdpInstance_RemoveHeader_def IPV4_LEN_def IPV6_LEN_def)
    then have "Socks5UdpInstance_RemoveHeader env z (Some ?d) = Some (True, Some payload)"
      by (simp only: d_def)
    then show ?thesis
      using ser kind Some des p by (auto simp: AddHeader_def Socks5_SetHeader_def GetHeader_def RemoveHeader_def)
  qed
qed

theorem udp_header_roundtrip_witness:
  "\<exists>s'. AddHeader letters_env False (demo_instance\<lparr>si_kind := Socks5UdpInstance\<rparr>) = Some s' \<and>
        RemoveHeader letters_env False s' (Some (GetHeader s' @ [1, 2, 3])) = Some (True, Some [1, 2, 3])"
proof -
  let ?s = "demo_instance\<lparr>si_kind := Socks5UdpInstance\<rparr>"
  have "address_bytes letters_env (family_atyp (ad_family (si_dest ?s))) (ad_address (si_dest ?s)) \<noteq> None"
    by (simp add: demo_instance_def address_bytes_def letters_env_def c_str_def)
  then show ?thesis
    using udp_header_roundtrip [OF letters_env_laws, of ?s "[1, 2, 3]" False] by auto
qed

end
