(* ===== verification/Epoll_Driver.thy ===== *)
theory Epoll_Driver
  imports Netstack_Prelude
begin

text \<open>
  The worker thread that drives all transfers (\<open>utils/http_over_curl\<close>): requests come in through a
  queue guarded by an event, are handed to a curl multi handle, and are completed when curl reports
  them done.

  Objects on the heap are numbered in the order of their creation and numbers are not used again, so a
  number names a request for good; following a pointer to a deleted object, and a read that blocks for
  ever, have no value (\<open>None\<close>). Curl is a parameter: what it answers and which callbacks it calls on the
  way. The model is of the build without network handover and without JS redirection interceptors.
\<close>

section \<open>Data\<close>

text \<open>\<open>ri_started\<close> and \<open>ri_done\<close>: the request has the callback. The null handle is 0.\<close>

record RequestInfo =
  ri_easyHandle :: nat
  ri_started :: bool
  ri_done :: bool
  ri_opaqueData :: nat

text \<open>What is observable of a request: its callbacks, and the log entry for one that curl refuses.\<close>

datatype driver_event = Started nat | Finished nat int | Refused nat

fun about :: "driver_event \<Rightarrow> nat" where
  "about (Started a) = a"
| "about (Finished a res) = a"
| "about (Refused a) = a"

text \<open>
  \<open>dr_created\<close> holds every request ever made, in order; \<open>dr_heap\<close> those that are not deleted; \<open>dr_event\<close> is the
  counter of the event descriptor; \<open>dr_multi\<close> are the handles curl holds; a null pointer in the map of
  ongoing requests is \<open>Some None\<close>; \<open>dr_timer\<close> is the time to which the timer is set, in nanoseconds.
\<close>

record EpollMultiDriver =
  dr_created :: "RequestInfo list"
  dr_heap :: "nat \<Rightarrow> RequestInfo option"
  dr_queue :: "nat list"
  dr_event :: nat
  dr_worker :: bool
  dr_eventFd :: int
  dr_timerFd :: int
  dr_multi_ok :: bool
  dr_multi :: "nat list"
  dr_ongoing :: "nat \<Rightarrow> nat option option"
  dr_stillRunning :: int
  dr_timer :: "int option"
  dr_contexts :: "nat \<Rightarrow> int option"
  dr_nextContext :: nat
  dr_assigned :: "int \<Rightarrow> nat option"
  dr_poll :: "int \<Rightarrow> (bool \<times> bool) option"
  dr_log :: "driver_event list"

datatype curl_msg = CURLMSG_DONE nat int | CURLMSG_other

text \<open>
  The callbacks curl makes while it works: a new time-out in milliseconds, or a socket with an action; the
  last argument says whether memory for a new context can be had.
\<close>

datatype multi_call = Call_timer int | Call_socket int int bool

record curl_lib =
  cl_add :: "nat list \<Rightarrow> nat \<Rightarrow> bool \<times> multi_call list"
  cl_remove :: "nat list \<Rightarrow> nat \<Rightarrow> multi_call list"

text \<open>What happens in one call of \<open>curl_multi_socket_action\<close>, and the messages that can be read afterwards.\<close>

record curl_action =
  ca_calls :: "multi_call list"
  ca_running :: int
  ca_msgs :: "curl_msg list"

section \<open>Descriptors\<close>

definition RegisterMe :: "int \<Rightarrow> bool \<times> bool \<Rightarrow> EpollMultiDriver \<Rightarrow> EpollMultiDriver" where
  "RegisterMe descriptor flags s =
     (if descriptor < 0 then s
      else if dr_poll s descriptor \<noteq> None then s
      else s\<lparr>dr_poll := (dr_poll s)(descriptor := Some flags)\<rparr>)"

definition UnregisterMe :: "int \<Rightarrow> EpollMultiDriver \<Rightarrow> EpollMultiDriver" where
  "UnregisterMe descriptor s =
     (if descriptor < 0 then s
      else if descriptor \<noteq> 0 then s\<lparr>dr_poll := (dr_poll s)(descriptor := None)\<rparr>
      else s)"

definition SetTimeoutNs :: "int \<Rightarrow> EpollMultiDriver \<Rightarrow> EpollMultiDriver" where
  "SetTimeoutNs timeoutNs s = s\<lparr>dr_timer := (if timeoutNs > 0 then Some timeoutNs else None)\<rparr>"

definition SetTimeoutMs :: "int \<Rightarrow> EpollMultiDriver \<Rightarrow> EpollMultiDriver" where
  "SetTimeoutMs timeoutMs s =
     s\<lparr>dr_timer := (if timeoutMs > 0 then Some ((timeoutMs div 1000) * 1000000000 + (timeoutMs mod 1000) * 1000000) else None)\<rparr>"

definition Stop :: "EpollMultiDriver \<Rightarrow> EpollMultiDriver" where
  "Stop s = SetTimeoutMs 0 s"

text \<open>Reading an expired timer; it is not periodic.\<close>

definition ResetEvent :: "EpollMultiDriver \<Rightarrow> EpollMultiDriver" where
  "ResetEvent s = s\<lparr>dr_timer := None\<rparr>"

section \<open>The queue\<close>

definition Push :: "nat \<Rightarrow> EpollMultiDriver \<Rightarrow> EpollMultiDriver" where
  "Push element s = s\<lparr>dr_queue := dr_queue s @ [element], dr_event := dr_event s + 1\<rparr>"

text \<open>The read that resets the event blocks if the counter is 0, with the lock of the queue held.\<close>

definition Flush :: "EpollMultiDriver \<Rightarrow> (nat list \<times> EpollMultiDriver) option" where
  "Flush s = (if dr_event s = 0 then None else Some (dr_queue s, s\<lparr>dr_queue := [], dr_event := 0\<rparr>))"

definition Process :: "RequestInfo \<Rightarrow> EpollMultiDriver \<Rightarrow> EpollMultiDriver" where
  "Process requestInfo s =
     (let a = length (dr_created s);
          s1 = s\<lparr>dr_created := dr_created s @ [requestInfo], dr_heap := (dr_heap s)(a := Some requestInfo)\<rparr>
      in (Push a s1)\<lparr>dr_worker := True\<rparr>)"

section \<open>Callbacks of curl\<close>

definition MultiTimeoutCallback :: "int \<Rightarrow> EpollMultiDriver \<Rightarrow> EpollMultiDriver" where
  "MultiTimeoutCallback timeoutMs s =
     (if timeoutMs > 0 then SetTimeoutMs timeoutMs s
      else if timeoutMs = 0 then SetTimeoutNs 1 s
      else s)"

definition CURL_POLL_IN :: int where "CURL_POLL_IN = 1"
definition CURL_POLL_OUT :: int where "CURL_POLL_OUT = 2"
definition CURL_POLL_INOUT :: int where "CURL_POLL_INOUT = 3"
definition CURL_POLL_REMOVE :: int where "CURL_POLL_REMOVE = 4"

text \<open>Readable and writable, for an action that is one of the first three.\<close>

definition CurlPollToEpoll :: "int \<Rightarrow> bool \<times> bool" where
  "CurlPollToEpoll action = (action mod 2 = 1, (action div 2) mod 2 = 1)"

definition Reassign :: "nat \<Rightarrow> int \<Rightarrow> int \<Rightarrow> EpollMultiDriver \<Rightarrow> EpollMultiDriver option" where
  "Reassign context sockDescriptor action s =
     (case dr_contexts s context of
        None \<Rightarrow> None
      | Some old \<Rightarrow>
          let s1 = UnregisterMe old s;
              s2 = s1\<lparr>dr_contexts := (dr_contexts s1)(context := Some sockDescriptor)\<rparr>
          in Some (RegisterMe sockDescriptor (CurlPollToEpoll action) s2))"

definition delete_context :: "nat \<Rightarrow> EpollMultiDriver \<Rightarrow> EpollMultiDriver option" where
  "delete_context context s =
     (case dr_contexts s context of
        None \<Rightarrow> None
      | Some fd \<Rightarrow> let s1 = UnregisterMe fd s in Some (s1\<lparr>dr_contexts := (dr_contexts s1)(context := None)\<rparr>))"

text \<open>Curl passes the context it was given for the socket, and forgets it when the socket is removed.\<close>

definition MultiSocketCallback :: "int \<Rightarrow> int \<Rightarrow> bool \<Rightarrow> EpollMultiDriver \<Rightarrow> EpollMultiDriver option" where
  "MultiSocketCallback socket action memory s =
     (if action = CURL_POLL_IN \<or> action = CURL_POLL_OUT \<or> action = CURL_POLL_INOUT then
        case dr_assigned s socket of
          None \<Rightarrow>
            if \<not> memory then Some s
            else let c = dr_nextContext s;
                     s1 = s\<lparr>dr_contexts := (dr_contexts s)(c := Some socket), dr_nextContext := c + 1\<rparr>;
                     s2 = RegisterMe socket (CurlPollToEpoll action) s1
                 in Some (s2\<lparr>dr_assigned := (dr_assigned s2)(socket := Some c)\<rparr>)
        | Some c \<Rightarrow> Reassign c socket action s
      else if action = CURL_POLL_REMOVE then
        case dr_assigned s socket of
          None \<Rightarrow> Some s
        | Some c \<Rightarrow> map_option (\<lambda>s1. s1\<lparr>dr_assigned := (dr_assigned s1)(socket := None)\<rparr>) (delete_context c s)
      else Some s)"

fun run_calls :: "multi_call list \<Rightarrow> EpollMultiDriver \<Rightarrow> EpollMultiDriver option" where
  "run_calls [] s = Some s"
| "run_calls (Call_timer ms # cs) s = run_calls cs (MultiTimeoutCallback ms s)"
| "run_calls (Call_socket fd action memory # cs) s =
     (case MultiSocketCallback fd action memory s of None \<Rightarrow> None | Some s1 \<Rightarrow> run_calls cs s1)"

section \<open>Requests coming in\<close>

fun incoming_loop :: "curl_lib \<Rightarrow> nat list \<Rightarrow> EpollMultiDriver \<Rightarrow> EpollMultiDriver option" where
  "incoming_loop curl [] s = Some s"
| "incoming_loop curl (request # requests) s =
     (case dr_heap s request of
        None \<Rightarrow> None
      | Some r \<Rightarrow>
          let h = ri_easyHandle r;
              s1 = s\<lparr>dr_ongoing := (dr_ongoing s)(h := Some (Some request))\<rparr>;
              (ok, calls) = cl_add curl (dr_multi s) h
          in case run_calls calls s1 of
               None \<Rightarrow> None
             | Some s2 \<Rightarrow>
                 if \<not> ok
                 then incoming_loop curl requests
                        (s2\<lparr>dr_ongoing := (dr_ongoing s2)(h := None), dr_heap := (dr_heap s2)(request := None),
                            dr_log := dr_log s2 @ [Refused request]\<rparr>)
                 else incoming_loop curl requests
                        (s2\<lparr>dr_multi := dr_multi s2 @ [h],
                            dr_log := dr_log s2 @ (if ri_started r then [Started request] else [])\<rparr>))"

definition IncomingRequestCallback :: "curl_lib \<Rightarrow> EpollMultiDriver \<Rightarrow> EpollMultiDriver option" where
  "IncomingRequestCallback curl s =
     (case Flush s of None \<Rightarrow> None | Some (requestsToAdd, s1) \<Rightarrow> incoming_loop curl requestsToAdd s1)"

section \<open>Requests that are done\<close>

definition HandleCompletion :: "int \<Rightarrow> nat \<Rightarrow> EpollMultiDriver \<Rightarrow> EpollMultiDriver option" where
  "HandleCompletion result requestInfo s =
     (case dr_heap s requestInfo of
        None \<Rightarrow> None
      | Some r \<Rightarrow>
          Some (s\<lparr>dr_heap := (dr_heap s)(requestInfo := None),
                  dr_log := dr_log s @ (if ri_done r then [Finished requestInfo result] else [])\<rparr>))"

text \<open>The look-up in the map inserts a null pointer for a handle that is not there.\<close>

definition HandleCurlDoneMessage :: "curl_lib \<Rightarrow> nat \<Rightarrow> int \<Rightarrow> EpollMultiDriver \<Rightarrow> EpollMultiDriver option" where
  "HandleCurlDoneMessage curl easyHandle result s =
     (let requestInfo = (case dr_ongoing s easyHandle of None \<Rightarrow> None | Some p \<Rightarrow> p);
          s1 = s\<lparr>dr_ongoing := (dr_ongoing s)(easyHandle := Some requestInfo)\<rparr>
      in case requestInfo of
           None \<Rightarrow> Some s1
         | Some a \<Rightarrow>
             if easyHandle = 0 then Some s1
             else case run_calls (cl_remove curl (dr_multi s1) easyHandle) s1 of
                    None \<Rightarrow> None
                  | Some s2 \<Rightarrow>
                      HandleCompletion result a
                        (s2\<lparr>dr_multi := removeAll easyHandle (dr_multi s2),
                            dr_ongoing := (dr_ongoing s2)(easyHandle := None)\<rparr>))"

fun check_loop :: "curl_lib \<Rightarrow> curl_msg list \<Rightarrow> EpollMultiDriver \<Rightarrow> EpollMultiDriver option" where
  "check_loop curl [] s = Some s"
| "check_loop curl (CURLMSG_other # msgs) s = check_loop curl msgs s"
| "check_loop curl (CURLMSG_DONE h res # msgs) s =
     (case HandleCurlDoneMessage curl h res s of None \<Rightarrow> None | Some s1 \<Rightarrow> check_loop curl msgs s1)"

definition CheckMultiInfo :: "curl_lib \<Rightarrow> curl_msg list \<Rightarrow> EpollMultiDriver \<Rightarrow> EpollMultiDriver option" where
  "CheckMultiInfo curl msgs s = (if \<not> dr_multi_ok s then Some s else check_loop curl msgs s)"

section \<open>The loop\<close>

definition socket_action :: "curl_lib \<Rightarrow> curl_action \<Rightarrow> EpollMultiDriver \<Rightarrow> EpollMultiDriver option" where
  "socket_action curl act s =
     (case run_calls (ca_calls act) s of
        None \<Rightarrow> None
      | Some s1 \<Rightarrow> CheckMultiInfo curl (ca_msgs act) (s1\<lparr>dr_stillRunning := ca_running act\<rparr>))"

definition EpollTimerCallback :: "curl_lib \<Rightarrow> curl_action \<Rightarrow> EpollMultiDriver \<Rightarrow> EpollMultiDriver option" where
  "EpollTimerCallback curl act s = socket_action curl act (ResetEvent s)"

definition EpollSocketCallback :: "curl_lib \<Rightarrow> curl_action \<Rightarrow> EpollMultiDriver \<Rightarrow> EpollMultiDriver option" where
  "EpollSocketCallback curl act s =
     map_option (\<lambda>s1. if dr_stillRunning s1 \<le> 0 then Stop s1 else s1) (socket_action curl act s)"

text \<open>One event of the descriptor \<open>fd\<close>.\<close>

definition handle_event :: "curl_lib \<Rightarrow> int \<times> curl_action \<Rightarrow> EpollMultiDriver \<Rightarrow> EpollMultiDriver option" where
  "handle_event curl ev s =
     (case ev of (fd, act) \<Rightarrow>
        if fd = dr_eventFd s then IncomingRequestCallback curl s
        else if fd = dr_timerFd s then EpollTimerCallback curl act s
        else EpollSocketCallback curl act s)"

fun events_loop :: "curl_lib \<Rightarrow> (int \<times> curl_action) list \<Rightarrow> EpollMultiDriver \<Rightarrow> EpollMultiDriver option" where
  "events_loop curl [] s = Some s"
| "events_loop curl (ev # evs) s = (case handle_event curl ev s of None \<Rightarrow> None | Some s1 \<Rightarrow> events_loop curl evs s1)"

text \<open>The outcome of waiting: an error, no event (and then the messages curl has), or some events.\<close>

datatype wait_out = Wait_error | Wait_nothing "curl_msg list" | Wait_events "(int \<times> curl_action) list"

definition Step :: "curl_lib \<Rightarrow> wait_out \<Rightarrow> EpollMultiDriver \<Rightarrow> EpollMultiDriver option" where
  "Step curl out s =
     (if \<not> dr_multi_ok s then Some s
      else case out of
             Wait_error \<Rightarrow> Some s
           | Wait_nothing msgs \<Rightarrow> CheckMultiInfo curl msgs s
           | Wait_events evs \<Rightarrow> events_loop curl evs s)"

definition Initialize :: "bool \<Rightarrow> EpollMultiDriver \<Rightarrow> EpollMultiDriver" where
  "Initialize multi_init s =
     (let s1 = RegisterMe (dr_eventFd s) (True, False) (RegisterMe (dr_timerFd s) (True, False) s)
      in s1\<lparr>dr_multi_ok := multi_init\<rparr>)"

text \<open>A driver before \<open>Initialize\<close>, with an empty queue.\<close>

definition new_driver :: "int \<Rightarrow> int \<Rightarrow> EpollMultiDriver" where
  "new_driver eventFd timerFd =
     \<lparr>dr_created = [], dr_heap = (\<lambda>_. None), dr_queue = [], dr_event = 0, dr_worker = False, dr_eventFd = eventFd,
      dr_timerFd = timerFd, dr_multi_ok = False, dr_multi = [], dr_ongoing = (\<lambda>_. None), dr_stillRunning = 0, dr_timer = None,
      dr_contexts = (\<lambda>_. None), dr_nextContext = 0, dr_assigned = (\<lambda>_. None), dr_poll = (\<lambda>_. None), dr_log = []\<rparr>"

end
