(* ===== verification/Epoll_Driver_Correct.thy ===== *)
theory Epoll_Driver_Correct
  imports Epoll_Driver
begin

text \<open>
  Correctness of the worker thread: the states it reaches in every interleaving with callers, the
  invariant of these states, and what every request observes from creation to deletion.
\<close>

section \<open>Callbacks of curl leave the requests alone\<close>

text \<open>The contexts and the sockets they were assigned to correspond.\<close>

definition contexts_inv :: "EpollMultiDriver \<Rightarrow> bool" where
  "contexts_inv s \<longleftrightarrow> (\<forall>fd c. dr_assigned s fd = Some c \<longleftrightarrow> dr_contexts s c = Some fd) \<and>
                     (\<forall>c fd. dr_contexts s c = Some fd \<longrightarrow> c < dr_nextContext s)"

definition same_requests :: "EpollMultiDriver \<Rightarrow> EpollMultiDriver \<Rightarrow> bool" where
  "same_requests s s' \<longleftrightarrow>
     dr_created s' = dr_created s \<and> dr_heap s' = dr_heap s \<and> dr_queue s' = dr_queue s \<and> dr_event s' = dr_event s \<and>
     dr_multi_ok s' = dr_multi_ok s \<and> dr_multi s' = dr_multi s \<and> dr_ongoing s' = dr_ongoing s \<and> dr_log s' = dr_log s \<and>
     dr_eventFd s' = dr_eventFd s \<and> dr_timerFd s' = dr_timerFd s"

lemmas timer_defs = MultiTimeoutCallback_def SetTimeoutMs_def SetTimeoutNs_def Stop_def ResetEvent_def

lemma timer_callback_ok: "contexts_inv s \<Longrightarrow> contexts_inv (MultiTimeoutCallback ms s) \<and> same_requests s (MultiTimeoutCallback ms s)"
  by (auto simp: contexts_inv_def same_requests_def timer_defs)

lemma poll_frame [simp]:
  "dr_contexts (RegisterMe fd k s) = dr_contexts s" "dr_contexts (UnregisterMe fd s) = dr_contexts s"
  "dr_assigned (RegisterMe fd k s) = dr_assigned s" "dr_assigned (UnregisterMe fd s) = dr_assigned s"
  "dr_nextContext (RegisterMe fd k s) = dr_nextContext s" "dr_nextContext (UnregisterMe fd s) = dr_nextContext s"
  "same_requests s0 (RegisterMe fd k s) = same_requests s0 s" "same_requests s0 (UnregisterMe fd s) = same_requests s0 s"
  by (auto simp: RegisterMe_def UnregisterMe_def same_requests_def)

lemma same_requests_refl [simp]: "same_requests s s"
  by (simp add: same_requests_def)

lemma same_requests_updates [simp]:
  "same_requests s0 (s\<lparr>dr_contexts := c\<rparr>) = same_requests s0 s" "same_requests s0 (s\<lparr>dr_assigned := a\<rparr>) = same_requests s0 s"
  "same_requests s0 (s\<lparr>dr_nextContext := n\<rparr>) = same_requests s0 s" "same_requests s0 (s\<lparr>dr_timer := t\<rparr>) = same_requests s0 s"
  "same_requests s0 (s\<lparr>dr_stillRunning := r\<rparr>) = same_requests s0 s"
  by (auto simp: same_requests_def)

lemma same_requests_trans: "same_requests s s1 \<Longrightarrow> same_requests s1 s2 \<Longrightarrow> same_requests s s2"
  by (simp add: same_requests_def)

lemma contexts_inv_eq:
  "contexts_inv t \<Longrightarrow> dr_assigned s = dr_assigned t \<Longrightarrow> dr_contexts s = dr_contexts t \<Longrightarrow> dr_nextContext s = dr_nextContext t \<Longrightarrow>
   contexts_inv s"
  by (simp add: contexts_inv_def)

lemma new_context_ok:
  assumes inv: "contexts_inv s" and none: "dr_assigned s fd = None"
  shows "contexts_inv (s\<lparr>dr_contexts := (dr_contexts s)(dr_nextContext s := Some fd), dr_nextContext := dr_nextContext s + 1,
           dr_assigned := (dr_assigned s)(fd := Some (dr_nextContext s))\<rparr>)"
proof -
  have "dr_contexts s (dr_nextContext s) = None"
    using inv by (cases "dr_contexts s (dr_nextContext s)") (auto simp: contexts_inv_def)
  then show ?thesis
    using inv none unfolding contexts_inv_def by simp (metis less_SucI not_None_eq option.sel)
qed

lemma delete_context_ok:
  assumes inv: "contexts_inv s" and c: "dr_assigned s fd = Some c"
  shows "contexts_inv (s\<lparr>dr_contexts := (dr_contexts s)(c := None), dr_assigned := (dr_assigned s)(fd := None)\<rparr>)"
  using inv c unfolding contexts_inv_def by simp (metis option.inject)

lemma socket_callback_ok:
  assumes inv: "contexts_inv s"
  shows "\<exists>s'. MultiSocketCallback fd action memory s = Some s' \<and> contexts_inv s' \<and> same_requests s s'"
proof (cases "dr_assigned s fd")
  case None
  show ?thesis
    using inv None by (auto simp: MultiSocketCallback_def intro: contexts_inv_eq [OF new_context_ok [OF inv None]])
next
  case (Some c)
  then have c: "dr_contexts s c = Some fd"
    using inv by (simp add: contexts_inv_def)
  then have same: "(dr_contexts s)(c := Some fd) = dr_contexts s"
    by auto
  show ?thesis
    using inv Some c
    by (auto simp: MultiSocketCallback_def Reassign_def delete_context_def same
        intro: contexts_inv_eq [OF inv] contexts_inv_eq [OF delete_context_ok [OF inv Some]])
qed

lemma run_calls_ok:
  "contexts_inv s \<Longrightarrow> \<exists>s'. run_calls calls s = Some s' \<and> contexts_inv s' \<and> same_requests s s'"
proof (induction calls s rule: run_calls.induct)
  case (2 ms cs s)
  then show ?case
    using timer_callback_ok [of s ms] by (metis run_calls.simps(2) same_requests_trans)
next
  case (3 fd action memory cs s)
  obtain s1 where s1: "MultiSocketCallback fd action memory s = Some s1" "contexts_inv s1" "same_requests s s1"
    using socket_callback_ok [OF "3.prems"] by blast
  then show ?case
    using "3.IH" [OF s1(1) s1(2)] same_requests_trans [OF s1(3)] by auto
qed simp

section \<open>The invariant\<close>

definition events_of :: "EpollMultiDriver \<Rightarrow> nat \<Rightarrow> driver_event list" where
  "events_of s a = filter (\<lambda>e. about e = a) (dr_log s)"

definition waiting :: "nat list \<Rightarrow> EpollMultiDriver \<Rightarrow> nat \<Rightarrow> bool" where
  "waiting pend s a \<longleftrightarrow> a \<in> set pend \<or> a \<in> set (dr_queue s)"

definition ongoing :: "EpollMultiDriver \<Rightarrow> nat \<Rightarrow> bool" where
  "ongoing s a \<longleftrightarrow> (\<exists>h. dr_ongoing s h = Some (Some a))"

text \<open>What a request must have observed, by where it is.\<close>

definition started_part :: "EpollMultiDriver \<Rightarrow> nat \<Rightarrow> driver_event list" where
  "started_part s a = (if ri_started (dr_created s ! a) then [Started a] else [])"

definition done_part :: "EpollMultiDriver \<Rightarrow> nat \<Rightarrow> int \<Rightarrow> driver_event list" where
  "done_part s a res = (if ri_done (dr_created s ! a) then [Finished a res] else [])"

definition trace_ok :: "nat list \<Rightarrow> EpollMultiDriver \<Rightarrow> nat \<Rightarrow> bool" where
  "trace_ok pend s a \<longleftrightarrow>
     (if waiting pend s a then events_of s a = []
      else if ongoing s a then events_of s a = started_part s a
      else events_of s a = [Refused a] \<or> (\<exists>res. events_of s a = started_part s a @ done_part s a res))"

text \<open>\<open>pend\<close> are the requests taken from the queue and not yet handed to curl.\<close>

definition requests_inv :: "nat list \<Rightarrow> EpollMultiDriver \<Rightarrow> bool" where
  "requests_inv pend s \<longleftrightarrow>
     distinct (pend @ dr_queue s) \<and>
     (\<forall>a. dr_heap s a \<noteq> None \<longleftrightarrow> waiting pend s a \<or> ongoing s a) \<and>
     (\<forall>a r. dr_heap s a = Some r \<longrightarrow> a < length (dr_created s) \<and> dr_created s ! a = r \<and> ri_easyHandle r \<noteq> 0) \<and>
     (\<forall>a r. dr_heap s a = Some r \<and> waiting pend s a \<longrightarrow> ri_easyHandle r \<notin> set (dr_multi s)) \<and>
     (\<forall>h a. dr_ongoing s h = Some (Some a) \<longrightarrow> \<not> waiting pend s a \<and> (\<exists>r. dr_heap s a = Some r \<and> ri_easyHandle r = h)) \<and>
     (\<forall>h. h \<in> set (dr_multi s) \<longleftrightarrow> (\<exists>a. dr_ongoing s h = Some (Some a))) \<and>
     (\<forall>h. dr_ongoing s h \<noteq> Some None) \<and>
     (\<forall>a b r r'. dr_heap s a = Some r \<and> dr_heap s b = Some r' \<and> ri_easyHandle r = ri_easyHandle r' \<longrightarrow> a = b) \<and>
     (dr_queue s \<noteq> [] \<longrightarrow> 0 < dr_event s)"

definition traces_inv :: "nat list \<Rightarrow> EpollMultiDriver \<Rightarrow> bool" where
  "traces_inv pend s \<longleftrightarrow>
     (\<forall>a < length (dr_created s). trace_ok pend s a) \<and> (\<forall>a. length (dr_created s) \<le> a \<longrightarrow> events_of s a = [])"

definition driver_inv :: "nat list \<Rightarrow> EpollMultiDriver \<Rightarrow> bool" where
  "driver_inv pend s \<longleftrightarrow> contexts_inv s \<and> requests_inv pend s \<and> traces_inv pend s"

lemmas request_views = waiting_def ongoing_def events_of_def started_part_def done_part_def

lemma same_requests_views:
  assumes "same_requests s s'"
  shows "requests_inv pend s' = requests_inv pend s" and "traces_inv pend s' = traces_inv pend s"
  using assms by (auto simp: same_requests_def requests_inv_def traces_inv_def trace_ok_def request_views)

section \<open>Every operation keeps it\<close>

lemma requests_invD:
  assumes "requests_inv pend s"
  shows "distinct (pend @ dr_queue s)"
    and "dr_heap s a \<noteq> None \<longleftrightarrow> waiting pend s a \<or> ongoing s a"
    and "dr_heap s a = Some r \<Longrightarrow> a < length (dr_created s) \<and> dr_created s ! a = r \<and> ri_easyHandle r \<noteq> 0"
    and "dr_heap s a = Some r \<Longrightarrow> waiting pend s a \<Longrightarrow> ri_easyHandle r \<notin> set (dr_multi s)"
    and "dr_ongoing s h = Some (Some a) \<Longrightarrow> \<not> waiting pend s a \<and> (\<exists>r. dr_heap s a = Some r \<and> ri_easyHandle r = h)"
    and "h \<in> set (dr_multi s) \<longleftrightarrow> (\<exists>a. dr_ongoing s h = Some (Some a))"
    and "dr_ongoing s h \<noteq> Some None"
    and "dr_heap s a = Some r \<Longrightarrow> dr_heap s b = Some r' \<Longrightarrow> ri_easyHandle r = ri_easyHandle r' \<Longrightarrow> a = b"
    and "dr_queue s \<noteq> [] \<Longrightarrow> 0 < dr_event s"
  using assms unfolding requests_inv_def by blast+

lemma Process_views:
  "dr_heap (Process r s) = (dr_heap s)(length (dr_created s) := Some r)" "dr_queue (Process r s) = dr_queue s @ [length (dr_created s)]"
  "dr_created (Process r s) = dr_created s @ [r]" "dr_multi (Process r s) = dr_multi s" "dr_ongoing (Process r s) = dr_ongoing s"
  "dr_log (Process r s) = dr_log s" "dr_event (Process r s) = dr_event s + 1" "contexts_inv (Process r s) = contexts_inv s"
  "waiting pend (Process r s) a \<longleftrightarrow> waiting pend s a \<or> a = length (dr_created s)" "ongoing (Process r s) a = ongoing s a"
  "events_of (Process r s) a = events_of s a"
  by (auto simp: Process_def Push_def contexts_inv_def request_views)

lemma Process_inv:
  assumes inv: "driver_inv [] s" and r: "ri_easyHandle r \<noteq> 0"
    and free: "\<And>a q. dr_heap s a = Some q \<Longrightarrow> ri_easyHandle q \<noteq> ri_easyHandle r"
  shows "driver_inv [] (Process r s)"
proof -
  let ?a = "length (dr_created s)"
  have q: "requests_inv [] s" and t: "traces_inv [] s" and c: "contexts_inv s"
    using inv by (auto simp: driver_inv_def)
  note d = requests_invD [OF q]
  have fresh: "dr_heap s ?a = None"
    using d(3) [of ?a] by (cases "dr_heap s ?a") auto
  have new: "\<not> waiting [] s ?a" "\<not> ongoing s ?a"
    using d(2) [of ?a] fresh by auto
  have multi: "ri_easyHandle r \<notin> set (dr_multi s)"
    using d(5,6) free by blast
  have "requests_inv [] (Process r s)"
    unfolding requests_inv_def Process_views
  proof (intro conjI allI impI)
    show "distinct ([] @ dr_queue s @ [?a])"
      using d(1) new by (auto simp: waiting_def)
    fix a
    show "(((dr_heap s)(?a := Some r)) a \<noteq> None) = ((waiting [] s a \<or> a = ?a) \<or> ongoing s a)"
      using d(2) [of a] by auto
    fix x b y
    show "ri_easyHandle x \<notin> set (dr_multi s)" if "((dr_heap s)(?a := Some r)) a = Some x \<and> (waiting [] s a \<or> a = ?a)"
      using that d(4) multi by (auto split: if_splits)
    show "a = b" if "((dr_heap s)(?a := Some r)) a = Some x \<and> ((dr_heap s)(?a := Some r)) b = Some y \<and> ri_easyHandle x = ri_easyHandle y"
      using that d(8) [of a x b y] free [of a x] free [of b y] by (auto split: if_splits)
    show "a < length (dr_created s @ [r])" "(dr_created s @ [r]) ! a = x" "ri_easyHandle x \<noteq> 0"
      if "((dr_heap s)(?a := Some r)) a = Some x"
      using that d(3) [of a x] r by (auto split: if_splits simp: nth_append)
  next
    fix h a
    assume h: "dr_ongoing s h = Some (Some a)"
    then have "a \<noteq> ?a"
      using new by (auto simp: ongoing_def)
    then show "\<not> (waiting [] s a \<or> a = ?a)" "\<exists>q. ((dr_heap s)(?a := Some r)) a = Some q \<and> ri_easyHandle q = h"
      using d(5) [OF h] by auto
  qed (use d(6,7) in auto)
  moreover have "trace_ok [] (Process r s) a" if "a < Suc ?a" for a
  proof (cases "a = ?a")
    case True
    then show ?thesis
      using t by (simp add: trace_ok_def Process_views traces_inv_def)
  next
    case False
    then have "a < ?a"
      using that by simp
    then have "trace_ok [] (Process r s) a = trace_ok [] s a"
      unfolding trace_ok_def started_part_def done_part_def Process_views by (simp add: nth_append)
    then show ?thesis
      using \<open>a < ?a\<close> t by (simp add: traces_inv_def)
  qed
  then have "traces_inv [] (Process r s)"
    using t by (simp add: traces_inv_def Process_views)
  ultimately show ?thesis
    using c by (simp add: driver_inv_def Process_views)
qed

lemma Flush_inv:
  assumes "driver_inv [] s" and "0 < dr_event s"
  shows "\<exists>s'. Flush s = Some (dr_queue s, s') \<and> driver_inv (dr_queue s) s' \<and> dr_queue s' = []"
proof -
  let ?s = "s\<lparr>dr_queue := [], dr_event := 0\<rparr>"
  have views: "waiting (dr_queue s) ?s = waiting [] s" "ongoing ?s = ongoing s" "events_of ?s = events_of s"
    "started_part ?s = started_part s" "done_part ?s = done_part s"
    by (auto simp: request_views fun_eq_iff)
  have "requests_inv (dr_queue s) ?s"
    using assms(1) unfolding driver_inv_def requests_inv_def views by simp blast
  moreover have "traces_inv (dr_queue s) ?s"
    using assms(1) unfolding driver_inv_def traces_inv_def trace_ok_def views by simp
  moreover have "contexts_inv ?s"
    using assms(1) by (simp add: driver_inv_def contexts_inv_def)
  ultimately show ?thesis
    using assms(2) by (simp add: Flush_def driver_inv_def)
qed

text \<open>The three ways a request moves on. Only the fields named change.\<close>

lemma events_of_append [simp]:
  "dr_log s' = dr_log s @ es \<Longrightarrow> events_of s' a = events_of s a @ filter (\<lambda>e. about e = a) es"
  by (simp add: events_of_def)

lemma refuse_inv:
  assumes inv: "driver_inv (a # pend) s" and c: "contexts_inv s'"
    and s': "dr_created s' = dr_created s" "dr_queue s' = dr_queue s" "dr_event s' = dr_event s" "dr_multi s' = dr_multi s"
      "dr_ongoing s' = dr_ongoing s" "dr_heap s' = (dr_heap s)(a := None)" "dr_log s' = dr_log s @ [Refused a]"
  shows "driver_inv pend s'"
proof -
  have q: "requests_inv (a # pend) s" and t: "traces_inv (a # pend) s"
    using inv by (auto simp: driver_inv_def)
  note d = requests_invD [OF q]
  have w: "waiting (a # pend) s b \<longleftrightarrow> b = a \<or> waiting pend s' b" "ongoing s' b = ongoing s b" for b
    using s' by (auto simp: waiting_def ongoing_def)
  have a: "\<not> waiting pend s' a" "\<not> ongoing s a"
    using d(1) d(5) [of _ a] s' w(1) [of a] by (auto simp: waiting_def ongoing_def)
  have "requests_inv pend s'"
    unfolding requests_inv_def s'
  proof (intro conjI allI impI)
    show "distinct (pend @ dr_queue s)"
      using d(1) by simp
    fix b
    show "(((dr_heap s)(a := None)) b \<noteq> None) = (waiting pend s' b \<or> ongoing s' b)"
      using d(2) [of b] w [of b] a by auto
    fix x b' y
    show "b < length (dr_created s)" "dr_created s ! b = x" "ri_easyHandle x \<noteq> 0" if "((dr_heap s)(a := None)) b = Some x"
      using that d(3) [of b x] by (auto split: if_splits)
    show "ri_easyHandle x \<notin> set (dr_multi s)" if "((dr_heap s)(a := None)) b = Some x \<and> waiting pend s' b"
      using that d(4) [of b x] w(1) [of b] by (auto split: if_splits)
    show "b = b'" if "((dr_heap s)(a := None)) b = Some x \<and> ((dr_heap s)(a := None)) b' = Some y \<and> ri_easyHandle x = ri_easyHandle y"
      using that d(8) [of b x b' y] by (auto split: if_splits)
  next
    fix h b
    assume h: "dr_ongoing s h = Some (Some b)"
    then have "b \<noteq> a"
      using a by (auto simp: ongoing_def)
    then show "\<not> waiting pend s' b" "\<exists>r. ((dr_heap s)(a := None)) b = Some r \<and> ri_easyHandle r = h"
      using d(5) [OF h] w(1) [of b] by auto
  qed (use d(6,7,9) in auto)
  moreover have "trace_ok pend s' b" if "b < length (dr_created s)" for b
  proof (cases "b = a")
    case True
    have "events_of s a = []"
      using t that True w(1) [of a] by (auto simp: traces_inv_def trace_ok_def)
    then show ?thesis
      using True a w s' by (simp add: trace_ok_def)
  next
    case False
    then have "events_of s' b = events_of s b" "started_part s' b = started_part s b" "\<And>res. done_part s' b res = done_part s b res"
      using s' by (auto simp: started_part_def done_part_def)
    then show ?thesis
      using t that False w [of b] by (simp add: traces_inv_def trace_ok_def)
  qed
  moreover have "events_of s' b = []" if "length (dr_created s) \<le> b" for b
  proof -
    have "b \<noteq> a"
      using d(2) [of a] d(3) [of a] w(1) [of a] that by auto
    then show ?thesis
      using t that s' by (auto simp: traces_inv_def)
  qed
  ultimately show ?thesis
    using c s' by (simp add: driver_inv_def traces_inv_def)
qed

lemma accept_inv:
  assumes inv: "driver_inv (a # pend) s" and r: "dr_heap s a = Some r" and c: "contexts_inv s'"
    and s': "dr_created s' = dr_created s" "dr_queue s' = dr_queue s" "dr_event s' = dr_event s" "dr_heap s' = dr_heap s"
      "dr_multi s' = dr_multi s @ [ri_easyHandle r]" "dr_ongoing s' = (dr_ongoing s)(ri_easyHandle r := Some (Some a))"
      "dr_log s' = dr_log s @ (if ri_started r then [Started a] else [])"
  shows "driver_inv pend s'"
proof -
  let ?h = "ri_easyHandle r"
  have q: "requests_inv (a # pend) s" and t: "traces_inv (a # pend) s"
    using inv by (auto simp: driver_inv_def)
  note d = requests_invD [OF q]
  have wa: "waiting (a # pend) s a"
    by (simp add: waiting_def)
  have h: "?h \<notin> set (dr_multi s)" "\<And>b. dr_ongoing s ?h \<noteq> Some (Some b)"
    using d(4) [OF r wa] d(6) [of ?h] by auto
  have w: "waiting (a # pend) s b \<longleftrightarrow> b = a \<or> waiting pend s' b" "ongoing s' b \<longleftrightarrow> b = a \<or> ongoing s b" for b
  proof -
    show "waiting (a # pend) s b \<longleftrightarrow> b = a \<or> waiting pend s' b"
      using s' by (auto simp: waiting_def)
    show "ongoing s' b \<longleftrightarrow> b = a \<or> ongoing s b"
      unfolding ongoing_def s'(6) using h(2) by (metis fun_upd_apply option.inject)
  qed
  have a: "\<not> waiting pend s' a" "a < length (dr_created s)" "dr_created s ! a = r"
    using d(1) d(3) [OF r] s' by (auto simp: waiting_def)
  have og: "\<not> (waiting (a # pend) s b \<and> ongoing s b)" for b
    using d(5) by (auto simp: ongoing_def)
  have "requests_inv pend s'"
    unfolding requests_inv_def s'
  proof (intro conjI allI impI)
    show "distinct (pend @ dr_queue s)"
      using d(1) by simp
    fix b
    show "(dr_heap s b \<noteq> None) = (waiting pend s' b \<or> ongoing s' b)"
      using d(2) [of b] w [of b] by auto
    fix x b' y
    show "b < length (dr_created s)" "dr_created s ! b = x" "ri_easyHandle x \<noteq> 0" if "dr_heap s b = Some x"
      using that d(3) [of b x] by auto
    show "ri_easyHandle x \<notin> set (dr_multi s @ [?h])" if "dr_heap s b = Some x \<and> waiting pend s' b"
      using that d(4) [of b x] d(8) [of b x a r] r w(1) [of b] a(1) by auto
    show "b = b'" if "dr_heap s b = Some x \<and> dr_heap s b' = Some y \<and> ri_easyHandle x = ri_easyHandle y"
      using that d(8) [of b x b' y] by auto
  next
    fix h b
    assume "((dr_ongoing s)(?h := Some (Some a))) h = Some (Some b)"
    then have cases: "h = ?h \<and> b = a \<or> h \<noteq> ?h \<and> dr_ongoing s h = Some (Some b)"
      by (auto split: if_splits)
    then show "\<not> waiting pend s' b"
      using a(1) og [of b] w(1) [of b] by (auto simp: ongoing_def)
    show "\<exists>q. dr_heap s b = Some q \<and> ri_easyHandle q = h"
      using cases r d(5) [of h b] by auto
  next
    fix h
    show "h \<in> set (dr_multi s @ [?h]) \<longleftrightarrow> (\<exists>b. ((dr_ongoing s)(?h := Some (Some a))) h = Some (Some b))"
      using d(6) [of h] by (cases "h = ?h") auto
    show "((dr_ongoing s)(?h := Some (Some a))) h \<noteq> Some None"
      using d(7) [of h] by simp
  qed (rule d(9))
  moreover have "trace_ok pend s' b" if "b < length (dr_created s)" for b
  proof (cases "b = a")
    case True
    have "events_of s a = []"
      using t that True wa by (auto simp: traces_inv_def trace_ok_def)
    then show ?thesis
      using True a w [of a] s' by (simp add: trace_ok_def started_part_def)
  next
    case False
    then have "events_of s' b = events_of s b" "started_part s' b = started_part s b" "\<And>res. done_part s' b res = done_part s b res"
      using s' by (auto simp: started_part_def done_part_def)
    then show ?thesis
      using t that False w [of b] by (simp add: traces_inv_def trace_ok_def)
  qed
  moreover have "events_of s' b = []" if "length (dr_created s) \<le> b" for b
    using t that s' a by (auto simp: traces_inv_def)
  ultimately show ?thesis
    using c s' by (simp add: driver_inv_def traces_inv_def)
qed

lemma finish_inv:
  assumes inv: "driver_inv pend s" and h: "dr_ongoing s h = Some (Some a)" and r: "dr_heap s a = Some r" and c: "contexts_inv s'"
    and s': "dr_created s' = dr_created s" "dr_queue s' = dr_queue s" "dr_event s' = dr_event s" "dr_heap s' = (dr_heap s)(a := None)"
      "dr_multi s' = removeAll h (dr_multi s)" "dr_ongoing s' = (dr_ongoing s)(h := None)"
      "dr_log s' = dr_log s @ (if ri_done r then [Finished a res] else [])"
  shows "driver_inv pend s'"
proof -
  have q: "requests_inv pend s" and t: "traces_inv pend s"
    using inv by (auto simp: driver_inv_def)
  note d = requests_invD [OF q]
  have a: "\<not> waiting pend s a" "a < length (dr_created s)" "dr_created s ! a = r" "ri_easyHandle r = h" "ongoing s a"
    using d(3) [OF r] d(5) [OF h] r h by (auto simp: ongoing_def)
  have only: "h' = h" if "dr_ongoing s h' = Some (Some a)" for h'
    using d(5) [OF that] r a(4) by auto
  have w: "waiting pend s' b = waiting pend s b" "ongoing s' b \<longleftrightarrow> b \<noteq> a \<and> ongoing s b" for b
  proof -
    show "waiting pend s' b = waiting pend s b"
      using s' by (simp add: waiting_def)
    show "ongoing s' b \<longleftrightarrow> b \<noteq> a \<and> ongoing s b"
      unfolding ongoing_def s'(6) using h only by (metis fun_upd_apply option.distinct(1) option.inject)
  qed
  have "requests_inv pend s'"
    unfolding requests_inv_def s'
  proof (intro conjI allI impI)
    show "distinct (pend @ dr_queue s)"
      using d(1) by simp
    fix b
    show "(((dr_heap s)(a := None)) b \<noteq> None) = (waiting pend s' b \<or> ongoing s' b)"
      using d(2) [of b] w [of b] a(1) by auto
    fix x b' y
    show "b < length (dr_created s)" "dr_created s ! b = x" "ri_easyHandle x \<noteq> 0" if "((dr_heap s)(a := None)) b = Some x"
      using that d(3) [of b x] by (auto split: if_splits)
    show "ri_easyHandle x \<notin> set (removeAll h (dr_multi s))" if "((dr_heap s)(a := None)) b = Some x \<and> waiting pend s' b"
      using that d(4) [of b x] w(1) [of b] by (auto split: if_splits)
    show "b = b'" if "((dr_heap s)(a := None)) b = Some x \<and> ((dr_heap s)(a := None)) b' = Some y \<and> ri_easyHandle x = ri_easyHandle y"
      using that d(8) [of b x b' y] by (auto split: if_splits)
  next
    fix h' b
    assume "((dr_ongoing s)(h := None)) h' = Some (Some b)"
    then have h': "h' \<noteq> h" "dr_ongoing s h' = Some (Some b)"
      by (auto split: if_splits)
    then have "b \<noteq> a"
      using only by auto
    then show "\<not> waiting pend s' b" "\<exists>q. ((dr_heap s)(a := None)) b = Some q \<and> ri_easyHandle q = h'"
      using d(5) [OF h'(2)] w(1) [of b] by auto
  next
    fix h'
    show "h' \<in> set (removeAll h (dr_multi s)) \<longleftrightarrow> (\<exists>b. ((dr_ongoing s)(h := None)) h' = Some (Some b))"
      using d(6) [of h'] by (cases "h' = h") auto
    show "((dr_ongoing s)(h := None)) h' \<noteq> Some None"
      using d(7) [of h'] by simp
  qed (rule d(9))
  moreover have "trace_ok pend s' b" if "b < length (dr_created s)" for b
  proof (cases "b = a")
    case True
    have "events_of s a = started_part s a"
      using t that True a by (auto simp: traces_inv_def trace_ok_def)
    then have "events_of s' a = started_part s' a @ done_part s' a res"
      using s' a by (simp add: started_part_def done_part_def)
    then show ?thesis
      using True a w [of a] by (auto simp: trace_ok_def)
  next
    case False
    then have "events_of s' b = events_of s b" "started_part s' b = started_part s b" "\<And>res. done_part s' b res = done_part s b res"
      using s' by (auto simp: started_part_def done_part_def)
    then show ?thesis
      using t that False w [of b] by (simp add: traces_inv_def trace_ok_def)
  qed
  moreover have "events_of s' b = []" if "length (dr_created s) \<le> b" for b
    using t that s' a by (auto simp: traces_inv_def)
  ultimately show ?thesis
    using c s' by (simp add: driver_inv_def traces_inv_def)
qed

section \<open>The loops\<close>

lemma incoming_loop_inv:
  "driver_inv pend s \<Longrightarrow>
   \<exists>s'. incoming_loop curl pend s = Some s' \<and> driver_inv [] s' \<and> dr_eventFd s' = dr_eventFd s \<and> dr_timerFd s' = dr_timerFd s \<and>
        dr_multi_ok s' = dr_multi_ok s"
proof (induction pend arbitrary: s)
  case (Cons a pend)
  have q: "requests_inv (a # pend) s" and c: "contexts_inv s"
    using Cons.prems by (auto simp: driver_inv_def)
  note d = requests_invD [OF q]
  have wa: "waiting (a # pend) s a"
    by (simp add: waiting_def)
  then obtain r where r: "dr_heap s a = Some r"
    using d(2) [of a] by auto
  let ?h = "ri_easyHandle r"
  have h: "dr_ongoing s ?h = None"
    using d(4) [OF r wa] d(6,7) [of ?h] by (cases "dr_ongoing s ?h") auto
  obtain ok calls where add: "cl_add curl (dr_multi s) ?h = (ok, calls)"
    by fastforce
  let ?s1 = "s\<lparr>dr_ongoing := (dr_ongoing s)(?h := Some (Some a))\<rparr>"
  have "contexts_inv ?s1"
    using c by (simp add: contexts_inv_def)
  then obtain s2 where s2: "run_calls calls ?s1 = Some s2" "contexts_inv s2" "same_requests ?s1 s2"
    using run_calls_ok by blast
  show ?case
  proof (cases ok)
    case True
    let ?s3 = "s2\<lparr>dr_multi := dr_multi s2 @ [?h], dr_log := dr_log s2 @ (if ri_started r then [Started a] else [])\<rparr>"
    have "driver_inv pend ?s3"
      using s2 by (intro accept_inv [OF Cons.prems r]) (auto simp: same_requests_def contexts_inv_def)
    then show ?thesis
      using Cons.IH [of ?s3] r add s2 True by (auto simp: same_requests_def)
  next
    case False
    let ?s3 = "s2\<lparr>dr_ongoing := (dr_ongoing s2)(?h := None), dr_heap := (dr_heap s2)(a := None), dr_log := dr_log s2 @ [Refused a]\<rparr>"
    have "(dr_ongoing s)(?h := None) = dr_ongoing s"
      using h by auto
    then have "driver_inv pend ?s3"
      using s2 by (intro refuse_inv [OF Cons.prems]) (auto simp: same_requests_def contexts_inv_def)
    then show ?thesis
      using Cons.IH [of ?s3] r add s2 False by (auto simp: same_requests_def)
  qed
qed simp

text \<open>Curl reports each of the handles it holds at most once, and no others.\<close>

fun done_handles :: "curl_msg list \<Rightarrow> nat list" where
  "done_handles [] = []"
| "done_handles (CURLMSG_other # msgs) = done_handles msgs"
| "done_handles (CURLMSG_DONE h res # msgs) = h # done_handles msgs"

definition messages_ok :: "EpollMultiDriver \<Rightarrow> curl_msg list \<Rightarrow> bool" where
  "messages_ok s msgs \<longleftrightarrow> distinct (done_handles msgs) \<and> set (done_handles msgs) \<subseteq> set (dr_multi s)"

lemma done_message_inv:
  assumes inv: "driver_inv [] s" and h: "h \<in> set (dr_multi s)"
  shows "\<exists>s'. HandleCurlDoneMessage curl h res s = Some s' \<and> driver_inv [] s' \<and> dr_multi s' = removeAll h (dr_multi s) \<and>
              dr_eventFd s' = dr_eventFd s \<and> dr_timerFd s' = dr_timerFd s \<and> dr_multi_ok s' = dr_multi_ok s"
proof -
  have q: "requests_inv [] s" and c: "contexts_inv s"
    using inv by (auto simp: driver_inv_def)
  note d = requests_invD [OF q]
  obtain a where a: "dr_ongoing s h = Some (Some a)"
    using d(6) h by auto
  then obtain r where r: "dr_heap s a = Some r" "ri_easyHandle r = h"
    using d(5) by blast
  have "h \<noteq> 0"
    using d(3) [OF r(1)] r(2) by simp
  have same: "s\<lparr>dr_ongoing := (dr_ongoing s)(h := Some (Some a))\<rparr> = s"
  proof -
    have "(dr_ongoing s)(h := Some (Some a)) = dr_ongoing s"
      using a by auto
    then show ?thesis
      by simp
  qed
  obtain s2 where s2: "run_calls (cl_remove curl (dr_multi s) h) s = Some s2" "contexts_inv s2" "same_requests s s2"
    using run_calls_ok [OF c] by blast
  let ?s3 = "s2\<lparr>dr_multi := removeAll h (dr_multi s2), dr_ongoing := (dr_ongoing s2)(h := None),
                dr_heap := (dr_heap s2)(a := None), dr_log := dr_log s2 @ (if ri_done r then [Finished a res] else [])\<rparr>"
  have "driver_inv [] ?s3"
    using s2 by (intro finish_inv [OF inv a r(1)]) (auto simp: same_requests_def contexts_inv_def)
  moreover have "HandleCurlDoneMessage curl h res s = Some ?s3"
    using a r s2 \<open>h \<noteq> 0\<close> by (simp add: HandleCurlDoneMessage_def HandleCompletion_def same same_requests_def)
  ultimately show ?thesis
    using s2 by (auto simp: same_requests_def)
qed

lemma check_loop_inv:
  "driver_inv [] s \<Longrightarrow> messages_ok s msgs \<Longrightarrow>
   \<exists>s'. check_loop curl msgs s = Some s' \<and> driver_inv [] s' \<and> dr_eventFd s' = dr_eventFd s \<and> dr_timerFd s' = dr_timerFd s \<and>
        dr_multi_ok s' = dr_multi_ok s"
proof (induction msgs arbitrary: s)
  case (Cons m msgs)
  show ?case
  proof (cases m)
    case (CURLMSG_DONE h res)
    obtain s1 where s1: "HandleCurlDoneMessage curl h res s = Some s1" "driver_inv [] s1" "dr_multi s1 = removeAll h (dr_multi s)"
        "dr_eventFd s1 = dr_eventFd s" "dr_timerFd s1 = dr_timerFd s" "dr_multi_ok s1 = dr_multi_ok s"
      using done_message_inv [of s h curl res] Cons.prems CURLMSG_DONE by (auto simp: messages_ok_def)
    then have "messages_ok s1 msgs"
      using Cons.prems CURLMSG_DONE by (auto simp: messages_ok_def)
    then show ?thesis
      using Cons.IH [of s1] s1 CURLMSG_DONE by auto
  next
    case CURLMSG_other
    then show ?thesis
      using Cons by (auto simp: messages_ok_def)
  qed
qed simp

lemma socket_action_inv:
  assumes "driver_inv [] s" and "messages_ok s (ca_msgs act)"
  shows "\<exists>s'. socket_action curl act s = Some s' \<and> driver_inv [] s' \<and> dr_eventFd s' = dr_eventFd s \<and> dr_timerFd s' = dr_timerFd s \<and>
              dr_multi_ok s' = dr_multi_ok s"
proof -
  obtain s1 where s1: "run_calls (ca_calls act) s = Some s1" "contexts_inv s1" "same_requests s s1"
    using run_calls_ok assms(1) by (auto simp: driver_inv_def)
  let ?s2 = "s1\<lparr>dr_stillRunning := ca_running act\<rparr>"
  have "same_requests s ?s2" "contexts_inv ?s2"
    using s1 by (auto simp: contexts_inv_def)
  then have "driver_inv [] ?s2" "messages_ok ?s2 (ca_msgs act)"
    using assms same_requests_views [of s ?s2] by (auto simp: driver_inv_def messages_ok_def same_requests_def)
  then show ?thesis
    using check_loop_inv [of ?s2 "ca_msgs act" curl] s1 by (auto simp: socket_action_def CheckMultiInfo_def same_requests_def)
qed

lemma timer_inv: "driver_inv pend (s\<lparr>dr_timer := t\<rparr>) = driver_inv pend s"
  using same_requests_views [of s "s\<lparr>dr_timer := t\<rparr>"] by (simp add: driver_inv_def contexts_inv_def)

section \<open>Reachable states\<close>

text \<open>
  An event may be handled if its descriptor can be ready: that of the queue if the counter is not 0. The
  messages curl has are about handles it holds.
\<close>

definition event_ok :: "EpollMultiDriver \<Rightarrow> int \<times> curl_action \<Rightarrow> bool" where
  "event_ok s ev \<longleftrightarrow> (fst ev = dr_eventFd s \<longrightarrow> 0 < dr_event s) \<and> messages_ok s (ca_msgs (snd ev))"

lemma handle_event_inv:
  assumes "driver_inv [] s" and "event_ok s ev"
  shows "\<exists>s'. handle_event curl ev s = Some s' \<and> driver_inv [] s'"
proof -
  obtain fd act where ev: "ev = (fd, act)"
    by fastforce
  consider "fd = dr_eventFd s" | "fd \<noteq> dr_eventFd s" "fd = dr_timerFd s" | "fd \<noteq> dr_eventFd s" "fd \<noteq> dr_timerFd s"
    by blast
  then show ?thesis
  proof cases
    case 1
    then obtain s1 where s1: "Flush s = Some (dr_queue s, s1)" "driver_inv (dr_queue s) s1"
      using Flush_inv assms ev by (auto simp: event_ok_def)
    then show ?thesis
      using 1 ev incoming_loop_inv [OF s1(2), of curl] by (auto simp: handle_event_def IncomingRequestCallback_def)
  next
    case 2
    have "driver_inv [] (ResetEvent s)" "messages_ok (ResetEvent s) (ca_msgs act)"
      using assms ev by (auto simp: ResetEvent_def timer_inv event_ok_def messages_ok_def)
    then show ?thesis
      using 2 ev socket_action_inv [of "ResetEvent s" act curl] by (auto simp: handle_event_def EpollTimerCallback_def)
  next
    case 3
    then obtain s1 where "socket_action curl act s = Some s1" "driver_inv [] s1"
      using socket_action_inv [of s act curl] assms ev by (auto simp: event_ok_def)
    then show ?thesis
      using 3 ev by (auto simp: handle_event_def EpollSocketCallback_def Stop_def SetTimeoutMs_def timer_inv)
  qed
qed

text \<open>
  The states in which callers and the worker can bring the driver, in any order: a caller hands over a
  request at any time, also between two events; its handle is its own. The worker handles an event, or
  waits in vain.
\<close>

inductive reachable :: "curl_lib \<Rightarrow> EpollMultiDriver \<Rightarrow> bool" for curl where
  init: "reachable curl (Initialize multi_init (new_driver eventFd timerFd))"
| process: "reachable curl s \<Longrightarrow> ri_easyHandle r \<noteq> 0 \<Longrightarrow> (\<And>a q. dr_heap s a = Some q \<Longrightarrow> ri_easyHandle q \<noteq> ri_easyHandle r) \<Longrightarrow>
    reachable curl (Process r s)"
| event: "reachable curl s \<Longrightarrow> event_ok s ev \<Longrightarrow> handle_event curl ev s = Some s' \<Longrightarrow> reachable curl s'"
| idle: "reachable curl s \<Longrightarrow> messages_ok s msgs \<Longrightarrow> Step curl (Wait_nothing msgs) s = Some s' \<Longrightarrow> reachable curl s'"

lemma idle_inv:
  assumes "driver_inv [] s" and "messages_ok s msgs"
  shows "\<exists>s'. Step curl (Wait_nothing msgs) s = Some s' \<and> driver_inv [] s'"
  using assms check_loop_inv [of s msgs curl] by (auto simp: Step_def CheckMultiInfo_def)

lemma init_inv: "driver_inv [] (Initialize multi_init (new_driver eventFd timerFd))"
proof -
  let ?s = "Initialize multi_init (new_driver eventFd timerFd)"
  have "same_requests (new_driver eventFd timerFd\<lparr>dr_multi_ok := multi_init\<rparr>) ?s" "contexts_inv ?s"
    by (auto simp: Initialize_def RegisterMe_def new_driver_def same_requests_def contexts_inv_def)
  moreover have "requests_inv [] (new_driver eventFd timerFd\<lparr>dr_multi_ok := multi_init\<rparr>)" "traces_inv [] (new_driver eventFd timerFd\<lparr>dr_multi_ok := multi_init\<rparr>)"
    by (auto simp: new_driver_def requests_inv_def traces_inv_def request_views)
  ultimately show ?thesis
    using same_requests_views by (auto simp: driver_inv_def)
qed

lemma reachable_inv: "reachable curl s \<Longrightarrow> driver_inv [] s"
proof (induction rule: reachable.induct)
  case (init multi_init eventFd timerFd)
  then show ?case
    by (rule init_inv)
next
  case (process s r)
  then show ?case
    by (intro Process_inv)
next
  case (event s ev s')
  then show ?case
    using handle_event_inv [of s ev curl] by auto
next
  case (idle s msgs s')
  then show ?case
    using idle_inv [of s msgs curl] by auto
qed

text \<open>A batch of events, each of which may be handled when its turn comes.\<close>

fun events_ok :: "curl_lib \<Rightarrow> (int \<times> curl_action) list \<Rightarrow> EpollMultiDriver \<Rightarrow> bool" where
  "events_ok curl [] s = True"
| "events_ok curl (ev # evs) s = (event_ok s ev \<and> (case handle_event curl ev s of None \<Rightarrow> True | Some s1 \<Rightarrow> events_ok curl evs s1))"

lemma events_loop_reachable:
  "reachable curl s \<Longrightarrow> events_ok curl evs s \<Longrightarrow> \<exists>s'. events_loop curl evs s = Some s' \<and> reachable curl s'"
proof (induction evs arbitrary: s)
  case (Cons ev evs)
  have ok: "event_ok s ev"
    using Cons.prems(2) by simp
  obtain s1 where s1: "handle_event curl ev s = Some s1"
    using handle_event_inv [OF reachable_inv [OF Cons.prems(1)] ok, of curl] by blast
  then show ?case
    using Cons.IH [OF reachable.event [OF Cons.prems(1) ok s1]] Cons.prems(2) by simp
qed simp


text \<open>A curl that takes every handle it does not hold, and says nothing on the way.\<close>

definition plain_curl :: curl_lib where
  "plain_curl = \<lparr>cl_add = (\<lambda>m h. (h \<notin> set m, [])), cl_remove = (\<lambda>m h. [])\<rparr>"

definition no_action :: "curl_msg list \<Rightarrow> curl_action" where
  "no_action msgs = \<lparr>ca_calls = [], ca_running = 1, ca_msgs = msgs\<rparr>"

definition request5 :: RequestInfo where
  "request5 = \<lparr>ri_easyHandle = 5, ri_started = True, ri_done = True, ri_opaqueData = 0\<rparr>"

definition one_request :: EpollMultiDriver where
  "one_request = Process request5 (Initialize True (new_driver 3 4))"

lemmas one_request_defs = one_request_def request5_def Process_def Push_def Initialize_def new_driver_def RegisterMe_def

lemma one_request_reachable: "reachable curl one_request"
proof -
  have "dr_heap (Initialize True (new_driver 3 4)) a = None" for a
    by (simp add: one_request_defs)
  then show ?thesis
    unfolding one_request_def by (intro reachable.process reachable.init) (auto simp: request5_def)
qed


text \<open>
  C4. What a request observes, from its creation on: nothing while it is queued; exactly one call of its
  started callback when it is ongoing; and when it is deleted either, for a request curl refused, no call
  at all, or one call of the started callback followed by one of the done callback. No callback is ever
  called twice, or after the request has been deleted.
\<close>

theorem epoll_request_trace:
  assumes "reachable curl s" and "a < length (dr_created s)"
  shows "(if a \<in> set (dr_queue s) then events_of s a = []
          else if ongoing s a then events_of s a = started_part s a
          else dr_heap s a = None \<and>
               (events_of s a = [Refused a] \<or> (\<exists>res. events_of s a = started_part s a @ done_part s a res)))"
proof -
  have inv: "driver_inv [] s"
    using assms(1) by (rule reachable_inv)
  then have "trace_ok [] s a"
    using assms(2) by (simp add: driver_inv_def traces_inv_def)
  moreover have "dr_heap s a \<noteq> None \<longleftrightarrow> waiting [] s a \<or> ongoing s a"
    using inv requests_invD(2) by (simp add: driver_inv_def)
  ultimately show ?thesis
    by (auto simp: trace_ok_def waiting_def)
qed

theorem epoll_request_trace_witness: "events_of one_request 0 = []"
proof -
  have "0 < length (dr_created one_request)" "0 \<in> set (dr_queue one_request)"
    by (simp_all add: one_request_defs)
  then show ?thesis
    using epoll_request_trace [OF one_request_reachable, of 0] by simp
qed


end
