(* ===== verification/Spec2Isabelle.thy ===== *)
theory Spec2Isabelle
  imports LRU_Cache_Js LRU_Persist_Correct Base64 Common_Utils_Correct Http_Tls_Config Http_Cache_Strategy_Correct Hash_Map_Correct Cache_Thread Http_Task_Correct Http_Task_Run_Correct Net_Http_C_Correct Tlv_Utils Socks5_Correct Epoll_Driver_Correct
begin

text \<open>
  \<^bold>\<open>A verification library for the OpenHarmony network stack\<close> (\<open>communication_netstack\<close>). Paths below are
  relative to \<open>src/\<close>.

  \<^bold>\<open>The program.\<close> The stack gives applications HTTP, sockets, TLS sockets and WebSockets. The heart of the
  native HTTP client is a task (\<open>frameworks/native/http/http_client/http_client_task.cpp\<close>): a client fills in
  a request, the task translates it into options of curl, a worker thread
  (\<open>utils/http_over_curl\<close>) drives all transfers through one curl multi handle, and the callbacks of curl collect the
  response and end the task with one final callback. Between task and network stand the interceptors
  (\<open>frameworks/native/http_interceptor\<close>) and a response cache
  (\<open>interfaces/innerkits/http_client/cache\<close>): a strategy after RFC 7234, an LRU cache in memory, and a file written by a
  thread of its own. A C interface (\<open>interfaces/kits/c\<close>) wraps the client; its headers live in a hash map of its
  own. The native sockets (\<open>frameworks/native/socket_native\<close>) share a set of operations and can connect through
  a SOCKS5 proxy (\<open>frameworks/native/proxy\<close>).

  \<^bold>\<open>How it is modelled.\<close> A class is a record, an enumeration a datatype with the constructors of the source, and
  an operation a function that returns the new state. Names are those of the source; where two classes
  use the same name, the later one carries a prefix. \<open>None\<close> stands for undefined behaviour (an invalid
  iterator, a deleted object, an access outside a buffer, an overflow of a signed integer) and for a loop that has not
  ended; theorems show that it does not occur, or under which conditions. Integers keep their width where it matters
  (\<open>byte\<close>, \<open>u16\<close>, \<open>u32\<close> are words, signed integers are \<open>int\<close> with their bounds written out). Code outside the sources is
  a parameter: curl, cJSON, OpenSSL digests, \<open>inet_pton\<close>, name resolution, the interceptors of
  the client. What is assumed of it is a named predicate (for example \<open>pton_laws\<close>) with an instance for
  which it is proved. System calls are lists of outcomes, and \<open>errno\<close> is part of the state.

  \<^bold>\<open>The theories.\<close>

  \<^item> \<open>Netstack_Prelude\<close>: machine integers, operations of \<open>std::string\<close>, numbers as text, shared lemmas on lists.
    \<open>Byte_Order\<close>: integers as bytes, writing into a buffer. \<open>Std_Regex\<close>: \<open>std::regex_match\<close>. \<open>C_Api_Types\<close>: result codes of the C interface.

  \<^item> \<open>Common_Utils\<close>, \<open>Common_Utils_Correct\<close> (\<open>utils/common_utils/src/netstack_common_utils.cpp\<close>): splitting, trimming, URLs, IP addresses,
    masking, host exclusion lists, pinned keys. Each loop equals a reference function; a digest is pinned exactly
    if it is listed; a host is excluded exactly if an entry matches it; the parts of a URL are read back.

  \<^item> \<open>Base64\<close> (\<open>cache/base64\<close>): encoding and decoding are inverse to each other.

  \<^item> \<open>LRU_Spec\<close>: the abstract store with its budget, and the locale \<open>lru_store\<close>, the contract of a cache. \<open>LRU_Cache\<close>
    (\<open>cache/lru_cache/src/lru_cache.cpp\<close>: a list with an index of iterators, the eviction loop as a partial function) and
    \<open>LRU_Cache_Js\<close> (the class of the JS module) interpret it: every operation returns and refines the abstract one in
    every reachable state.

  \<^item> \<open>LRU_Persist\<close>, \<open>LRU_Persist_Correct\<close> (\<open>lru_cache_disk_handler.cpp\<close>, \<open>disk_handler.cpp\<close> and the JSON functions of the
    cache): writing and reading back gives the entries in order of use; every operation of the disk cache returns, for any
    JSON library and any file.

  \<^item> \<open>Http_Message\<close> (\<open>http_client_request.cpp\<close>, \<open>http_client_response.cpp\<close>, \<open>http_client_error.cpp\<close>): the setters of a request keep its
    invariant; header lines are read back. \<open>Http_Tls_Config\<close>: the cipher strings for curl partition the chosen suites.

  \<^item> \<open>Http_Cache_Strategy\<close>, \<open>Http_Cache_Strategy_Correct\<close> (\<open>cache/cache_strategy\<close>): with 64-bit times and their overflow; the strategy takes the
    decision of a reference after RFC 7234, and stores exactly the responses that may be stored.

  \<^item> \<open>Cache_Proxy\<close>, \<open>Cache_Thread\<close> (\<open>cache/cache_proxy\<close>): the key of a request tells requests apart, what is written is read
    again; the threads that flush and stop the cache as a step relation, with the safety of deletion and a lost wake-up.

  \<^item> \<open>Hash_Map\<close>, \<open>Hash_Map_Correct\<close> (\<open>interfaces/kits/c/common/netstack_hash_map.cpp\<close>): the locale \<open>string_map\<close> is what a client relies on; its
    interpretation \<open>hm\<close> shows that the table with its chains is a finite map, and its iterator visits every entry once.

  \<^item> \<open>Http_Task\<close>, \<open>Http_Task_Correct\<close>: preparing a transfer, up to the list of options given to curl. Certificates are verified
    unless the request skips it; with the cache the preparation ends early. \<open>Http_Interceptor\<close>: registration and the two chains;
    a stopped group behaves as if it were removed. \<open>Http_Task_Run\<close>, \<open>Http_Task_Run_Correct\<close>: the callbacks and the end of a
    transfer; exactly one final callback, silence after a cancellation, a bounded body.

  \<^item> \<open>Epoll_Driver\<close>, \<open>Epoll_Driver_Correct\<close> (\<open>utils/http_over_curl\<close>): the worker thread, with its queue, event, timer and socket
    contexts. The inductive predicate \<open>reachable\<close> interleaves callers and worker; no deleted object is touched, no request is
    overlooked, and the events each request observes are determined by where it is.

  \<^item> \<open>Net_Http_C\<close>, \<open>Net_Http_C_Correct\<close> (\<open>interfaces/kits/c/net_http/src/net_http_c.cpp\<close>): header objects are multimaps, over the contract of
    the hash map; what of them reaches the request.

  \<^item> \<open>Socket_Exec\<close> (\<open>socket_native/options/src/net_address.cpp\<close>, \<open>socket_exec/src/socket_exec_common.cpp\<close>): data is sent in order, without gaps,
    and success means all of it; addresses are read back.

  \<^item> \<open>Socks5_Package\<close>, \<open>Socks5_Instance\<close>, \<open>Socks5_Correct\<close> (\<open>native/proxy/src\<close>): the messages have the bytes RFC 1928 and RFC 1929 prescribe and
    are read without leaving the buffer; an attempt that succeeds has held the whole dialogue, one that fails has closed its
    socket; an attempt ends under stated conditions, and \<open>Recv\<close> alone need not end.

  \<^item> \<open>Tlv_Utils\<close> (\<open>utils/tlv_utils\<close>): a message that fits is encoded so that a decoder gets every field back.

  \<^bold>\<open>Loops and bounds.\<close> Structural loops are recursive functions. Loops whose end depends on the state (eviction, the walk
  over header entries) are partial functions, and their results are proved to exist in reachable states. Loops over
  system calls read a list of outcomes; \<open>PollSendData\<close> needs at most one accepting outcome per byte, so a message of SOCKS5, which has
  at most 513 bytes, needs no more than 513. Overflow is excluded in the cache strategy for times far from
  the bounds of \<open>int64_t\<close>, which the theorem names.

  \<^bold>\<open>Not modelled.\<close> The JS, Cangjie, ArkTS and Rust bindings, which move values between language engines and the native
  components (the N-API engine and the bridges are not part of the sources); TLS sockets and the verification of
  certificates, whose outcome OpenSSL decides; WebSockets, whose state machine is that of libwebsockets; the threads of the native
  sockets with their lists of clients; network handover, decided by a library loaded at run time, and
  with it the handover branches of the worker; redirection interceptors of the JS module; timing figures in floating point,
  statistics, profiler records and logs. The second versions of the cache, the proxy and the socket operations under
  \<open>frameworks/js\<close> are not modelled except for the LRU cache.
\<close>

end
